(* ===== verification/Prelude.thy ===== *)
theory Prelude
  imports Main "HOL-Library.Sublist" "HOL-Library.Char_ord" "HOL-Library.List_Lexorder"
begin

section \<open>Shared vocabulary: Go strings, paths, sorting\<close>

text \<open>
  What every component of the development uses of the Go language and its standard
  library: byte strings and the functions of package \<open>strings\<close> the sources call,
  \<open>path.Clean\<close>/\<open>Join\<close>/\<open>Dir\<close>/\<open>Base\<close>, \<open>sort.Slice\<close> and decimal numerals. A Go string
  is a byte string, and a HOL \<open>char\<close> is a byte, so Go strings are HOL \<open>string\<close>s.
  Case mapping and white space are the ASCII ones.
\<close>

named_theorems go_string \<open>unfolding rules of the string operations\<close>
named_theorems seg_simps \<open>splitting and joining slash separated paths\<close>

text \<open>Checking a property of small numbers by evaluation.\<close>

lemma list_all_uptD: "list_all P [0..<k] \<Longrightarrow> n < k \<Longrightarrow> P n"
  by (auto simp: list_all_iff)

text \<open>The dashes of the sources' messages, in UTF-8.\<close>

definition em_dash :: string where
  "em_dash = [CHR 0xE2, CHR 0x80, CHR 0x94]"

definition en_dash :: string where
  "en_dash = [CHR 0xE2, CHR 0x80, CHR 0x93]"

subsection \<open>Prefixes and suffixes\<close>

definition has_prefix :: "string \<Rightarrow> string \<Rightarrow> bool" where
  "has_prefix s p = prefix p s"

definition has_suffix :: "string \<Rightarrow> string \<Rightarrow> bool" where
  "has_suffix s p = suffix p s"

definition trim_prefix :: "string \<Rightarrow> string \<Rightarrow> string" where
  "trim_prefix s p = (if has_prefix s p then drop (length p) s else s)"

definition trim_suffix :: "string \<Rightarrow> string \<Rightarrow> string" where
  "trim_suffix s p = (if has_suffix s p then take (length s - length p) s else s)"

lemma has_prefix_append [simp]: "has_prefix (p @ s) p"
  by (simp add: has_prefix_def)

lemma has_suffix_append [simp]: "has_suffix (s @ p) p"
  by (auto simp: has_suffix_def suffix_def)

lemma has_prefix_Nil [simp]: "has_prefix s []"
  by (simp add: has_prefix_def)

lemma has_prefix_Cons [simp]: "has_prefix (c # s) (d # p) \<longleftrightarrow> c = d \<and> has_prefix s p"
  by (auto simp: has_prefix_def)

lemma has_prefix_Nil_Cons [simp]: "\<not> has_prefix [] (d # p)"
  by (simp add: has_prefix_def)

lemma has_prefix_same [simp]: "has_prefix (x @ s) (x @ t) \<longleftrightarrow> has_prefix s t"
  by (simp add: has_prefix_def)

lemma has_suffix_appendI: "has_suffix s p \<Longrightarrow> has_suffix (t @ s) p"
  by (simp add: has_suffix_def suffix_appendI)

lemma has_suffix_ConsI: "has_suffix s p \<Longrightarrow> has_suffix (c # s) p"
  by (simp add: has_suffix_def suffix_ConsI)

lemma has_prefixE:
  assumes "has_prefix s p"
  obtains t where "s = p @ t"
  using assms by (auto simp: has_prefix_def elim: prefixE)

lemma has_suffixE:
  assumes "has_suffix s p"
  obtains t where "s = t @ p"
  using assms by (auto simp: has_suffix_def elim: suffixE)

lemma trim_suffix_append [simp]: "trim_suffix (s @ p) p = s"
  by (simp add: trim_suffix_def)

lemma trim_prefix_append [simp]: "trim_prefix (p @ s) p = s"
  by (simp add: trim_prefix_def)

lemma trim_suffix_inverse: "has_suffix s p \<Longrightarrow> trim_suffix s p @ p = s"
  by (auto elim!: has_suffixE)

lemma trim_prefix_inverse: "has_prefix s p \<Longrightarrow> p @ trim_prefix s p = s"
  by (auto elim!: has_prefixE)

lemma has_prefix_trans: "has_prefix s p \<Longrightarrow> has_prefix p q \<Longrightarrow> has_prefix s q"
  by (auto simp: has_prefix_def)

text \<open>Two suffixes of one string: the longer one ends in the shorter one.\<close>

lemma suffix_compare:
  "has_suffix s p \<Longrightarrow> has_suffix s q \<Longrightarrow> length p \<le> length q \<Longrightarrow> has_suffix q p"
  by (metis has_suffix_def suffix_length_suffix)

subsection \<open>Trimming, cutting, splitting\<close>

definition trim_left_of :: "char set \<Rightarrow> string \<Rightarrow> string" where
  "trim_left_of cs s = dropWhile (\<lambda>c. c \<in> cs) s"

definition trim_right_of :: "char set \<Rightarrow> string \<Rightarrow> string" where
  "trim_right_of cs s = rev (dropWhile (\<lambda>c. c \<in> cs) (rev s))"

text \<open>\<open>strings.Trim\<close> with a cutset.\<close>

definition trim_of :: "char set \<Rightarrow> string \<Rightarrow> string" where
  "trim_of cs s = trim_right_of cs (trim_left_of cs s)"

definition white :: "char set" where
  "white = {CHR '' '', CHR 0x09, CHR 0x0A, CHR 0x0B, CHR 0x0C, CHR 0x0D}"

definition trim_space :: "string \<Rightarrow> string" where
  "trim_space s = trim_of white s"

text \<open>\<open>strings.Cut\<close>: the text before and after the first separator, if there is one.\<close>

fun cut :: "string \<Rightarrow> string \<Rightarrow> (string \<times> string) option" where
  "cut sep s =
     (if has_prefix s sep then Some ([], drop (length sep) s)
      else (case s of [] \<Rightarrow> None
            | c # cs \<Rightarrow> map_option (\<lambda>(a, b). (c # a, b)) (cut sep cs)))"

declare cut.simps [simp del]

text \<open>\<open>strings.Contains\<close> and \<open>strings.ContainsAny\<close>.\<close>

fun contains :: "string \<Rightarrow> string \<Rightarrow> bool" where
  "contains [] sub = (sub = [])"
| "contains (c # cs) sub = (has_prefix (c # cs) sub \<or> contains cs sub)"

definition contains_any :: "string \<Rightarrow> string \<Rightarrow> bool" where
  "contains_any s cs = list_ex (\<lambda>c. c \<in> set cs) s"

text \<open>\<open>strings.Split\<close> at a one-byte separator.\<close>

fun split_on :: "char \<Rightarrow> string \<Rightarrow> string list" where
  "split_on d [] = [[]]"
| "split_on d (c # cs) =
     (if c = d then [] # split_on d cs
      else (case split_on d cs of [] \<Rightarrow> [[c]] | w # ws \<Rightarrow> (c # w) # ws))"

text \<open>\<open>strings.Join\<close>.\<close>

fun join_with :: "string \<Rightarrow> string list \<Rightarrow> string" where
  "join_with sep [] = []"
| "join_with sep [w] = w"
| "join_with sep (w # v # ws) = w @ sep @ join_with sep (v # ws)"

text \<open>\<open>strings.ReplaceAll\<close> of a one-byte text.\<close>

definition replace_char :: "char \<Rightarrow> string \<Rightarrow> string \<Rightarrow> string" where
  "replace_char c new s = concat (map (\<lambda>x. if x = c then new else [x]) s)"

text \<open>\<open>strings.ReplaceAll\<close> of a non-empty text: left to right, without overlap.\<close>

function replace_all :: "string \<Rightarrow> string \<Rightarrow> string \<Rightarrow> string" where
  "replace_all old new s =
     (if old = [] then s
      else if has_prefix s old then new @ replace_all old new (drop (length old) s)
      else (case s of [] \<Rightarrow> [] | c # cs \<Rightarrow> c # replace_all old new cs))"
  by pat_completeness auto
termination
  by (relation "measure (\<lambda>(old, new, s). length s)") (auto simp: has_prefix_def prefix_def)

declare replace_all.simps [simp del]

definition upper_char :: "char \<Rightarrow> char" where
  "upper_char c = (if CHR ''a'' \<le> c \<and> c \<le> CHR ''z'' then char_of (of_char c - (32 :: nat)) else c)"

definition lower_char :: "char \<Rightarrow> char" where
  "lower_char c = (if CHR ''A'' \<le> c \<and> c \<le> CHR ''Z'' then char_of (of_char c + (32 :: nat)) else c)"

text \<open>\<open>strings.ToUpper\<close> and \<open>strings.ToLower\<close> on UTF-8: besides the ASCII letters, the long s and
  the dotless i have an ASCII upper case, the Kelvin sign and the dotted capital I an ASCII
  lower case. The other letters map to letters outside of ASCII and are left as they are: what
  the sources do with the result is to compare it with ASCII texts.\<close>

fun to_upper :: "string \<Rightarrow> string" where
  "to_upper [] = []"
| "to_upper (c # s) =
     (if has_prefix (c # s) [CHR 0xC5, CHR 0xBF] then CHR ''S'' # to_upper (drop 1 s)
      else if has_prefix (c # s) [CHR 0xC4, CHR 0xB1] then CHR ''I'' # to_upper (drop 1 s)
      else upper_char c # to_upper s)"

fun to_lower :: "string \<Rightarrow> string" where
  "to_lower [] = []"
| "to_lower (c # s) =
     (if has_prefix (c # s) [CHR 0xE2, CHR 0x84, CHR 0xAA] then CHR ''k'' # to_lower (drop 2 s)
      else if has_prefix (c # s) [CHR 0xC4, CHR 0xB0] then CHR ''i'' # to_lower (drop 1 s)
      else lower_char c # to_lower s)"

lemma trim_space_id:
  assumes "hd s \<notin> white" "last s \<notin> white"
  shows "trim_space s = s"
proof (cases s rule: rev_cases)
  case (snoc ys y)
  have "dropWhile (\<lambda>c. c \<in> white) s = s" using assms(1) by (metis dropWhile_eq_self_iff)
  then show ?thesis using snoc assms(2) by (simp add: trim_space_def trim_of_def trim_left_of_def trim_right_of_def)
qed (simp add: trim_space_def trim_of_def trim_left_of_def trim_right_of_def)

text \<open>A trimmed string starts with no byte of the cutset.\<close>

lemma trim_of_no_prefix: "c \<in> cs \<Longrightarrow> \<not> has_prefix (trim_of cs p) [c]"
proof
  assume c: "c \<in> cs" and "has_prefix (trim_of cs p) [c]"
  then obtain t where t: "trim_of cs p = c # t" by (auto elim: has_prefixE)
  have "rev (dropWhile (\<lambda>c. c \<in> cs) (rev xs)) @ rev (takeWhile (\<lambda>c. c \<in> cs) (rev xs)) = xs" for xs
    by (simp flip: rev_append)
  then obtain u where u: "trim_left_of cs p = trim_of cs p @ u"
    unfolding trim_of_def trim_right_of_def by metis
  then have "dropWhile (\<lambda>c. c \<in> cs) p = c # t @ u" using t by (simp add: trim_left_of_def)
  then show False using c by (simp add: dropWhile_eq_Cons_conv)
qed

lemma cut_Some_append: "cut sep s = Some (a, b) \<Longrightarrow> s = a @ sep @ b"
proof (induction sep s arbitrary: a rule: cut.induct)
  case (1 sep s)
  show ?case
  proof (cases "has_prefix s sep")
    case True
    then show ?thesis using "1.prems" by (auto simp: cut.simps [of sep s] elim!: has_prefixE)
  next
    case False
    with "1.prems" obtain c cs a' where "s = c # cs" "cut sep cs = Some (a', b)" "a = c # a'"
      by (auto simp: cut.simps [of sep s] split: list.splits)
    then show ?thesis using "1.IH" [OF False] by auto
  qed
qed

text \<open>A one-byte separator is found at its first occurrence.\<close>

lemma cut_char_append [simp]: "c \<notin> set a \<Longrightarrow> cut [c] (a @ c # b) = Some (a, b)"
  by (induction a) (simp_all add: cut.simps has_prefix_def)

lemma cut_char_None: "c \<notin> set a \<Longrightarrow> cut [c] a = None"
  by (induction a) (simp_all add: cut.simps has_prefix_def)

lemma split_on_nonempty [simp]: "split_on d s \<noteq> []"
  by (induction s) (auto split: list.splits)

lemma split_on_no_sep: "w \<in> set (split_on d s) \<Longrightarrow> d \<notin> set w"
  by (induction s arbitrary: w) (auto split: list.splits if_splits)

lemma split_on_word [seg_simps]: "d \<notin> set w \<Longrightarrow> split_on d w = [w]"
  by (induction w) (auto split: list.splits)

lemma split_on_append_sep [seg_simps]:
  "split_on d (a @ d # b) = split_on d a @ split_on d b"
  by (induction a) (auto split: list.splits)

lemma join_with_Cons: "ws \<noteq> [] \<Longrightarrow> join_with sep (w # ws) = w @ sep @ join_with sep ws"
  by (cases ws) auto

lemma join_with_append:
  "xs \<noteq> [] \<Longrightarrow> ys \<noteq> [] \<Longrightarrow>
   join_with sep (xs @ ys) = join_with sep xs @ sep @ join_with sep ys"
proof (induction xs)
  case (Cons x xs)
  then show ?case by (cases "xs = []") (simp_all add: join_with_Cons)
qed simp

lemma split_join [seg_simps]:
  "ws \<noteq> [] \<Longrightarrow> \<forall>w \<in> set ws. d \<notin> set w \<Longrightarrow> split_on d (join_with [d] ws) = ws"
  by (induction ws rule: induct_list012) (auto simp: seg_simps)

lemma join_split [simp]: "join_with [d] (split_on d s) = s"
proof (induction s)
  case (Cons c cs)
  then show ?case
    by (cases "split_on d cs"; cases "tl (split_on d cs)") (auto simp: join_with_Cons)
qed simp

lemma contains_char: "contains s [c] \<longleftrightarrow> c \<in> set s"
  by (induction s) (auto simp: has_prefix_def)

lemma contains_iff: "contains s sub \<longleftrightarrow> (\<exists>a b. s = a @ sub @ b)"
proof (induction s)
  case (Cons c cs)
  show ?case
  proof
    assume "contains (c # cs) sub"
    then consider "has_prefix (c # cs) sub" | "contains cs sub" by auto
    then show "\<exists>a b. c # cs = a @ sub @ b"
    proof cases
      case 1
      then show ?thesis by (metis append_Nil has_prefixE)
    next
      case 2
      then show ?thesis using Cons by (metis append_Cons)
    qed
  next
    assume "\<exists>a b. c # cs = a @ sub @ b"
    then obtain a b where ab: "c # cs = a @ sub @ b" by blast
    show "contains (c # cs) sub"
    proof (cases a)
      case Nil
      then have "has_prefix (c # cs) sub" using ab by simp
      then show ?thesis by simp
    next
      case (Cons x xs)
      then have "cs = xs @ sub @ b" using ab by simp
      then show ?thesis using Cons.IH by auto
    qed
  qed
qed simp

subsection \<open>Lists related pointwise\<close>

lemma list_all2_right:
  assumes "list_all2 R xs ys" "y \<in> set ys"
  obtains x where "x \<in> set xs" "R x y"
  using assms by (induction xs ys rule: list_all2_induct) auto

lemma list_all2_left:
  assumes "list_all2 R xs ys" "x \<in> set xs"
  obtains y where "y \<in> set ys" "R x y"
  using assms by (induction xs ys rule: list_all2_induct) auto

subsection \<open>Chunks of a list\<close>

function chunks :: "int \<Rightarrow> 'a list \<Rightarrow> 'a list list" where
  "chunks n xs = (if xs = [] then [] else take (nat (max n 1)) xs # chunks n (drop (nat (max n 1)) xs))"
  by auto
termination by (relation "measure (\<lambda>(n, xs). length xs)") auto

declare chunks.simps [simp del]

lemma chunks_Nil [simp]: "chunks n [] = []"
  by (simp add: chunks.simps)

lemma concat_chunks [simp]: "concat (chunks n xs) = xs"
proof (induction n xs rule: chunks.induct)
  case (1 n xs)
  then show ?case by (cases "xs = []") (simp_all add: chunks.simps [of n xs])
qed

lemma chunk_size: "c \<in> set (chunks n xs) \<Longrightarrow> c \<noteq> [] \<and> int (length c) \<le> max n 1"
proof (induction n xs rule: chunks.induct)
  case (1 n xs)
  show ?case
  proof (cases "xs = []")
    case False
    then have "c = take (nat (max n 1)) xs \<or> c \<in> set (chunks n (drop (nat (max n 1)) xs))"
      using "1.prems" by (simp add: chunks.simps [of n xs])
    then show ?thesis using "1.IH" [OF False] False by auto
  qed (use "1.prems" in simp)
qed

lemma set_chunks: "(\<Union>c \<in> set (chunks n xs). set c) = set xs"
  using set_concat [of "chunks n xs"] by simp

end
