(* ===== verification/GoPath.thy ===== *)
theory GoPath
  imports Prelude
begin

section \<open>Package path: Clean, Join, Dir and Base\<close>

text \<open>
  Slash separated paths as package \<open>path\<close> treats them. \<open>clean_segs\<close> is the segment
  automaton behind \<open>path.Clean\<close>: empty segments and \<open>.\<close> vanish, \<open>..\<close> removes the
  segment before it, and in a relative path a \<open>..\<close> with nothing to remove stays. The
  lemmas say that segments that are not one of these three, the safe ones, pass through
  unchanged, which is what object keys rest on.
\<close>

fun clean_segs :: "bool \<Rightarrow> string list \<Rightarrow> string list \<Rightarrow> string list" where
  "clean_segs r st [] = rev st"
| "clean_segs r st (w # ws) =
     (if w = [] \<or> w = ''.'' then clean_segs r st ws
      else if w = ''..'' then
        (case st of
           [] \<Rightarrow> if r then clean_segs r [] ws else clean_segs r [w] ws
         | t # ts \<Rightarrow> if t = ''..'' then clean_segs r (w # st) ws else clean_segs r ts ws)
      else clean_segs r (w # st) ws)"

definition path_clean :: "string \<Rightarrow> string" where
  "path_clean p =
     (let r = has_prefix p ''/''; out = join_with ''/'' (clean_segs r [] (split_on CHR ''/'' p))
      in if r then CHR ''/'' # out else if out = [] then ''.'' else out)"

text \<open>\<open>path.Join\<close> skips leading empty elements and cleans the rest joined by slashes.\<close>

definition path_join :: "string list \<Rightarrow> string" where
  "path_join elems =
     (case dropWhile (\<lambda>e. e = []) elems of
        [] \<Rightarrow> []
      | e # es \<Rightarrow> path_clean (join_with ''/'' (e # es)))"

definition path_dir :: "string \<Rightarrow> string" where
  "path_dir p = path_clean (rev (dropWhile (\<lambda>c. c \<noteq> CHR ''/'') (rev p)))"

definition path_base :: "string \<Rightarrow> string" where
  "path_base p =
     (if p = [] then ''.''
      else let s = trim_right_of {CHR ''/''} p;
               b = rev (takeWhile (\<lambda>c. c \<noteq> CHR ''/'') (rev s))
           in if b = [] then ''/'' else b)"

definition safe_seg :: "string \<Rightarrow> bool" where
  "safe_seg w \<longleftrightarrow> w \<noteq> [] \<and> w \<noteq> ''.'' \<and> w \<noteq> ''..'' \<and> CHR ''/'' \<notin> set w"

text \<open>A cleaned relative path: some \<open>..\<close> in front, then safe segments.\<close>

definition clean_form :: "string list \<Rightarrow> bool" where
  "clean_form ws \<longleftrightarrow>
     (\<exists>k vs. ws = replicate k ''..'' @ vs \<and> list_all safe_seg vs)"

lemma safe_segD [dest]:
  "safe_seg w \<Longrightarrow> w \<noteq> [] \<and> w \<noteq> ''.'' \<and> w \<noteq> ''..'' \<and> CHR ''/'' \<notin> set w"
  by (simp add: safe_seg_def)

lemma clean_segs_safe:
  "list_all safe_seg ys \<Longrightarrow> clean_segs r st ys = rev st @ ys"
  by (induction ys arbitrary: st) auto

lemma clean_segs_append_safe [seg_simps]:
  "list_all safe_seg ys \<Longrightarrow> clean_segs r st (xs @ ys) = clean_segs r st xs @ ys"
proof (induction r st xs rule: clean_segs.induct)
  case (1 r st)
  then show ?case by (simp add: clean_segs_safe)
next
  case (2 r st w ws)
  then show ?case by (auto split: list.splits)
qed

lemma clean_form_Nil [simp]: "clean_form []"
  by (auto simp: clean_form_def)

lemma clean_form_safe: "list_all safe_seg vs \<Longrightarrow> clean_form vs"
  unfolding clean_form_def by (intro exI [of _ 0] exI [of _ vs]) simp

lemma clean_form_append: "clean_form ws \<Longrightarrow> list_all safe_seg vs \<Longrightarrow> clean_form (ws @ vs)"
  by (auto simp: clean_form_def) (metis append_assoc list_all_append)

lemma clean_form_snocI: "clean_form ws \<Longrightarrow> safe_seg v \<Longrightarrow> clean_form (ws @ [v])"
  by (rule clean_form_append) simp_all

lemma clean_form_butlast: "clean_form (ws @ [v]) \<Longrightarrow> clean_form ws"
proof -
  assume "clean_form (ws @ [v])"
  then obtain k vs where *: "ws @ [v] = replicate k ''..'' @ vs" "list_all safe_seg vs"
    by (auto simp: clean_form_def)
  show ?thesis
  proof (cases vs rule: rev_cases)
    case Nil
    then have "ws @ [v] = replicate k ''..''" using * by simp
    then have "ws = replicate (k - 1) ''..''"
      by (cases k) (auto simp flip: replicate_append_same)
    then show ?thesis unfolding clean_form_def
      by (intro exI [of _ "k - 1"] exI [of _ "[]"]) simp
  next
    case (snoc us u)
    then have "ws = replicate k ''..'' @ us" using * by simp
    then show ?thesis using * snoc by (auto simp: clean_form_def)
  qed
qed

lemma clean_form_snoc_dots: "clean_form (ws @ [''..'']) \<Longrightarrow> clean_form ((ws @ [''..'']) @ [''..''])"
proof -
  assume "clean_form (ws @ [''..''])"
  then obtain k vs where *: "ws @ [''..''] = replicate k ''..'' @ vs" "list_all safe_seg vs"
    by (auto simp: clean_form_def)
  have "vs = []"
  proof (cases vs rule: rev_cases)
    case (snoc us u)
    then show ?thesis using * by auto
  qed simp
  then have "(ws @ [''..'']) @ [''..''] = replicate (Suc k) ''..'' @ []"
    using * by (simp add: replicate_append_same)
  then show ?thesis
    unfolding clean_form_def by (intro exI [of _ "Suc k"] exI [of _ "[]"]) simp
qed

lemma clean_segs_clean_form:
  "\<not> r \<Longrightarrow> clean_form (rev st) \<Longrightarrow> \<forall>w \<in> set ws. CHR ''/'' \<notin> set w
   \<Longrightarrow> clean_form (clean_segs r st ws)"
proof (induction r st ws rule: clean_segs.induct)
  case (1 r st)
  then show ?case by simp
next
  case (2 r st w ws)
  consider "w = [] \<or> w = ''.''" | "w = ''..''" "st = []" | t ts where "w = ''..''" "st = t # ts"
    | "safe_seg w"
    using "2.prems"(3) by (cases st) (auto simp: safe_seg_def)
  then show ?case
  proof cases
    case 1
    then show ?thesis using 2 by simp
  next
    case c2: 2
    have "clean_form [''..'']"
      unfolding clean_form_def by (intro exI [of _ 1] exI [of _ "[]"]) simp
    then show ?thesis using 2 c2 by simp
  next
    case (3 t ts)
    show ?thesis
    proof (cases "t = ''..''")
      case True
      then have "clean_form (rev (w # st))"
        using clean_form_snoc_dots [of "rev ts"] 3 "2.prems" by simp
      then show ?thesis using 2 3 True by simp
    next
      case False
      have "clean_form (rev ts)"
        using clean_form_butlast [of "rev ts" t] 3 "2.prems" by simp
      then show ?thesis using 2 3 False by simp
    qed
  next
    case 4
    then have "clean_form (rev (w # st))"
      using clean_form_snocI "2.prems" by simp
    then show ?thesis using 2 4 by auto
  qed
qed

lemma clean_segs_dots:
  "clean_segs False (replicate i ''..'') (replicate k ''..'' @ ws)
   = clean_segs False (replicate (i + k) ''..'') ws"
proof (induction k arbitrary: i)
  case (Suc k)
  have "clean_segs False (replicate i ''..'') (replicate (Suc k) ''..'' @ ws)
        = clean_segs False (replicate (Suc i) ''..'') (replicate k ''..'' @ ws)"
    by (cases i) simp_all
  then show ?case using Suc [of "Suc i"] by simp
qed simp

lemma clean_segs_id: "clean_form ws \<Longrightarrow> clean_segs False [] ws = ws"
proof -
  assume "clean_form ws"
  then obtain k vs where "ws = replicate k ''..'' @ vs" "list_all safe_seg vs"
    by (auto simp: clean_form_def)
  then show ?thesis using clean_segs_dots [of 0 k vs] by (simp add: clean_segs_safe)
qed

lemma clean_form_no_slash: "clean_form ws \<Longrightarrow> w \<in> set ws \<Longrightarrow> CHR ''/'' \<notin> set w \<and> w \<noteq> []"
  by (auto simp: clean_form_def list_all_iff)

lemma clean_form_no_prefix_slash:
  assumes "clean_form ws" "ws \<noteq> []"
  shows "\<not> has_prefix (join_with ''/'' ws @ s) ''/''"
proof -
  obtain v vs where ws: "ws = v # vs" using assms by (cases ws) auto
  then obtain c cs where "v = c # cs" "c \<noteq> CHR ''/''"
    using clean_form_no_slash [OF assms(1), of v] by (cases v) auto
  then show ?thesis using ws by (cases vs) (auto simp: has_prefix_def)
qed

lemma split_join_clean [seg_simps]:
  "clean_form ws \<Longrightarrow> ws \<noteq> [] \<Longrightarrow> split_on CHR ''/'' (join_with ''/'' ws) = ws"
  by (rule split_join) (auto dest: clean_form_no_slash)

lemma join_nonempty: "clean_form ws \<Longrightarrow> ws \<noteq> [] \<Longrightarrow> join_with ''/'' ws \<noteq> []"
  using clean_form_no_slash by (cases ws; cases "tl ws") auto

text \<open>Cleaning a cleaned path, with or without a slash behind it, changes nothing.\<close>

lemma path_clean_join:
  assumes "clean_form ws" "ws \<noteq> []"
  shows "path_clean (join_with ''/'' ws) = join_with ''/'' ws"
proof -
  have "\<not> has_prefix (join_with ''/'' ws) ''/''"
    using clean_form_no_prefix_slash [OF assms, of "[]"] by simp
  then show ?thesis
    using assms by (simp add: path_clean_def split_join_clean clean_segs_id join_nonempty Let_def)
qed

lemma path_clean_join_slash:
  assumes "clean_form ws" "ws \<noteq> []"
  shows "path_clean (join_with ''/'' ws @ ''/'') = join_with ''/'' ws"
proof -
  have "\<not> has_prefix (join_with ''/'' ws @ ''/'') ''/''"
    using clean_form_no_prefix_slash [OF assms] by simp
  moreover have "clean_segs False [] (ws @ [[]]) = ws"
  proof -
    have "clean_segs r st (xs @ [[]]) = clean_segs r st xs" for r st xs
      by (induction r st xs rule: clean_segs.induct) (auto split: list.splits)
    then show ?thesis using clean_segs_id [OF assms(1)] by simp
  qed
  ultimately show ?thesis
    using assms split_on_append_sep [of "CHR ''/''" "join_with ''/'' ws" "[]"]
    by (simp add: path_clean_def split_join_clean join_nonempty Let_def)
qed

lemma path_dir_join [seg_simps]:
  assumes "clean_form ws" "ws \<noteq> []" "CHR ''/'' \<notin> set v"
  shows "path_dir (join_with ''/'' (ws @ [v])) = join_with ''/'' ws"
proof -
  have "rev (dropWhile (\<lambda>c. c \<noteq> CHR ''/'') (rev (join_with ''/'' (ws @ [v]))))
        = join_with ''/'' ws @ ''/''"
    using assms(2,3) by (simp add: join_with_append dropWhile_append)
  then show ?thesis
    using assms by (simp add: path_dir_def path_clean_join_slash)
qed

lemma path_base_join [seg_simps]:
  assumes "ws \<noteq> []" "safe_seg v"
  shows "path_base (join_with ''/'' (ws @ [v])) = v"
proof -
  obtain us c where v: "v = us @ [c]" "c \<noteq> CHR ''/''"
    using assms(2) by (cases v rule: rev_cases) (auto simp: safe_seg_def)
  have "trim_right_of {CHR ''/''} (join_with ''/'' (ws @ [v])) = join_with ''/'' (ws @ [v])"
    using assms(1) v by (simp add: trim_right_of_def join_with_append)
  moreover have "takeWhile (\<lambda>c. c \<noteq> CHR ''/'') (rev (join_with ''/'' (ws @ [v]))) = rev v"
    using assms by (simp add: join_with_append takeWhile_append)
      (metis (mono_tags, lifting) safe_segD set_rev takeWhile_eq_all_conv)
  ultimately show ?thesis
    using assms by (auto simp: path_base_def join_with_append Let_def)
qed

text \<open>
  Joining a relative prefix with safe segments: the segments follow the cleaned prefix.
\<close>

definition rel_segs :: "string \<Rightarrow> string list" where
  "rel_segs p = clean_segs False [] (split_on CHR ''/'' p)"

lemma rel_segs_clean_form [simp]: "clean_form (rel_segs p)"
  unfolding rel_segs_def by (rule clean_segs_clean_form) (auto dest: split_on_no_sep)

lemma rel_segs_Nil [simp]: "rel_segs [] = []"
  by (simp add: rel_segs_def)

lemma path_join_rel:
  assumes "\<not> has_prefix p ''/''" "p \<noteq> []" "list_all safe_seg vs" "vs \<noteq> []"
  shows "path_join (p # vs) = join_with ''/'' (rel_segs p @ vs)"
proof -
  have eq: "join_with ''/'' (p # vs) = p @ CHR ''/'' # join_with ''/'' vs"
    using assms(4) by (simp add: join_with_Cons)
  have nosl: "\<not> has_prefix (join_with ''/'' (p # vs)) ''/''"
    using assms(1,2) unfolding eq by (cases p) (auto simp: has_prefix_def)
  have "clean_segs False [] (split_on CHR ''/'' (join_with ''/'' (p # vs))) = rel_segs p @ vs"
    using assms(3,4) split_join_clean [OF clean_form_safe [OF assms(3)] assms(4)]
    by (simp add: eq split_on_append_sep rel_segs_def clean_segs_append_safe)
  moreover have "join_with ''/'' (rel_segs p @ vs) \<noteq> []"
    using assms by (intro join_nonempty clean_form_append) auto
  ultimately show ?thesis
    using nosl assms(2) by (simp add: path_join_def path_clean_def Let_def)
qed

lemma path_join_safe:
  assumes "list_all safe_seg vs" "vs \<noteq> []"
  shows "path_join vs = join_with ''/'' vs"
proof -
  obtain w ws where "vs = w # ws" "w \<noteq> []" using assms by (cases vs) auto
  then show ?thesis
    using path_clean_join [OF clean_form_safe [OF assms(1)] assms(2)] by (simp add: path_join_def)
qed

text \<open>A string that starts with a joined list and a slash splits into that list and more.\<close>

lemma split_scope:
  assumes "has_prefix k (join_with ''/'' ws @ ''/'')" "\<forall>w \<in> set ws. CHR ''/'' \<notin> set w" "ws \<noteq> []"
  shows "\<exists>rest. split_on CHR ''/'' k = ws @ rest"
proof -
  obtain t where "k = join_with ''/'' ws @ CHR ''/'' # t"
    using assms(1) by (auto elim: has_prefixE)
  then show ?thesis using assms(2,3) by (auto simp: seg_simps)
qed

end
