(* ===== verification/GoCalendar.thy ===== *)
theory GoCalendar
  imports Prelude
begin

section \<open>Package time: decimal numerals and the calendar\<close>

text \<open>
  Decimal numerals as \<open>strconv\<close>, \<open>fmt\<close> and \<open>time\<close> write and read them, and the proleptic
  Gregorian calendar with the cycle arithmetic of package \<open>time\<close>: days are counted from
  0001-01-01. \<open>civil_days\<close> and \<open>civil_of_days\<close> are inverse to one another.
\<close>

subsection \<open>Decimal numerals\<close>

definition digit_char :: "nat \<Rightarrow> char" where
  "digit_char d = char_of (48 + d)"

fun dec_digits :: "nat \<Rightarrow> string" where
  "dec_digits n = (if n < 10 then [digit_char n] else dec_digits (n div 10) @ [digit_char (n mod 10)])"

declare dec_digits.simps [simp del]

text \<open>\<open>strconv.Itoa\<close> and the \<open>%d\<close> verb.\<close>

definition itoa :: "int \<Rightarrow> string" where
  "itoa i = (if i < 0 then CHR ''-'' # dec_digits (nat (- i)) else dec_digits (nat i))"

text \<open>Zero-padded decimals, as \<open>time.Format\<close> and the verbs \<open>%02d\<close>, \<open>%04d\<close> write them.\<close>

definition pad_nat :: "nat \<Rightarrow> nat \<Rightarrow> string" where
  "pad_nat w n = replicate (w - length (dec_digits n)) CHR ''0'' @ dec_digits n"

definition pad_int :: "nat \<Rightarrow> int \<Rightarrow> string" where
  "pad_int w i = (if i < 0 then CHR ''-'' # pad_nat w (nat (- i)) else pad_nat w (nat i))"

definition is_digit :: "char \<Rightarrow> bool" where
  "is_digit c \<longleftrightarrow> 48 \<le> (of_char c :: nat) \<and> (of_char c :: nat) \<le> 57"

definition digit_val :: "char \<Rightarrow> nat" where
  "digit_val c = of_char c - 48"

fun digits_val :: "nat \<Rightarrow> string \<Rightarrow> nat" where
  "digits_val acc [] = acc"
| "digits_val acc (c # cs) = digits_val (10 * acc + digit_val c) cs"

text \<open>The first \<open>w\<close> bytes as a decimal number: every one of them has to be a digit.\<close>

definition take_num :: "nat \<Rightarrow> string \<Rightarrow> (nat \<times> string) option" where
  "take_num w s =
     (if w \<le> length s \<and> list_all is_digit (take w s)
      then Some (digits_val 0 (take w s), drop w s) else None)"

lemma is_digit_digit_char [simp]: "d < 10 \<Longrightarrow> is_digit (digit_char d)"
  by (simp add: is_digit_def digit_char_def)

lemma digit_val_digit_char [simp]: "d < 10 \<Longrightarrow> digit_val (digit_char d) = d"
  by (simp add: digit_val_def digit_char_def)

lemma is_digit_zero [simp]: "is_digit CHR ''0''"
  by (simp add: is_digit_def)

lemma digit_val_zero [simp]: "digit_val CHR ''0'' = 0"
  by (simp add: digit_val_def)

lemma digits_val_append: "digits_val a (xs @ ys) = digits_val (digits_val a xs) ys"
  by (induction xs arbitrary: a) auto

lemma dec_digits_digits [simp]: "list_all is_digit (dec_digits n)"
proof (induction n rule: dec_digits.induct)
  case (1 n)
  then show ?case by (cases "n < 10") (simp_all add: dec_digits.simps [of n])
qed

lemma digits_val_dec_digits [simp]: "digits_val 0 (dec_digits n) = n"
proof (induction n rule: dec_digits.induct)
  case (1 n)
  then show ?case by (cases "n < 10") (simp_all add: dec_digits.simps [of n] digits_val_append)
qed

lemma digits_val_zeros [simp]: "digits_val 0 (replicate k CHR ''0'' @ s) = digits_val 0 s"
  by (induction k) auto

lemma length_dec_digits: "0 < w \<Longrightarrow> n < 10 ^ w \<Longrightarrow> length (dec_digits n) \<le> w"
proof (induction n arbitrary: w rule: dec_digits.induct)
  case (1 n w)
  show ?case
  proof (cases "n < 10")
    case True
    then show ?thesis using "1.prems" by (simp add: dec_digits.simps [of n])
  next
    case False
    then obtain v where w: "w = Suc v" "0 < v"
      using "1.prems" by (cases w; cases "w - 1") auto
    have "n div 10 < 10 ^ v" using "1.prems" w by (simp add: less_mult_imp_div_less)
    then have "length (dec_digits (n div 10)) \<le> v" using "1.IH" [OF False] w by simp
    then show ?thesis using False w by (simp add: dec_digits.simps [of n])
  qed
qed

lemma length_pad_nat: "0 < w \<Longrightarrow> n < 10 ^ w \<Longrightarrow> length (pad_nat w n) = w"
  using length_dec_digits [of w n] by (simp add: pad_nat_def)

lemma pad_nat_digits [simp]: "list_all is_digit (pad_nat w n)"
  by (simp add: pad_nat_def list_all_append) (simp add: list_all_iff)

lemma take_num_pad [simp]:
  "0 < w \<Longrightarrow> n < 10 ^ w \<Longrightarrow> take_num w (pad_nat w n @ s) = Some (n, s)"
  using length_pad_nat [of w n] by (simp add: take_num_def) (simp add: pad_nat_def)

lemma pad_nat_inject: "pad_nat w m = pad_nat w n \<Longrightarrow> m = n"
  by (metis digits_val_dec_digits digits_val_zeros pad_nat_def)

lemma digit_not_in_pad: "\<not> is_digit c \<Longrightarrow> c \<notin> set (pad_nat w n)"
  using pad_nat_digits [of w n] unfolding list_all_iff by blast

subsection \<open>The calendar\<close>

definition is_leap :: "int \<Rightarrow> bool" where
  "is_leap y \<longleftrightarrow> y mod 4 = 0 \<and> (y mod 100 \<noteq> 0 \<or> y mod 400 = 0)"

text \<open>Days from 0001-01-01 to January 1 of year \<open>y\<close>.\<close>

definition days_before_year :: "int \<Rightarrow> int" where
  "days_before_year y = 365 * (y - 1) + (y - 1) div 4 - (y - 1) div 100 + (y - 1) div 400"

text \<open>
  The year of a day, by 400, 100, 4 and 1 year cycles; the last cycle of a 100 and of a
  1 year step is one longer, hence the \<open>min 3\<close>.
\<close>

definition year_of_days :: "int \<Rightarrow> int" where
  "year_of_days d =
     (let n400 = d div 146097; d400 = d mod 146097;
          n100 = min 3 (d400 div 36524); d100 = d400 - 36524 * n100;
          n4 = d100 div 1461; d4 = d100 mod 1461;
          n1 = min 3 (d4 div 365)
      in 400 * n400 + 100 * n100 + 4 * n4 + n1 + 1)"

definition yday_of_days :: "int \<Rightarrow> int" where
  "yday_of_days d = d - days_before_year (year_of_days d)"

text \<open>Days from January 1 to the first day of a month.\<close>

definition days_before_month :: "bool \<Rightarrow> int \<Rightarrow> int" where
  "days_before_month leap m =
     (let k = (if leap then 1 else 0) in
      if m \<le> 1 then 0 else if m = 2 then 31 else if m = 3 then 59 + k else if m = 4 then 90 + k
      else if m = 5 then 120 + k else if m = 6 then 151 + k else if m = 7 then 181 + k
      else if m = 8 then 212 + k else if m = 9 then 243 + k else if m = 10 then 273 + k
      else if m = 11 then 304 + k else if m = 12 then 334 + k else 365 + k)"

definition days_in_month :: "int \<Rightarrow> int \<Rightarrow> int" where
  "days_in_month y m = days_before_month (is_leap y) (m + 1) - days_before_month (is_leap y) m"

definition month_of_yday :: "bool \<Rightarrow> int \<Rightarrow> int" where
  "month_of_yday leap yd =
     (let b = days_before_month leap in
      if yd < b 2 then 1 else if yd < b 3 then 2 else if yd < b 4 then 3 else if yd < b 5 then 4
      else if yd < b 6 then 5 else if yd < b 7 then 6 else if yd < b 8 then 7 else if yd < b 9 then 8
      else if yd < b 10 then 9 else if yd < b 11 then 10 else if yd < b 12 then 11 else 12)"

definition civil_of_days :: "int \<Rightarrow> int \<times> int \<times> int" where
  "civil_of_days d =
     (let y = year_of_days d; yd = yday_of_days d; m = month_of_yday (is_leap y) yd
      in (y, m, yd - days_before_month (is_leap y) m + 1))"

definition civil_days :: "int \<Rightarrow> int \<Rightarrow> int \<Rightarrow> int" where
  "civil_days y m d = days_before_year y + days_before_month (is_leap y) m + (d - 1)"

definition valid_date :: "int \<Rightarrow> int \<Rightarrow> int \<Rightarrow> bool" where
  "valid_date y m d \<longleftrightarrow> 1 \<le> m \<and> m \<le> 12 \<and> 1 \<le> d \<and> d \<le> days_in_month y m"

lemma div_incr:
  assumes "0 < (n :: int)"
  shows "(x + 1) div n = x div n + (if (x + 1) mod n = 0 then 1 else 0)"
proof -
  define q where "q = x div n"
  define r where "r = x mod n"
  have x: "x = n * q + r" "0 \<le> r" "r < n" using assms by (simp_all add: q_def r_def)
  show ?thesis
  proof (cases "r + 1 = n")
    case True
    then have "x + 1 = n * (q + 1)" using x by (simp add: algebra_simps)
    then show ?thesis using assms by (simp add: q_def [symmetric])
  next
    case False
    then have b: "x + 1 = n * q + (r + 1)" "0 \<le> r + 1" "r + 1 < n" using x by auto
    have "(x + 1) div n = q" "(x + 1) mod n = r + 1"
      using int_div_pos_eq [OF b] int_mod_pos_eq [OF b] by simp_all
    then show ?thesis using x(2) by (simp add: q_def)
  qed
qed

lemma div_pred:
  "0 < (n :: int) \<Longrightarrow> y div n = (y - 1) div n + (if y mod n = 0 then 1 else 0)"
  using div_incr [of n "y - 1"] by (simp only: diff_add_cancel)

lemma mod_cycle:
  assumes "1 \<le> (r :: int)" "r \<le> n"
  shows "(n * a + r) mod n = 0 \<longleftrightarrow> r = n"
proof (cases "r = n")
  case False
  then have "(n * a + r) mod n = r"
    using assms by (intro int_mod_pos_eq [of _ _ a]) auto
  then show ?thesis using assms False by simp
qed simp

lemma leap_multiples:
  "(y :: int) mod 400 = 0 \<Longrightarrow> y mod 100 = 0" "(y :: int) mod 100 = 0 \<Longrightarrow> y mod 4 = 0"
proof -
  assume "y mod 400 = 0"
  then have "y = 100 * (4 * (y div 400))" by (simp add: minus_mod_eq_mult_div [symmetric])
  then show "y mod 100 = 0" by (metis mod_mult_self1_is_0)
next
  assume "y mod 100 = 0"
  then have "y = 4 * (25 * (y div 100))" by (simp add: minus_mod_eq_mult_div [symmetric])
  then show "y mod 4 = 0" by (metis mod_mult_self1_is_0)
qed

lemma year_length:
  "days_before_year (y + 1) = days_before_year y + (if is_leap y then 366 else 365)"
proof -
  define a where "a = (y - 1) div 4"
  define b where "b = (y - 1) div 100"
  define c where "c = (y - 1) div 400"
  have "y div 4 = a + (if y mod 4 = 0 then 1 else 0)"
    "y div 100 = b + (if y mod 100 = 0 then 1 else 0)"
    "y div 400 = c + (if y mod 400 = 0 then 1 else 0)"
    unfolding a_def b_def c_def by (rule div_pred; rule zero_less_numeral)+
  then have "days_before_year (y + 1) = 365 * y + (a + (if y mod 4 = 0 then 1 else 0))
      - (b + (if y mod 100 = 0 then 1 else 0)) + (c + (if y mod 400 = 0 then 1 else 0))"
    by (simp add: days_before_year_def)
  moreover have "days_before_year y = 365 * (y - 1) + a - b + c"
    by (simp add: days_before_year_def a_def b_def c_def)
  moreover define p4 p100 p400
    where "p4 \<longleftrightarrow> y mod 4 = 0" and "p100 \<longleftrightarrow> y mod 100 = 0" and "p400 \<longleftrightarrow> y mod 400 = 0"
  moreover have "p400 \<longrightarrow> p100" "p100 \<longrightarrow> p4"
    unfolding p4_def p100_def p400_def by (rule impI, erule leap_multiples)+
  ultimately show ?thesis
    unfolding is_leap_def p4_def [symmetric] p100_def [symmetric] p400_def [symmetric]
    by (cases p4; cases p100; cases p400) simp_all
qed

lemma days_before_year_mono:
  assumes "y \<le> z"
  shows "days_before_year y + 365 * (z - y) \<le> days_before_year z"
proof -
  have "days_before_year y + 365 * int k \<le> days_before_year (y + int k)" for k
  proof (induction k)
    case (Suc k)
    have "days_before_year (y + int k) + 365 \<le> days_before_year (y + int k + 1)"
      by (simp add: year_length)
    then show ?case using Suc by (simp add: algebra_simps)
  qed simp
  from this [of "nat (z - y)"] show ?thesis using assms by simp
qed

lemma days_before_year_cycles:
  assumes "0 \<le> c" "c \<le> 3" "0 \<le> q" "q \<le> 24" "0 \<le> k" "k \<le> 3"
  shows "days_before_year (400 * n + 100 * c + 4 * q + k + 1) = 146097 * n + 36524 * c + 1461 * q + 365 * k"
proof -
  have "(400 * n + 100 * c + 4 * q + k) div 4 = 100 * n + 25 * c + q"
    using assms by (intro int_div_pos_eq [where r = k]) auto
  moreover have "(400 * n + 100 * c + 4 * q + k) div 100 = 4 * n + c"
    using assms by (intro int_div_pos_eq [where r = "4 * q + k"]) auto
  moreover have "(400 * n + 100 * c + 4 * q + k) div 400 = n"
    using assms by (intro int_div_pos_eq [where r = "100 * c + 4 * q + k"]) auto
  ultimately show ?thesis unfolding days_before_year_def by simp
qed

lemma leap_cycles:
  assumes "0 \<le> c" "c \<le> 3" "0 \<le> q" "q \<le> 24" "0 \<le> k" "k \<le> 3"
  shows "is_leap (400 * n + 100 * c + 4 * q + k + 1) \<longleftrightarrow> k = 3 \<and> (q \<noteq> 24 \<or> c = 3)"
proof -
  let ?y = "400 * n + 100 * c + 4 * q + k + 1"
  have "?y mod 4 = 0 \<longleftrightarrow> k = 3"
    using mod_cycle [of "k + 1" 4 "100 * n + 25 * c + q"] assms by (simp add: algebra_simps)
  moreover have "?y mod 100 = 0 \<longleftrightarrow> 4 * q + k = 99"
    using mod_cycle [of "4 * q + k + 1" 100 "4 * n + c"] assms by (simp add: algebra_simps)
  moreover have "?y mod 400 = 0 \<longleftrightarrow> 100 * c + 4 * q + k = 399"
    using mod_cycle [of "100 * c + 4 * q + k + 1" 400 n] assms by (simp add: algebra_simps)
  ultimately show ?thesis using assms unfolding is_leap_def by auto
qed

lemma century_split:
  assumes "0 \<le> (r :: int)" "r \<le> 146096" "c = min 3 (r div 36524)" "r2 = r - 36524 * c"
  shows "0 \<le> c \<and> c \<le> 3 \<and> 0 \<le> r2 \<and> r2 \<le> 36524 \<and> (r2 = 36524 \<longrightarrow> c = 3)"
proof -
  define k where "k = r div 36524"
  define m where "m = r mod 36524"
  have "r = 36524 * k + m" "0 \<le> m" "m < 36524" by (simp_all add: k_def m_def)
  moreover have "0 \<le> k" using assms(1) by (simp add: k_def pos_imp_zdiv_nonneg_iff)
  ultimately show ?thesis using assms unfolding k_def [symmetric] by (cases "k \<le> 3") auto
qed

lemma year_split:
  assumes "0 \<le> (r :: int)" "r \<le> 1460" "k = min 3 (r div 365)"
  shows "0 \<le> k \<and> k \<le> 3 \<and> 365 * k \<le> r \<and> r \<le> 365 * k + 365 \<and> (r = 365 * k + 365 \<longrightarrow> k = 3)"
proof -
  define j where "j = r div 365"
  define m where "m = r mod 365"
  have "r = 365 * j + m" "0 \<le> m" "m < 365" by (simp_all add: j_def m_def)
  moreover have "0 \<le> j" using assms(1) by (simp add: j_def pos_imp_zdiv_nonneg_iff)
  ultimately show ?thesis using assms unfolding j_def [symmetric] by (cases "j \<le> 3") auto
qed

lemma year_of_days_bounds:
  "days_before_year (year_of_days d) \<le> d \<and> d < days_before_year (year_of_days d + 1)"
proof -
  define n where "n = d div 146097"
  define r where "r = d mod 146097"
  define c where "c = min 3 (r div 36524)"
  define r2 where "r2 = r - 36524 * c"
  define q where "q = r2 div 1461"
  define r3 where "r3 = r2 mod 1461"
  define k where "k = min 3 (r3 div 365)"
  have r: "0 \<le> r" "r \<le> 146096" "d = 146097 * n + r"
    using pos_mod_bound [of 146097 d] by (simp_all add: n_def r_def)
  have c: "0 \<le> c" "c \<le> 3" "0 \<le> r2" "r2 \<le> 36524" "r2 = 36524 \<longrightarrow> c = 3"
    using century_split [OF r(1,2) c_def r2_def] by auto
  have r3: "0 \<le> r3" "r3 \<le> 1460" "r2 = 1461 * q + r3"
    using pos_mod_bound [of 1461 r2] by (simp_all add: q_def r3_def)
  have q: "0 \<le> q" "q \<le> 24" using c r3 by auto
  have k: "0 \<le> k" "k \<le> 3" "365 * k \<le> r3" "r3 \<le> 365 * k + 365" "r3 = 365 * k + 365 \<longrightarrow> k = 3"
    using year_split [OF r3(1,2) k_def] by auto
  have y: "year_of_days d = 400 * n + 100 * c + 4 * q + k + 1"
    unfolding year_of_days_def Let_def n_def r_def c_def r2_def q_def r3_def k_def ..
  have d: "d = 146097 * n + 36524 * c + 1461 * q + r3"
    using r(3) r3(3) unfolding r2_def by simp
  have first: "days_before_year (year_of_days d) = 146097 * n + 36524 * c + 1461 * q + 365 * k"
    unfolding y using c q k by (intro days_before_year_cycles)
  have leap: "is_leap (year_of_days d) \<longleftrightarrow> k = 3 \<and> (q \<noteq> 24 \<or> c = 3)"
    unfolding y using c q k by (intro leap_cycles)
  have "is_leap (year_of_days d)" if "r3 = 365 * k + 365"
    using that leap k c r3 by auto
  note leapI = this
  define Y where "Y = days_before_year (year_of_days d)"
  have Y: "Y = 146097 * n + 36524 * c + 1461 * q + 365 * k" using first by (simp add: Y_def)
  have "d < Y + (if is_leap (year_of_days d) then 366 else 365)"
  proof (cases "r3 = 365 * k + 365")
    case True
    then show ?thesis using leapI Y d by simp
  next
    case False
    then have "d < Y + 365" using k(4) Y d by linarith
    then show ?thesis by simp
  qed
  moreover have "Y \<le> d" using k(3) Y d by linarith
  ultimately show ?thesis unfolding year_length Y_def by blast
qed

lemma year_of_days_unique:
  assumes "days_before_year y \<le> d" "d < days_before_year (y + 1)"
  shows "year_of_days d = y"
proof (rule ccontr)
  assume "year_of_days d \<noteq> y"
  then consider "year_of_days d + 1 \<le> y" | "y + 1 \<le> year_of_days d" by linarith
  then show False
  proof cases
    case 1
    from days_before_year_mono [OF 1] year_of_days_bounds [of d] assms 1 show False by simp
  next
    case 2
    from days_before_year_mono [OF 2] year_of_days_bounds [of d] assms 2 show False by simp
  qed
qed

lemma yday_bounds:
  "0 \<le> yday_of_days d \<and> yday_of_days d < (if is_leap (year_of_days d) then 366 else 365)"
  using year_of_days_bounds [of d] by (simp add: yday_of_days_def year_length)

lemma month_of_yday_bounds:
  assumes "0 \<le> yd" "yd < (if leap then 366 else 365)"
  shows "1 \<le> month_of_yday leap yd \<and> month_of_yday leap yd \<le> 12
    \<and> days_before_month leap (month_of_yday leap yd) \<le> yd
    \<and> yd < days_before_month leap (month_of_yday leap yd + 1)"
  using assms unfolding month_of_yday_def Let_def
  by (auto simp: days_before_month_def Let_def split: if_splits)

lemma month_of_yday_unique:
  assumes "1 \<le> m" "m \<le> 12" "days_before_month leap m \<le> yd" "yd < days_before_month leap (m + 1)"
  shows "month_of_yday leap yd = m"
proof -
  have "m = 1 \<or> m = 2 \<or> m = 3 \<or> m = 4 \<or> m = 5 \<or> m = 6 \<or> m = 7 \<or> m = 8 \<or> m = 9 \<or> m = 10
    \<or> m = 11 \<or> m = 12" using assms(1,2) by presburger
  then show ?thesis
    using assms(3,4)
    by (cases leap; elim disjE) (simp_all add: month_of_yday_def days_before_month_def Let_def)
qed

lemma civil_of_days_valid:
  assumes "civil_of_days d = (y, m, dd)"
  shows "valid_date y m dd \<and> civil_days y m dd = d"
proof -
  have "y = year_of_days d" using assms by (simp add: civil_of_days_def Let_def)
  then show ?thesis
    using assms month_of_yday_bounds [of "yday_of_days d" "is_leap y"] yday_bounds [of d]
    by (auto simp: civil_of_days_def Let_def valid_date_def days_in_month_def civil_days_def
        yday_of_days_def)
qed

lemma days_before_month_mono:
  "1 \<le> m \<Longrightarrow> m \<le> 12 \<Longrightarrow> days_before_month l (m + 1) \<le> (if l then 366 else 365) \<and> 0 \<le> days_before_month l m"
  by (auto simp: days_before_month_def Let_def)

lemma civil_of_civil_days:
  assumes "valid_date y m d"
  shows "civil_of_days (civil_days y m d) = (y, m, d)"
proof -
  define yd where "yd = days_before_month (is_leap y) m + (d - 1)"
  have m: "1 \<le> m" "m \<le> 12" "days_before_month (is_leap y) m \<le> yd"
    "yd < days_before_month (is_leap y) (m + 1)"
    using assms unfolding valid_date_def days_in_month_def yd_def by auto
  have "0 \<le> yd" "yd < (if is_leap y then 366 else 365)"
    using days_before_month_mono [OF m(1,2), of "is_leap y"] m by auto
  then have year: "year_of_days (civil_days y m d) = y"
    by (intro year_of_days_unique) (auto simp: civil_days_def yd_def year_length)
  then have "yday_of_days (civil_days y m d) = yd"
    by (simp add: yday_of_days_def civil_days_def yd_def)
  then show ?thesis
    using month_of_yday_unique [OF m] year by (simp add: civil_of_days_def Let_def) (simp add: yd_def)
qed

end
