(* ===== verification/GoTime.thy ===== *)
theory GoTime
  imports GoCalendar "HOL-Library.Monad_Syntax"
begin

section \<open>Package time: instants, formatting and parsing\<close>

text \<open>
  A \<open>time.Time\<close> is its instant: the nanoseconds since 0001-01-01T00:00:00Z, the zero
  \<open>time.Time\<close>, as an integer. The sources read every time in UTC, so the location is
  left out. Modelled are the layouts the sources use, for writing and for reading, with
  the leniencies of \<open>time.Parse\<close>; writing and then reading keeps an instant up to its
  fraction of a second.
\<close>

type_synonym gotime = int

definition second :: int where "second = 1000000000"

definition zero_time :: gotime where "zero_time = 0"

subsection \<open>Clock fields and formatting\<close>

definition days_of :: "gotime \<Rightarrow> int" where
  "days_of t = t div (86400 * second)"

definition secs_of_day :: "gotime \<Rightarrow> int" where
  "secs_of_day t = (t div second) mod 86400"

definition time_of_civil :: "int \<Rightarrow> int \<Rightarrow> int \<Rightarrow> int \<Rightarrow> int \<Rightarrow> int \<Rightarrow> int \<Rightarrow> gotime" where
  "time_of_civil y m d hh mi ss ns =
     (civil_days y m d * 86400 + hh * 3600 + mi * 60 + ss) * second + ns"

definition year_of :: "gotime \<Rightarrow> int" where
  "year_of t = year_of_days (days_of t)"

text \<open>\<open>Truncate(time.Second)\<close>: what a layout without fractions keeps of an instant.\<close>

definition trunc_second :: "gotime \<Rightarrow> gotime" where
  "trunc_second t = t div second * second"

definition clock_digits :: "string \<Rightarrow> gotime \<Rightarrow> string" where
  "clock_digits sep t =
     (let s = secs_of_day t
      in pad_int 2 (s div 3600) @ sep @ pad_int 2 (s mod 3600 div 60) @ sep @ pad_int 2 (s mod 60))"

definition date_digits :: "string \<Rightarrow> gotime \<Rightarrow> string" where
  "date_digits sep t =
     (case civil_of_days (days_of t) of
        (y, m, d) \<Rightarrow> pad_int 4 y @ sep @ pad_int 2 m @ sep @ pad_int 2 d)"

text \<open>The layouts of the sources: \<open>2006\<close>, \<open>01\<close>, \<open>2006-01\<close>, \<open>2006-01-02\<close>,
  \<open>20060102T150405Z\<close> and \<open>time.RFC3339\<close> (of a UTC time).\<close>

definition format_year :: "gotime \<Rightarrow> string" where
  "format_year t = pad_int 4 (year_of t)"

definition format_month :: "gotime \<Rightarrow> string" where
  "format_month t = pad_int 2 (fst (snd (civil_of_days (days_of t))))"

definition format_year_month :: "gotime \<Rightarrow> string" where
  "format_year_month t = format_year t @ ''-'' @ format_month t"

definition format_date :: "gotime \<Rightarrow> string" where
  "format_date t = date_digits ''-'' t"

definition format_compact :: "gotime \<Rightarrow> string" where
  "format_compact t = date_digits [] t @ ''T'' @ clock_digits [] t @ ''Z''"

definition format_rfc3339 :: "gotime \<Rightarrow> string" where
  "format_rfc3339 t = date_digits ''-'' t @ ''T'' @ clock_digits '':'' t @ ''Z''"

text \<open>\<open>Time.ISOWeek\<close>: the year and the number of the week of this day's Thursday
  (0001-01-01 is a Monday).\<close>

definition iso_week :: "gotime \<Rightarrow> int \<times> int" where
  "iso_week t =
     (let d = days_of t; thursday = d - d mod 7 + 3
      in (year_of_days thursday, yday_of_days thursday div 7 + 1))"

subsection \<open>Parsing\<close>

definition lit :: "char \<Rightarrow> string \<Rightarrow> string option" where
  "lit c s = (case s of [] \<Rightarrow> None | x # xs \<Rightarrow> if x = c then Some xs else None)"

text \<open>An hour of a layout may have one digit where no second one follows.\<close>

definition take_hour :: "string \<Rightarrow> (nat \<times> string) option" where
  "take_hour s = (case take_num 2 s of Some r \<Rightarrow> Some r | None \<Rightarrow> take_num 1 s)"

text \<open>A fraction of a second is accepted behind the seconds even where the layout has none.\<close>

definition take_fraction :: "string \<Rightarrow> int \<times> string" where
  "take_fraction s =
     (case s of
        p # q # r \<Rightarrow>
          if (p = CHR ''.'' \<or> p = CHR '','') \<and> is_digit q
          then let ds = takeWhile is_digit (q # r); ds9 = take 9 ds
               in (int (digits_val 0 ds9) * 10 ^ (9 - length ds9), dropWhile is_digit (q # r))
          else (0, s)
      | _ \<Rightarrow> (0, s))"

definition take_zone :: "string \<Rightarrow> (int \<times> string) option" where
  "take_zone s =
     (case s of
        [] \<Rightarrow> None
      | c # cs \<Rightarrow>
          if c = CHR ''Z'' then Some (0, cs)
          else if length s < 6 \<or> s ! 3 \<noteq> CHR '':'' then None
          else do {
            (hr, _) \<leftarrow> take_num 2 (take 2 cs);
            (mm, _) \<leftarrow> take_num 2 (take 2 (drop 3 cs));
            let off = (int hr * 60 + int mm) * 60;
            if hr > 24 \<or> mm > 60 then None
            else if c = CHR ''+'' then Some (off, drop 6 s)
            else if c = CHR ''-'' then Some (- off, drop 6 s)
            else None })"

definition make_time :: "nat \<Rightarrow> nat \<Rightarrow> nat \<Rightarrow> nat \<Rightarrow> nat \<Rightarrow> nat \<Rightarrow> int \<Rightarrow> gotime option" where
  "make_time y m d hh mi ss ns =
     (if valid_date (int y) (int m) (int d) \<and> hh < 24 \<and> mi < 60 \<and> ss < 60
      then Some (time_of_civil (int y) (int m) (int d) (int hh) (int mi) (int ss) ns) else None)"

definition parse_compact :: "string \<Rightarrow> gotime option" where
  "parse_compact s0 = do {
     (y, s1) \<leftarrow> take_num 4 s0;
     (m, s2) \<leftarrow> take_num 2 s1;
     (d, s3) \<leftarrow> take_num 2 s2;
     s4 \<leftarrow> lit CHR ''T'' s3;
     (hh, s5) \<leftarrow> take_hour s4;
     (mi, s6) \<leftarrow> take_num 2 s5;
     (ss, s7) \<leftarrow> take_num 2 s6;
     let (ns, s8) = take_fraction s7;
     s9 \<leftarrow> lit CHR ''Z'' s8;
     if s9 = [] then make_time y m d hh mi ss ns else None }"

definition parse_rfc3339 :: "string \<Rightarrow> gotime option" where
  "parse_rfc3339 s0 = do {
     (y, s1) \<leftarrow> take_num 4 s0;
     s2 \<leftarrow> lit CHR ''-'' s1;
     (m, s3) \<leftarrow> take_num 2 s2;
     s4 \<leftarrow> lit CHR ''-'' s3;
     (d, s5) \<leftarrow> take_num 2 s4;
     s6 \<leftarrow> lit CHR ''T'' s5;
     (hh, s7) \<leftarrow> take_hour s6;
     s8 \<leftarrow> lit CHR '':'' s7;
     (mi, s9) \<leftarrow> take_num 2 s8;
     s10 \<leftarrow> lit CHR '':'' s9;
     (ss, s11) \<leftarrow> take_num 2 s10;
     let (ns, s12) = take_fraction s11;
     (off, s13) \<leftarrow> take_zone s12;
     t \<leftarrow> make_time y m d hh mi ss ns;
     if s13 = [] then Some (t - off * second) else None }"

subsection \<open>Formatting and parsing are inverse up to the second\<close>

lemma secs_of_day_bounds [simp]: "0 \<le> secs_of_day t" "secs_of_day t < 86400"
  by (simp_all add: secs_of_day_def)

lemma time_of_civil_fields:
  assumes "civil_of_days (days_of t) = (y, m, d)" "s = secs_of_day t"
  shows "time_of_civil y m d (s div 3600) (s mod 3600 div 60) (s mod 60) 0 = trunc_second t"
proof -
  have "days_of t = t div second div 86400"
    by (simp add: days_of_def second_def zdiv_zmult2_eq)
  then have "civil_days y m d * 86400 + s = t div second"
    using civil_of_days_valid [OF assms(1)] assms(2)
    by (simp add: secs_of_day_def)
  moreover have "s div 3600 * 3600 + s mod 3600 div 60 * 60 + s mod 60 = s"
  proof -
    have "s mod 3600 mod 60 = s mod 60" by (rule mod_mod_cancel) simp
    then have "s mod 3600 div 60 * 60 + s mod 60 = s mod 3600"
      using div_mult_mod_eq [of "s mod 3600" 60] by (simp only:)
    then show ?thesis using div_mult_mod_eq [of s 3600] by (simp only: add.assoc)
  qed
  ultimately show ?thesis by (simp add: time_of_civil_def trunc_second_def add.assoc)
qed

lemma take_num_2 [simp]: "0 \<le> i \<Longrightarrow> i < 100 \<Longrightarrow> take_num 2 (pad_int 2 i @ s) = Some (nat i, s)"
  by (simp add: pad_int_def)

lemma take_num_4 [simp]: "0 \<le> i \<Longrightarrow> i \<le> 9999 \<Longrightarrow> take_num 4 (pad_int 4 i @ s) = Some (nat i, s)"
  by (simp add: pad_int_def)

lemma take_hour_2 [simp]: "0 \<le> i \<Longrightarrow> i < 100 \<Longrightarrow> take_hour (pad_int 2 i @ s) = Some (nat i, s)"
  by (simp add: take_hour_def)

lemma take_fraction_Z [simp]: "take_fraction (CHR ''Z'' # s) = (0, CHR ''Z'' # s)"
  by (simp add: take_fraction_def split: list.split)

lemma lit_Cons [simp]: "lit c (c # s) = Some s"
  by (simp add: lit_def)

lemma take_zone_Z [simp]: "take_zone (CHR ''Z'' # s) = Some (0, s)"
  by (simp add: take_zone_def)

lemma date_in_range:
  assumes "civil_of_days (days_of t) = (y, m, d)"
  shows "y = year_of t" "1 \<le> m" "m \<le> 12" "1 \<le> d" "d \<le> 31"
proof -
  have v: "valid_date y m d" using civil_of_days_valid [OF assms] by simp
  then show "1 \<le> m" "m \<le> 12" "1 \<le> d" by (simp_all add: valid_date_def)
  have "days_in_month y m \<le> 31"
    unfolding days_in_month_def using \<open>1 \<le> m\<close> \<open>m \<le> 12\<close> by (auto simp: days_before_month_def Let_def)
  then show "d \<le> 31" using v by (simp add: valid_date_def)
  show "y = year_of t" using assms by (simp add: civil_of_days_def year_of_def Let_def)
qed

lemma clock_in_range:
  assumes "s = secs_of_day t"
  shows "0 \<le> s div 3600" "s div 3600 < 24" "0 \<le> s mod 3600 div 60" "s mod 3600 div 60 < 60"
    "0 \<le> s mod 60" "s mod 60 < 60"
proof -
  have b: "0 \<le> s" "s < 86400" using assms by simp_all
  show "0 \<le> s div 3600" using b by (simp add: pos_imp_zdiv_nonneg_iff)
  have "s div 3600 * 3600 \<le> s" using b by (simp add: div_mult_mod_eq [symmetric])
  then show "s div 3600 < 24" using b by linarith
  have m: "0 \<le> s mod 3600" "s mod 3600 < 3600" by simp_all
  then show "0 \<le> s mod 3600 div 60" by (simp add: pos_imp_zdiv_nonneg_iff)
  show "s mod 3600 div 60 < 60" using m by (simp add: div_less_iff_less_mult)
qed simp_all

lemma make_time_fields:
  assumes "civil_of_days (days_of t) = (y, m, d)" "s = secs_of_day t" "0 \<le> y"
  shows "make_time (nat y) (nat m) (nat d) (nat (s div 3600)) (nat (s mod 3600 div 60))
           (nat (s mod 60)) 0 = Some (trunc_second t)"
proof -
  note r = date_in_range [OF assms(1)] clock_in_range [OF assms(2)]
  define hh where "hh = s div 3600"
  define mi where "mi = s mod 3600 div 60"
  define ss where "ss = s mod 60"
  have "0 \<le> hh" "hh < 24" "0 \<le> mi" "mi < 60" "0 \<le> ss" "ss < 60"
    using r unfolding hh_def mi_def ss_def by blast+
  moreover have "time_of_civil y m d hh mi ss 0 = trunc_second t"
    unfolding hh_def mi_def ss_def by (rule time_of_civil_fields [OF assms(1,2)])
  ultimately have "make_time (nat y) (nat m) (nat d) (nat hh) (nat mi) (nat ss) 0 = Some (trunc_second t)"
    using r(1-5) assms(3) civil_of_days_valid [OF assms(1)]
    by (simp add: make_time_def nat_less_iff)
  then show ?thesis unfolding hh_def mi_def ss_def .
qed

text \<open>The fields of an instant, with their ranges and what they are written as and make up.\<close>

lemma time_fieldsE:
  obtains y m d hh mi ss where
    "civil_of_days (days_of t) = (y, m, d)"
    "\<And>sep. date_digits sep t = pad_int 4 y @ sep @ pad_int 2 m @ sep @ pad_int 2 d"
    "\<And>sep. clock_digits sep t = pad_int 2 hh @ sep @ pad_int 2 mi @ sep @ pad_int 2 ss"
    "y = year_of t" "0 \<le> m" "m < 100" "0 \<le> d" "d < 100"
    "0 \<le> hh" "hh < 100" "0 \<le> mi" "mi < 100" "0 \<le> ss" "ss < 100"
    "0 \<le> y \<Longrightarrow> make_time (nat y) (nat m) (nat d) (nat hh) (nat mi) (nat ss) 0 = Some (trunc_second t)"
proof -
  obtain y m d where c: "civil_of_days (days_of t) = (y, m, d)" by (cases "civil_of_days (days_of t)")
  define s where "s = secs_of_day t"
  note r = date_in_range [OF c] clock_in_range [OF s_def]
  have dates: "\<And>sep. date_digits sep t = pad_int 4 y @ sep @ pad_int 2 m @ sep @ pad_int 2 d"
    by (simp add: date_digits_def c)
  have clocks: "\<And>sep. clock_digits sep t
      = pad_int 2 (s div 3600) @ sep @ pad_int 2 (s mod 3600 div 60) @ sep @ pad_int 2 (s mod 60)"
    by (simp only: clock_digits_def Let_def s_def)
  show ?thesis
  proof (rule that [OF c dates clocks r(1)])
    show "0 \<le> y \<Longrightarrow> make_time (nat y) (nat m) (nat d) (nat (s div 3600)) (nat (s mod 3600 div 60))
        (nat (s mod 60)) 0 = Some (trunc_second t)"
      by (rule make_time_fields [OF c s_def])
  qed (use r in linarith)+
qed

lemma parse_compact_format:
  assumes "0 \<le> year_of t" "year_of t \<le> 9999"
  shows "parse_compact (format_compact t) = Some (trunc_second t)"
  using assms
  by (cases t rule: time_fieldsE) (simp add: parse_compact_def format_compact_def)

lemma parse_rfc3339_format:
  assumes "0 \<le> year_of t" "year_of t \<le> 9999"
  shows "parse_rfc3339 (format_rfc3339 t) = Some (trunc_second t)"
  using assms
  by (cases t rule: time_fieldsE) (simp add: parse_rfc3339_def format_rfc3339_def)

text \<open>The characters of formatted times: digits and the letters of the layout.\<close>

lemma not_in_pad_int: "0 \<le> i \<Longrightarrow> \<not> is_digit c \<Longrightarrow> c \<notin> set (pad_int w i)"
  by (simp add: pad_int_def digit_not_in_pad)

lemma length_pad_int: "0 \<le> i \<Longrightarrow> i < 10 ^ w \<Longrightarrow> 0 < w \<Longrightarrow> length (pad_int w i) = w"
  using length_pad_nat [of w "nat i"] by (simp add: pad_int_def nat_less_iff)

lemma not_in_compact:
  assumes "0 \<le> year_of t" "\<not> is_digit c" "c \<noteq> CHR ''T''" "c \<noteq> CHR ''Z''"
  shows "c \<notin> set (format_compact t)"
  using assms
  by (cases t rule: time_fieldsE) (simp add: format_compact_def not_in_pad_int)

lemma format_year_chars: "0 \<le> year_of t \<Longrightarrow> \<not> is_digit c \<Longrightarrow> c \<notin> set (format_year t)"
  by (simp add: format_year_def not_in_pad_int)

lemma format_month_chars: "\<not> is_digit c \<Longrightarrow> c \<notin> set (format_month t)"
  by (cases t rule: time_fieldsE) (simp add: format_month_def not_in_pad_int)

lemma format_month_length: "length (format_month t) = 2"
  by (cases t rule: time_fieldsE) (simp add: format_month_def length_pad_int)

text \<open>Equal date texts are equal days.\<close>

lemma format_date_inject:
  assumes "0 \<le> year_of t" "year_of t \<le> 9999" "0 \<le> year_of u" "year_of u \<le> 9999"
  shows "format_date t = format_date u \<longleftrightarrow> days_of t = days_of u"
proof
  assume eq: "format_date t = format_date u"
  obtain y m d where t: "civil_of_days (days_of t) = (y, m, d)" by (cases "civil_of_days (days_of t)")
  obtain y' m' d' where u: "civil_of_days (days_of u) = (y', m', d')" by (cases "civil_of_days (days_of u)")
  note r = date_in_range [OF t] date_in_range [OF u]
  have "pad_int 4 y = pad_int 4 y' \<and> pad_int 2 m = pad_int 2 m' \<and> pad_int 2 d = pad_int 2 d'"
    using eq t u r assms by (simp add: format_date_def date_digits_def length_pad_int)
  then have "nat y = nat y'" "nat m = nat m'" "nat d = nat d'"
    using r assms by (auto simp: pad_int_def dest: pad_nat_inject)
  then have "y = y' \<and> m = m' \<and> d = d'" using r assms by linarith
  then show "days_of t = days_of u"
    using civil_of_days_valid [OF t] civil_of_days_valid [OF u] by auto
qed (simp add: format_date_def date_digits_def)

end
