(* ===== verification/Errors.thy ===== *)
theory Errors
  imports GoTime
begin

section \<open>Errors: values, wrapping and the pipeline's classification\<close>

text \<open>
  A Go \<open>error\<close> as the sources build them: \<open>Errorf\<close> is \<open>fmt.Errorf\<close> with its format text, its
  operands for \<open>%s\<close>, \<open>%q\<close>, \<open>%d\<close>, \<open>%v\<close> and, where the format has \<open>%w\<close>, the error it wraps;
  \<open>Classified\<close> is \<open>*pipeline.Error\<close>; \<open>Foreign\<close> is an error of a library or of the system, of
  which the sources know the text. This is the file \<open>pipeline/errors.go\<close>.
\<close>

datatype kind = KindUnknown | KindConnect | KindDump | KindUpload | KindCanceled

datatype goerr =
    Errorf string "string list" "goerr option"
  | Classified kind goerr
  | Foreign string

definition kind_string :: "kind \<Rightarrow> string" where
  "kind_string k =
     (case k of KindConnect \<Rightarrow> ''connect'' | KindDump \<Rightarrow> ''dump'' | KindUpload \<Rightarrow> ''upload''
      | KindCanceled \<Rightarrow> ''canceled'' | KindUnknown \<Rightarrow> ''unknown'')"

subsection \<open>Texts\<close>

definition lower_hex :: "nat \<Rightarrow> char" where
  "lower_hex n = (if n < 10 then char_of (48 + n) else char_of (87 + n))"

text \<open>The \<open>%q\<close> verb on a string; bytes from 128 on are taken for printable text.\<close>

definition quote_char :: "char \<Rightarrow> string" where
  "quote_char c =
     (if c = CHR 0x22 then [CHR 0x5C, CHR 0x22]
      else if c = CHR 0x5C then [CHR 0x5C, CHR 0x5C]
      else if c = CHR 0x07 then CHR 0x5C # ''a''
      else if c = CHR 0x08 then CHR 0x5C # ''b''
      else if c = CHR 0x0C then CHR 0x5C # ''f''
      else if c = CHR 0x0A then CHR 0x5C # ''n''
      else if c = CHR 0x0D then CHR 0x5C # ''r''
      else if c = CHR 0x09 then CHR 0x5C # ''t''
      else if c = CHR 0x0B then CHR 0x5C # ''v''
      else if (of_char c :: nat) < 32 \<or> c = CHR 0x7F
      then CHR 0x5C # CHR ''x'' # [lower_hex (of_char c div 16), lower_hex (of_char c mod 16)]
      else [c])"

definition go_quote :: "string \<Rightarrow> string" where
  "go_quote s = CHR 0x22 # concat (map quote_char s) @ [CHR 0x22]"

fun render :: "string \<Rightarrow> string list \<Rightarrow> string \<Rightarrow> string" where
  "render [] args w = []"
| "render [c] args w = [c]"
| "render (c # d # r) args w =
     (if c \<noteq> CHR ''%'' then c # render (d # r) args w
      else if d = CHR ''%'' then CHR ''%'' # render r args w
      else if d = CHR ''w'' then w @ render r args w
      else (case args of
              [] \<Rightarrow> render r [] w
            | a # as \<Rightarrow> (if d = CHR ''q'' then go_quote a else a) @ render r as w))"

text \<open>The method \<open>Error()\<close>.\<close>

fun error_text :: "goerr \<Rightarrow> string" where
  "error_text (Errorf f args None) = render f args []"
| "error_text (Errorf f args (Some e)) = render f args (error_text e)"
| "error_text (Classified k e) = error_text e"
| "error_text (Foreign s) = s"

subsection \<open>Classification\<close>

text \<open>\<open>errors.As\<close> for \<open>*pipeline.Error\<close>: the first classified error on the chain.\<close>

fun as_pipeline_error :: "goerr \<Rightarrow> (kind \<times> goerr) option" where
  "as_pipeline_error (Errorf f args None) = None"
| "as_pipeline_error (Errorf f args (Some e)) = as_pipeline_error e"
| "as_pipeline_error (Classified k e) = Some (k, e)"
| "as_pipeline_error (Foreign s) = None"

definition classify :: "kind \<Rightarrow> string \<Rightarrow> string list \<Rightarrow> goerr option \<Rightarrow> goerr" where
  "classify k f args w =
     (let err = Errorf f args w in
      case as_pipeline_error err of
        Some (k', e) \<Rightarrow> Classified k' e
      | None \<Rightarrow> Classified k err)"

definition kind_of :: "goerr \<Rightarrow> kind" where
  "kind_of err = (case as_pipeline_error err of Some (k, _) \<Rightarrow> k | None \<Rightarrow> KindUnknown)"

text \<open>\<open>errors.Is\<close> for a sentinel error the chain may hold.\<close>

fun is_sentinel :: "goerr \<Rightarrow> goerr \<Rightarrow> bool" where
  "is_sentinel s (Errorf f args None) = (Errorf f args None = s)"
| "is_sentinel s (Errorf f args (Some e)) = (Errorf f args (Some e) = s \<or> is_sentinel s e)"
| "is_sentinel s (Classified k e) = (Classified k e = s \<or> is_sentinel s e)"
| "is_sentinel s (Foreign t) = (Foreign t = s)"

lemma kind_of_classify_None [simp]: "kind_of (classify k f args None) = k"
  by (simp add: kind_of_def classify_def)

lemma kind_of_Classified [simp]: "kind_of (Classified k e) = k"
  by (simp add: kind_of_def)

lemma kind_of_Foreign [simp]: "kind_of (Foreign s) = KindUnknown"
  by (simp add: kind_of_def)

lemma kind_of_classify_Some:
  "kind_of (classify k f args (Some e)) =
     (case as_pipeline_error e of None \<Rightarrow> k | Some (k', _) \<Rightarrow> k')"
  by (simp add: kind_of_def classify_def split: option.split)

lemma classify_classified: "\<exists>k' e. classify k f args w = Classified k' e"
  by (simp add: classify_def Let_def split: option.split prod.split)

text \<open>The classification closest to the cause wins: classifying an error that already
  carries a kind anywhere on its chain changes neither its kind nor its text, however often
  it is done; an error without a kind gets the one asked for and the text of the format.\<close>

theorem classify_most_specific:
  "kind_of (classify k f args (Some e)) = (if as_pipeline_error e = None then k else kind_of e)
   \<and> classify k' f' args' (Some (classify k f args (Some e))) = classify k f args (Some e)
   \<and> error_text (classify k f args (Some e)) =
       (case as_pipeline_error e of
          Some (_, cause) \<Rightarrow> error_text cause
        | None \<Rightarrow> render f args (error_text e))"
  by (auto simp: kind_of_def classify_def split: option.splits)

end
