(* ===== verification/ObjectKey.thy ===== *)
theory ObjectKey
  imports GoPath GoUrl Errors
begin

section \<open>Object keys: destinations, segments and the key schema\<close>

text \<open>
  The file \<open>pipeline/objectkey.go\<close>, with \<open>BackupScope\<close> and the scope derivation of
  \<open>pipeline/list.go\<close>: the destination URL, the percent-encoding that makes a database name a
  key segment, the versioned object key and the prefix that holds one database's backups.
  The lemmas show that the encoding is reversible and always a safe segment, so that the
  key splits into exactly the segments it was built from; scope isolation rests on that.
\<close>

record dest =
  d_bucket :: string
  d_prefix :: string

definition parse_dest :: "string \<Rightarrow> goerr + dest" where
  "parse_dest s =
     (case url_parse s of
        None \<Rightarrow> Inl (Errorf ''pipeline: parse --dest: invalid URL'' [] None)
      | Some u \<Rightarrow>
          if url_scheme u \<noteq> ''s3''
          then Inl (Errorf ''pipeline: --dest must be an s3:// URL, got %q'' [url_scheme u] None)
          else if url_host u = []
          then Inl (Errorf ''pipeline: --dest is missing a bucket (s3://BUCKET/prefix)'' [] None)
          else Inr \<lparr>d_bucket = url_host u, d_prefix = trim_of {CHR ''/''} (url_path u)\<rparr>)"

definition encode_byte :: "char \<Rightarrow> string" where
  "encode_byte c =
     (if c = CHR ''/'' \<or> c = CHR 0x5C \<or> c = CHR '' '' \<or> c = CHR ''%'' \<or> is_ctl c
      then percent c else [c])"

definition sanitize_key_segment :: "string \<Rightarrow> string" where
  "sanitize_key_segment s =
     (if s = ''.'' \<or> s = ''..'' then replace_char CHR ''.'' ''%2E'' s
      else if s = [] then ''%''
      else concat (map encode_byte s))"

definition ciphertext_suffix :: string where
  "ciphertext_suffix = ''.dump.zst.age''"

definition manifest_suffix :: string where
  "manifest_suffix = ''.manifest.json''"

definition object_key :: "dest \<Rightarrow> string \<Rightarrow> string \<Rightarrow> string \<Rightarrow> gotime \<Rightarrow> string \<Rightarrow> string" where
  "object_key d engine cluster database t backup_id =
     path_join ((if d_prefix d \<noteq> [] then [d_prefix d] else []) @
       [engine, cluster, sanitize_key_segment database, format_year t, format_month t,
        backup_id @ ciphertext_suffix])"

text \<open>The ULID generator is a library; it is the argument \<open>ulid\<close>.\<close>

definition new_backup_id :: "(gotime \<Rightarrow> goerr + string) \<Rightarrow> gotime \<Rightarrow> goerr + string" where
  "new_backup_id ulid t =
     (case ulid t of
        Inl e \<Rightarrow> Inl (Errorf ''pipeline: generate backup id: %w'' [] (Some e))
      | Inr u \<Rightarrow> Inr (format_compact t @ ''-'' @ u))"

text \<open>\<open>BackupScope\<close>, and the prefix \<open>backupScope\<close> derives from a configuration.\<close>

definition backup_scope_of_key :: "string \<Rightarrow> string" where
  "backup_scope_of_key key = path_dir (path_dir (path_dir key)) @ ''/''"

definition scope_prefix :: "dest \<Rightarrow> string \<Rightarrow> string \<Rightarrow> string \<Rightarrow> string" where
  "scope_prefix d engine cluster database =
     path_join ((if d_prefix d \<noteq> [] then [d_prefix d] else []) @
       [engine, cluster, sanitize_key_segment database]) @ ''/''"

subsection \<open>The encoding is reversible and safe\<close>

fun pct_decode :: "string \<Rightarrow> string" where
  "pct_decode [] = []"
| "pct_decode (c # cs) =
     (if c = CHR ''%''
      then (case cs of h # l # r \<Rightarrow> char_of (unhex h * 16 + unhex l) # pct_decode r | _ \<Rightarrow> c # pct_decode cs)
      else c # pct_decode cs)"

definition unsanitize :: "string \<Rightarrow> string" where
  "unsanitize w = (if w = ''%'' then [] else pct_decode w)"

lemma unhex_upper_hex [simp]: "n < 16 \<Longrightarrow> unhex (upper_hex n) = n"
  by (simp add: unhex_def upper_hex_def is_digit_def less_eq_char_def)

lemma pct_decode_percent [simp]: "pct_decode (percent c @ s) = c # pct_decode s"
proof -
  have "(of_char c :: nat) div 16 < 16"
    using nat_of_char_less_256 [of c] by (simp add: less_mult_imp_div_less)
  then show ?thesis by (simp add: percent_def)
qed

lemma pct_decode_encode_byte [simp]: "pct_decode (encode_byte c @ s) = c # pct_decode s"
  by (simp add: encode_byte_def)

lemma pct_decode_encode: "pct_decode (concat (map encode_byte s)) = s"
  by (induction s) simp_all

lemma encode_byte_not_percent: "concat (map encode_byte s) \<noteq> ''%''"
proof (cases s)
  case (Cons c cs)
  then show ?thesis by (simp add: encode_byte_def percent_def)
qed simp

lemma unsanitize_sanitize [simp]: "unsanitize (sanitize_key_segment s) = s"
proof -
  consider "s = ''.''" | "s = ''..''" | "s = []" | "s \<noteq> ''.''" "s \<noteq> ''..''" "s \<noteq> []" by blast
  then show ?thesis
  proof cases
    case 1
    have "unsanitize (sanitize_key_segment ''.'') = ''.''" by code_simp
    with 1 show ?thesis by simp
  next
    case 2
    have "unsanitize (sanitize_key_segment ''..'') = ''..''" by code_simp
    with 2 show ?thesis by simp
  next
    case 3
    then show ?thesis by (simp add: sanitize_key_segment_def unsanitize_def)
  next
    case 4
    then show ?thesis
      using encode_byte_not_percent [of s]
      by (simp add: sanitize_key_segment_def unsanitize_def pct_decode_encode)
  qed
qed

lemma sanitize_inject: "sanitize_key_segment a = sanitize_key_segment b \<longleftrightarrow> a = b"
  by (metis unsanitize_sanitize)

lemma upper_hex_not_slash: "n < 16 \<Longrightarrow> upper_hex n \<noteq> CHR ''/''"
proof
  assume "n < 16" "upper_hex n = CHR ''/''"
  then have "(of_char (upper_hex n) :: nat) = 47" by simp
  then show False using \<open>n < 16\<close> by (simp add: upper_hex_def split: if_splits)
qed

lemma encode_byte_no_slash: "CHR ''/'' \<notin> set (encode_byte c)"
proof -
  have "(of_char c :: nat) div 16 < 16"
    using nat_of_char_less_256 [of c] by (simp add: less_mult_imp_div_less)
  then have "upper_hex (of_char c div 16) \<noteq> CHR ''/''" by (rule upper_hex_not_slash)
  moreover have "upper_hex (of_char c mod 16) \<noteq> CHR ''/''" by (rule upper_hex_not_slash) simp
  ultimately show ?thesis by (auto simp: encode_byte_def percent_def)
qed

lemma sanitize_safe [simp]: "safe_seg (sanitize_key_segment s)"
proof -
  consider "s = ''.''" | "s = ''..''" | "s = []" | "s \<noteq> ''.''" "s \<noteq> ''..''" "s \<noteq> []" by blast
  then show ?thesis
  proof cases
    case 4
    then have eq: "sanitize_key_segment s = concat (map encode_byte s)"
      by (simp add: sanitize_key_segment_def)
    have "pct_decode [] \<noteq> s" "pct_decode ''.'' \<noteq> s" "pct_decode ''..'' \<noteq> s" using 4 by auto
    then have "concat (map encode_byte s) \<noteq> []" "concat (map encode_byte s) \<noteq> ''.''"
      "concat (map encode_byte s) \<noteq> ''..''"
      by (metis pct_decode_encode)+
    then show ?thesis using encode_byte_no_slash by (auto simp: eq safe_seg_def)
  qed (simp_all add: sanitize_key_segment_def safe_seg_def replace_char_def)
qed

subsection \<open>The segments of a key\<close>

definition relative_prefix :: "dest \<Rightarrow> bool" where
  "relative_prefix d \<longleftrightarrow> \<not> has_prefix (d_prefix d) ''/''"

definition prefix_segs :: "dest \<Rightarrow> string list" where
  "prefix_segs d = rel_segs (d_prefix d)"

lemma parse_dest_relative: "parse_dest s = Inr d \<Longrightarrow> relative_prefix d \<and> d_bucket d \<noteq> []"
  using trim_of_no_prefix [of "CHR ''/''" "{CHR ''/''}"]
  by (auto simp: parse_dest_def relative_prefix_def split: option.splits if_splits)

lemma dest_join:
  assumes "relative_prefix d" "list_all safe_seg vs" "vs \<noteq> []"
  shows "path_join ((if d_prefix d \<noteq> [] then [d_prefix d] else []) @ vs)
         = join_with ''/'' (prefix_segs d @ vs)"
  using assms path_join_rel [of "d_prefix d" vs] path_join_safe [of vs]
  by (simp add: relative_prefix_def prefix_segs_def)

lemma digits_safe:
  assumes "w \<noteq> []" "\<And>c. c \<in> set w \<Longrightarrow> is_digit c \<or> c = CHR ''-''"
  shows "safe_seg w"
proof -
  have "\<not> is_digit CHR ''/''" "\<not> is_digit CHR ''.''" by (simp_all add: is_digit_def)
  then have "CHR ''/'' \<notin> set w" "CHR ''.'' \<notin> set w" using assms(2) by fastforce+
  then show ?thesis using assms(1) by (auto simp: safe_seg_def)
qed

lemma dec_digits_nonempty [simp]: "dec_digits n \<noteq> []"
  by (simp add: dec_digits.simps [of n])

lemma pad_int_safe [simp]: "safe_seg (pad_int w i)"
proof (rule digits_safe)
  show "pad_int w i \<noteq> []" by (simp add: pad_int_def pad_nat_def)
  show "is_digit c \<or> c = CHR ''-''" if "c \<in> set (pad_int w i)" for c
    using that digit_not_in_pad by (auto simp: pad_int_def split: if_splits)
qed

lemma format_year_safe [simp]: "safe_seg (format_year t)"
  by (simp add: format_year_def)

lemma format_month_safe [simp]: "safe_seg (format_month t)"
  by (simp add: format_month_def)

lemma file_safe [simp]: "CHR ''/'' \<notin> set w \<Longrightarrow> safe_seg (w @ ciphertext_suffix)"
  by (cases w) (auto simp: safe_seg_def ciphertext_suffix_def)

lemma object_key_segs:
  assumes "relative_prefix d" "safe_seg e" "safe_seg c" "CHR ''/'' \<notin> set i"
  shows "object_key d e c db t i =
    join_with ''/'' (prefix_segs d @ [e, c, sanitize_key_segment db, format_year t, format_month t,
      i @ ciphertext_suffix])"
  using assms dest_join [OF assms(1)] by (simp add: object_key_def)

lemma scope_prefix_segs:
  assumes "relative_prefix d" "safe_seg e" "safe_seg c"
  shows "scope_prefix d e c db =
    join_with ''/'' (prefix_segs d @ [e, c, sanitize_key_segment db]) @ ''/''"
  using assms dest_join [OF assms(1)] by (simp add: scope_prefix_def)

lemma prefix_segs_clean [simp]: "clean_form (prefix_segs d)"
  by (simp add: prefix_segs_def)

text \<open>The encoding of a database name as a key segment loses nothing and never yields a
  segment that path joining would drop or that would open another level: it is decodable,
  so that two names never share a segment, and its value is not empty, not a dot segment
  and has no slash, whatever the name is.\<close>

theorem sanitize_roundtrip_safe:
  "unsanitize (sanitize_key_segment s) = s \<and> safe_seg (sanitize_key_segment s)
   \<and> (sanitize_key_segment s = sanitize_key_segment s') = (s = s')"
  by (simp add: sanitize_inject)

lemma object_key_in_scope:
  assumes "relative_prefix d" "safe_seg e" "safe_seg c" "CHR ''/'' \<notin> set i"
  shows "has_prefix (object_key d e c db t i) (scope_prefix d e c db)"
  using join_with_append [of "prefix_segs d @ [e, c, sanitize_key_segment db]"
      "[format_year t, format_month t, i @ ciphertext_suffix]" "''/''"]
  by (simp add: object_key_segs [OF assms] scope_prefix_segs [OF assms(1-3)])

text \<open>A backup's object key lies in the scope that retention derives for its database, ends
  in the ciphertext suffix with a backup id in between, and \<open>BackupScope\<close> recovers exactly
  that scope from the key.\<close>

theorem object_key_scope_roundtrip:
  assumes "parse_dest s = Inr d" "safe_seg engine" "safe_seg cluster" "CHR ''/'' \<notin> set backup_id"
  shows "backup_scope_of_key (object_key d engine cluster db t backup_id)
           = scope_prefix d engine cluster db
    \<and> has_prefix (object_key d engine cluster db t backup_id) (scope_prefix d engine cluster db)
    \<and> has_suffix (object_key d engine cluster db t backup_id) (backup_id @ ciphertext_suffix)"
proof -
  have rel: "relative_prefix d" using parse_dest_relative [OF assms(1)] by simp
  let ?s = "prefix_segs d @ [engine, cluster, sanitize_key_segment db]"
  have c1: "clean_form ?s" using assms(2,3) by (intro clean_form_append) auto
  have c2: "clean_form (?s @ [format_year t])" using c1 by (rule clean_form_snocI) simp
  have c3: "clean_form ((?s @ [format_year t]) @ [format_month t])"
    using c2 by (rule clean_form_snocI) simp
  have key: "object_key d engine cluster db t backup_id
      = join_with ''/'' (((?s @ [format_year t]) @ [format_month t]) @ [backup_id @ ciphertext_suffix])"
    using object_key_segs [OF rel assms(2-4)] by simp
  have "path_dir (object_key d engine cluster db t backup_id)
      = join_with ''/'' ((?s @ [format_year t]) @ [format_month t])"
    unfolding key using assms(4) by (intro path_dir_join [OF c3]) (auto simp: ciphertext_suffix_def)
  moreover have "path_dir (join_with ''/'' ((?s @ [format_year t]) @ [format_month t]))
      = join_with ''/'' (?s @ [format_year t])"
    by (intro path_dir_join [OF c2]) (use safe_segD [OF format_month_safe] in auto)
  moreover have "path_dir (join_with ''/'' (?s @ [format_year t])) = join_with ''/'' ?s"
    by (intro path_dir_join [OF c1]) (use safe_segD [OF format_year_safe] in auto)
  ultimately have "backup_scope_of_key (object_key d engine cluster db t backup_id)
      = scope_prefix d engine cluster db"
    by (simp add: backup_scope_of_key_def scope_prefix_segs [OF rel assms(2,3)])
  moreover have "has_suffix (object_key d engine cluster db t backup_id) (backup_id @ ciphertext_suffix)"
    unfolding key
    by (subst join_with_append) (simp_all, rule has_suffix_appendI, rule has_suffix_ConsI,
        simp add: has_suffix_def)
  ultimately show ?thesis using object_key_in_scope [OF rel assms(2-4)] by simp
qed

theorem object_key_scope_roundtrip_witness:
  "backup_scope_of_key (object_key \<lparr>d_bucket = ''b'', d_prefix = ''team''\<rparr> ''postgres'' ''host'' ''..'' 0 ''id'')
     = ''team/postgres/host/%2E%2E/''"
proof -
  let ?d = "\<lparr>d_bucket = ''b'', d_prefix = ''team''\<rparr>"
  have "parse_dest ''s3://b/team/'' = Inr ?d" by code_simp
  moreover have "safe_seg ''postgres''" "safe_seg ''host''" by (simp_all add: safe_seg_def)
  moreover have "scope_prefix ?d ''postgres'' ''host'' ''..'' = ''team/postgres/host/%2E%2E/''"
    by code_simp
  ultimately show ?thesis
    using object_key_scope_roundtrip [of "''s3://b/team/''" ?d "''postgres''" "''host''" "''id''" "''..''" 0]
    by simp
qed

lemma scope_segs:
  assumes "relative_prefix d" "safe_seg e" "safe_seg c" "has_prefix key (scope_prefix d e c db)"
  shows "\<exists>r. split_on CHR ''/'' key = (prefix_segs d @ [e, c, sanitize_key_segment db]) @ r"
proof -
  have "CHR ''/'' \<notin> set w" if "w \<in> set (prefix_segs d @ [e, c, sanitize_key_segment db])" for w
    using that assms(2,3) clean_form_no_slash [OF prefix_segs_clean] safe_segD [OF sanitize_safe] by auto
  then show ?thesis
    using split_scope [of key "prefix_segs d @ [e, c, sanitize_key_segment db]"] assms
      scope_prefix_segs by (metis append_is_Nil_conv list.discI)
qed

text \<open>C37: scopes isolate databases: under one destination a key that lies in the scopes of two
  databases belongs to one engine, one cluster label and one database, so a retention pass
  over one database never sees an object of another, also for names made of dots, slashes,
  percent signs or nothing at all.\<close>

theorem scope_isolation:
  assumes "relative_prefix d" "safe_seg e" "safe_seg c" "safe_seg e'" "safe_seg c'"
    and "has_prefix key (scope_prefix d e c db)" "has_prefix key (scope_prefix d e' c' db')"
  shows "e = e' \<and> c = c' \<and> db = db'"
proof -
  obtain r where r: "split_on CHR ''/'' key = (prefix_segs d @ [e, c, sanitize_key_segment db]) @ r"
    using scope_segs assms by blast
  obtain r' where r': "split_on CHR ''/'' key = (prefix_segs d @ [e', c', sanitize_key_segment db']) @ r'"
    using scope_segs assms by blast
  from r r' show ?thesis by (simp add: sanitize_inject)
qed

theorem scope_isolation_witness:
  "has_prefix ''p/mysql/h/%2E%2E/2026/07/x'' (scope_prefix \<lparr>d_bucket = ''b'', d_prefix = ''p''\<rparr> ''mysql'' ''h'' ''..'')"
proof -
  let ?d = "\<lparr>d_bucket = ''b'', d_prefix = ''p''\<rparr>"
  have k: "has_prefix ''p/mysql/h/%2E%2E/2026/07/x'' (scope_prefix ?d ''mysql'' ''h'' ''..'')" by code_simp
  have "relative_prefix ?d" "safe_seg ''mysql''" "safe_seg ''h''"
    by (simp_all add: relative_prefix_def has_prefix_def safe_seg_def)
  from scope_isolation [OF this(1,2,3,2,3) k k] k show ?thesis by blast
qed

end
