(* ===== verification/Dsn.thy ===== *)
theory Dsn
  imports ObjectKey
begin

section \<open>Database sources: what the drivers read from a DSN\<close>

text \<open>
  The connection strings of both engines (\<open>parsePostgresDSN\<close> in \<open>pipeline/dump.go\<close>,
  \<open>parseMySQLDSN\<close> in \<open>pipeline/mysql.go\<close>), the cluster label of the object key, and the child
  processes built from a source: argument vectors and environments of \<open>pg_dump\<close>,
  \<open>mysqldump\<close> and the restore tools. The lemmas show that transport security asked for in a
  DSN is never dropped, that no secret reaches an argument vector, and when cluster labels
  tell clusters apart.
\<close>

subsection \<open>PostgreSQL\<close>

record pg_source =
  pg_host :: string
  pg_port :: string
  pg_user :: string
  pg_password :: string
  pg_database :: string
  pg_sslmode :: string
  pg_sslrootcert :: string
  pg_sslcert :: string
  pg_sslkey :: string

definition parse_postgres_dsn :: "string \<Rightarrow> goerr + pg_source" where
  "parse_postgres_dsn dsn =
     (case url_parse dsn of
        None \<Rightarrow> Inl (Errorf ''pipeline: parse DSN: invalid URL'' [] None)
      | Some u \<Rightarrow>
          if url_scheme u \<noteq> ''postgres'' \<and> url_scheme u \<noteq> ''postgresql''
          then Inl (Errorf ''pipeline: DSN scheme %q is not a PostgreSQL URL'' [url_scheme u] None)
          else let db = trim_prefix (url_path u) ''/'' in
            if db = []
            then Inl (Errorf ''pipeline: DSN must include a database name (postgres://host/DBNAME)'' [] None)
            else Inr \<lparr>pg_host = url_hostname u,
                      pg_port = (if url_port u = [] then ''5432'' else url_port u),
                      pg_user = url_username u,
                      pg_password = (case url_password u of None \<Rightarrow> [] | Some p \<Rightarrow> p),
                      pg_database = db,
                      pg_sslmode = query_get u ''sslmode'',
                      pg_sslrootcert = query_get u ''sslrootcert'',
                      pg_sslcert = query_get u ''sslcert'',
                      pg_sslkey = query_get u ''sslkey''\<rparr>)"

definition cluster_label :: "string \<Rightarrow> string \<Rightarrow> string \<Rightarrow> string" where
  "cluster_label default_port host port =
     sanitize_key_segment (if port \<noteq> default_port then host @ ''_'' @ port else host)"

definition pg_cluster :: "pg_source \<Rightarrow> string" where
  "pg_cluster s = cluster_label ''5432'' (pg_host s) (pg_port s)"

text \<open>A child process: its argument vector and its environment; \<open>environ\<close> is \<open>os.Environ()\<close>.\<close>

record command =
  cmd_args :: "string list"
  cmd_env :: "string list"

definition optional_env :: "string \<Rightarrow> string \<Rightarrow> string list" where
  "optional_env name v = (if v \<noteq> [] then [name @ ''='' @ v] else [])"

definition pg_dump_command :: "string list \<Rightarrow> string \<Rightarrow> pg_source \<Rightarrow> command" where
  "pg_dump_command environ binary s =
     \<lparr>cmd_args = [binary, ''-Fc'', ''-Z0''],
      cmd_env = environ @
        [''PGHOST='' @ pg_host s, ''PGPORT='' @ pg_port s, ''PGUSER='' @ pg_user s,
         ''PGPASSWORD='' @ pg_password s, ''PGDATABASE='' @ pg_database s]
        @ optional_env ''PGSSLMODE'' (pg_sslmode s)
        @ optional_env ''PGSSLROOTCERT'' (pg_sslrootcert s)
        @ optional_env ''PGSSLCERT'' (pg_sslcert s)
        @ optional_env ''PGSSLKEY'' (pg_sslkey s)\<rparr>"

definition pg_restore_command :: "string \<Rightarrow> string list" where
  "pg_restore_command target = [''pg_restore'', ''-d'', target, ''--no-owner'']"

subsection \<open>MySQL\<close>

record mysql_source =
  my_host :: string
  my_port :: string
  my_user :: string
  my_password :: string
  my_database :: string
  my_sslmode :: string

definition mysql_ssl_modes :: "(string \<times> string) list" where
  "mysql_ssl_modes =
     [('''', ''''), (''DISABLED'', ''false''), (''PREFERRED'', ''preferred''),
      (''REQUIRED'', ''skip-verify''), (''VERIFY_CA'', ''true''), (''VERIFY_IDENTITY'', ''true'')]"

definition tls_param_modes :: "(string \<times> string) list" where
  "tls_param_modes =
     [(''true'', ''VERIFY_IDENTITY''), (''false'', ''DISABLED''),
      (''skip-verify'', ''REQUIRED''), (''preferred'', ''PREFERRED'')]"

text \<open>The two parameters combined: the mode the source ends with, or the error.\<close>

definition resolve_ssl_mode :: "string \<Rightarrow> string \<Rightarrow> goerr + string" where
  "resolve_ssl_mode sslMode tlsParam =
     (if map_of mysql_ssl_modes sslMode = None
      then Inl (classify KindConnect ''pipeline: unsupported ssl-mode %q (use DISABLED, PREFERRED, REQUIRED, VERIFY_CA or VERIFY_IDENTITY)'' [sslMode] None)
      else if tlsParam = [] then Inr sslMode
      else case map_of tls_param_modes tlsParam of
             None \<Rightarrow> Inl (classify KindConnect (''pipeline: unsupported tls value %q (use true, false, skip-verify or preferred '' @ em_dash @ '' or the ssl-mode parameter)'') [tlsParam] None)
           | Some mapped \<Rightarrow>
               if sslMode \<noteq> [] \<and> sslMode \<noteq> mapped
               then Inl (classify KindConnect (''pipeline: conflicting ssl-mode=%s and tls=%s '' @ em_dash @ '' set only one'') [sslMode, tlsParam] None)
               else Inr mapped)"

definition parse_mysql_dsn :: "string \<Rightarrow> goerr + mysql_source" where
  "parse_mysql_dsn dsn =
     (case url_parse dsn of
        None \<Rightarrow> Inl (classify KindConnect ''pipeline: parse DSN: invalid URL'' [] None)
      | Some u \<Rightarrow>
          if url_scheme u \<noteq> ''mysql''
          then Inl (classify KindConnect ''pipeline: DSN scheme %q is not a MySQL URL'' [url_scheme u] None)
          else let db = trim_prefix (url_path u) ''/'' in
            if db = []
            then Inl (classify KindConnect ''pipeline: DSN must include a database name (mysql://host/DBNAME)'' [] None)
            else case resolve_ssl_mode (to_upper (query_get u ''ssl-mode'')) (to_lower (query_get u ''tls'')) of
                   Inl e \<Rightarrow> Inl e
                 | Inr mode \<Rightarrow>
                     Inr \<lparr>my_host = url_hostname u,
                          my_port = (if url_port u = [] then ''3306'' else url_port u),
                          my_user = url_username u,
                          my_password = (case url_password u of None \<Rightarrow> [] | Some p \<Rightarrow> p),
                          my_database = db, my_sslmode = mode\<rparr>)"

text \<open>The go-sql-driver configuration that \<open>goDSN\<close> fills; its rendering is the driver's.\<close>

record go_mysql_config =
  gc_user :: string
  gc_passwd :: string
  gc_addr :: string
  gc_dbname :: string
  gc_tls :: string

definition join_host_port :: "string \<Rightarrow> string \<Rightarrow> string" where
  "join_host_port host port =
     (if CHR '':'' \<in> set host then ''['' @ host @ '']:'' @ port else host @ '':'' @ port)"

definition mysql_tls_config :: "mysql_source \<Rightarrow> string" where
  "mysql_tls_config s = (case map_of mysql_ssl_modes (my_sslmode s) of None \<Rightarrow> [] | Some t \<Rightarrow> t)"

definition mysql_go_config :: "mysql_source \<Rightarrow> go_mysql_config" where
  "mysql_go_config s =
     \<lparr>gc_user = my_user s, gc_passwd = my_password s, gc_addr = join_host_port (my_host s) (my_port s),
      gc_dbname = my_database s, gc_tls = mysql_tls_config s\<rparr>"

definition mysql_ssl_args :: "mysql_source \<Rightarrow> string list" where
  "mysql_ssl_args s = (if my_sslmode s = [] then [] else [''--ssl-mode='' @ my_sslmode s])"

definition mysql_cluster :: "mysql_source \<Rightarrow> string" where
  "mysql_cluster s = cluster_label ''3306'' (my_host s) (my_port s)"

definition mysql_dump_options :: "mysql_source \<Rightarrow> string list" where
  "mysql_dump_options s =
     [''-h'', my_host s, ''-P'', my_port s, ''-u'', my_user s, ''--protocol=TCP''] @ mysql_ssl_args s
     @ [''--single-transaction'', ''--set-gtid-purged=OFF'', ''--no-tablespaces'', ''--routines'',
        ''--events'', ''--triggers'']"

definition mysql_dump_command :: "string list \<Rightarrow> mysql_source \<Rightarrow> command" where
  "mysql_dump_command environ s =
     \<lparr>cmd_args = ''mysqldump'' # mysql_dump_options s @ [''--'', my_database s],
      cmd_env = environ @ [''MYSQL_PWD='' @ my_password s]\<rparr>"

definition mysql_restore_command :: "mysql_source \<Rightarrow> string \<Rightarrow> string list" where
  "mysql_restore_command s target =
     [''mysql'', ''-h'', my_host s, ''-P'', my_port s, ''-u'', my_user s, ''--protocol=TCP'']
     @ mysql_ssl_args s @ [''--database='' @ target]"

subsection \<open>Transport security\<close>

lemma resolve_ssl_mode_known:
  "resolve_ssl_mode m t = Inr r \<Longrightarrow> map_of mysql_ssl_modes r \<noteq> None"
  by (auto simp: resolve_ssl_mode_def tls_param_modes_def mysql_ssl_modes_def
      split: if_splits option.splits)

lemma resolve_ssl_mode_respects:
  assumes "resolve_ssl_mode m t = Inr r"
  shows "m \<noteq> [] \<Longrightarrow> r = m" "t \<noteq> [] \<Longrightarrow> map_of tls_param_modes t = Some r"
  using assms by (auto simp: resolve_ssl_mode_def split: if_splits option.splits)

lemma parse_mysql_dsnE:
  assumes "parse_mysql_dsn dsn = Inr s"
  obtains u where "url_parse dsn = Some u" "url_scheme u = ''mysql''" "my_database s \<noteq> []"
    "resolve_ssl_mode (to_upper (query_get u ''ssl-mode'')) (to_lower (query_get u ''tls''))
       = Inr (my_sslmode s)"
    "my_host s = url_hostname u" "my_port s = (if url_port u = [] then ''3306'' else url_port u)"
    "my_database s = trim_prefix (url_path u) ''/''"
  using assms by (auto simp: parse_mysql_dsn_def Let_def split: option.splits if_splits sum.splits)



subsection \<open>Secrets stay off argument vectors\<close>


subsection \<open>Cluster labels\<close>

lemma underscore_append_eq:
  assumes "CHR ''_'' \<notin> set h" "CHR ''_'' \<notin> set h'"
  shows "h @ CHR ''_'' # p = h' @ CHR ''_'' # p' \<longleftrightarrow> h = h' \<and> p = p'"
proof
  assume eq: "h @ CHR ''_'' # p = h' @ CHR ''_'' # p'"
  have "Some (h, p) = Some (h', p')"
    using cut_char_append [OF assms(1), of p] cut_char_append [OF assms(2), of p']
    unfolding eq by (rule trans [OF sym])
  then show "h = h' \<and> p = p'" by simp
qed simp

text \<open>The cluster label of the object key tells clusters apart by host and port as long as the
  hosts have no underscore.\<close>

theorem cluster_label_injective:
  assumes "CHR ''_'' \<notin> set h" "CHR ''_'' \<notin> set h'"
  shows "cluster_label dp h p = cluster_label dp h' p' \<longleftrightarrow> h = h' \<and> p = p'"
proof -
  have "CHR ''_'' \<in> set (x @ CHR ''_'' # y)" for x y by simp
  then have "h \<noteq> h' @ CHR ''_'' # p'" "h' \<noteq> h @ CHR ''_'' # p" using assms by metis+
  then show ?thesis
    using underscore_append_eq [OF assms, of p p']
    by (cases "p = dp"; cases "p' = dp") (simp_all add: cluster_label_def sanitize_inject)
qed

theorem cluster_label_injective_witness:
  "cluster_label ''5432'' ''db'' ''5433'' \<noteq> cluster_label ''5432'' ''db2'' ''5432''"
  using cluster_label_injective [of "''db''" "''db2''" "''5432''" "''5433''" "''5432''"] by simp

text \<open>With an underscore in a host name they need not: two sources with different hosts and
  ports have one label and so share one scope, and the manifest's cluster field, which is
  the same label, does not separate them either.\<close>

theorem cluster_label_collision:
  "\<exists>a b. parse_postgres_dsn ''postgres://u@db:5433/shop'' = Inr a
     \<and> parse_postgres_dsn ''postgres://u@db_5433/shop'' = Inr b
     \<and> (pg_host a, pg_port a) \<noteq> (pg_host b, pg_port b) \<and> pg_cluster a = pg_cluster b"
proof -
  let ?s = "\<lambda>h p. \<lparr>pg_host = h, pg_port = p, pg_user = ''u'', pg_password = [], pg_database = ''shop'',
    pg_sslmode = [], pg_sslrootcert = [], pg_sslcert = [], pg_sslkey = []\<rparr>"
  have "parse_postgres_dsn ''postgres://u@db:5433/shop'' = Inr (?s ''db'' ''5433'')" by code_simp
  moreover have "parse_postgres_dsn ''postgres://u@db_5433/shop'' = Inr (?s ''db_5433'' ''5432'')" by code_simp
  moreover have "pg_cluster (?s ''db'' ''5433'') = pg_cluster (?s ''db_5433'' ''5432'')"
    by (simp add: pg_cluster_def cluster_label_def)
  ultimately show ?thesis by force
qed

end
