(* ===== verification/GoJson.thy ===== *)
theory GoJson
  imports GoUrl Errors
begin

section \<open>Package encoding/json: values, the decoder's grammar and string literals\<close>

text \<open>
  What the manifest needs of \<open>encoding/json\<close>: the grammar that \<open>json.Unmarshal\<close> accepts, as a
  tokenizer and a stack machine over the tokens (Go's scanner keeps the same stack), the
  decoding of string literals with their escapes, surrogate pairs and invalid UTF-8, and the
  writing of strings as \<open>json.Marshal\<close> does. The lemmas show that the tokenizer reads back what
  is written: strings of ASCII characters and decimal numbers.
\<close>

datatype json =
    JNull | JBool bool | JNum string | JStr string | JArr "json list" | JObj "(string \<times> json) list"

subsection \<open>UTF-8\<close>

definition byte_in :: "nat \<Rightarrow> nat \<Rightarrow> char \<Rightarrow> bool" where
  "byte_in lo hi c \<longleftrightarrow> lo \<le> (of_char c :: nat) \<and> (of_char c :: nat) \<le> hi"

text \<open>The second byte of a rune of three or four bytes: some first bytes narrow its range.\<close>

definition second3 :: "char \<Rightarrow> char \<Rightarrow> bool" where
  "second3 a b \<longleftrightarrow> byte_in (if a = CHR 0xE0 then 0xA0 else 128) (if a = CHR 0xED then 0x9F else 191) b"

definition second4 :: "char \<Rightarrow> char \<Rightarrow> bool" where
  "second4 a b \<longleftrightarrow> byte_in (if a = CHR 0xF0 then 0x90 else 128) (if a = CHR 0xF4 then 0x8F else 191) b"

text \<open>The number of bytes after the first one of the rune at the front, if it is valid UTF-8.\<close>

definition utf8_more :: "char \<Rightarrow> string \<Rightarrow> nat option" where
  "utf8_more a s =
     (if byte_in 0 127 a then Some 0
      else if byte_in 0xC2 0xDF a then
        (case s of b # _ \<Rightarrow> if byte_in 128 191 b then Some 1 else None | [] \<Rightarrow> None)
      else if byte_in 0xE0 0xEF a then
        (case s of b # c # _ \<Rightarrow>
           if second3 a b \<and> byte_in 128 191 c then Some 2 else None
         | _ \<Rightarrow> None)
      else if byte_in 0xF0 0xF4 a then
        (case s of b # c # d # _ \<Rightarrow>
           if second4 a b \<and> byte_in 128 191 c \<and> byte_in 128 191 d then Some 3 else None
         | _ \<Rightarrow> None)
      else None)"

definition encode_rune :: "nat \<Rightarrow> string" where
  "encode_rune r =
     (if r < 0x80 then [char_of r]
      else if r < 0x800 then [char_of (0xC0 + r div 64), char_of (0x80 + r mod 64)]
      else if r < 0x10000
      then [char_of (0xE0 + r div 4096), char_of (0x80 + r div 64 mod 64), char_of (0x80 + r mod 64)]
      else [char_of (0xF0 + r div 262144), char_of (0x80 + r div 4096 mod 64),
            char_of (0x80 + r div 64 mod 64), char_of (0x80 + r mod 64)])"

definition replacement :: string where
  "replacement = encode_rune 0xFFFD"

subsection \<open>String literals\<close>

text \<open>The code unit behind \<open>\u\<close>, \<open>getu4\<close> past its first two bytes.\<close>

definition hex4 :: "string \<Rightarrow> nat option" where
  "hex4 s =
     (case s of a # b # c # d # _ \<Rightarrow>
        if is_hex a \<and> is_hex b \<and> is_hex c \<and> is_hex d
        then Some (((unhex a * 16 + unhex b) * 16 + unhex c) * 16 + unhex d) else None
      | _ \<Rightarrow> None)"

definition is_surrogate :: "nat \<Rightarrow> bool" where
  "is_surrogate r \<longleftrightarrow> 0xD800 \<le> r \<and> r < 0xE000"

text \<open>The low half of a pair: \<open>utf16.DecodeRune\<close> on the unit read and the escape that follows.\<close>

definition low_surrogate :: "nat \<Rightarrow> string \<Rightarrow> nat option" where
  "low_surrogate hi s =
     (case s of b # u # r \<Rightarrow>
        if b = CHR 0x5C \<and> u = CHR ''u'' then
          (case hex4 r of
             Some lo \<Rightarrow> if hi < 0xDC00 \<and> 0xDC00 \<le> lo \<and> lo < 0xE000
               then Some ((hi - 0xD800) * 1024 + (lo - 0xDC00) + 0x10000) else None
           | None \<Rightarrow> None)
        else None
      | _ \<Rightarrow> None)"

definition simple_escape :: "char \<Rightarrow> char option" where
  "simple_escape e =
     map_of [(CHR 0x22, CHR 0x22), (CHR 0x5C, CHR 0x5C), (CHR ''/'', CHR ''/''), (CHR ''b'', CHR 0x08),
       (CHR ''f'', CHR 0x0C), (CHR ''n'', CHR 0x0A), (CHR ''r'', CHR 0x0D), (CHR ''t'', CHR 0x09)] e"

definition push :: "string \<Rightarrow> (string \<times> string) option \<Rightarrow> (string \<times> string) option" where
  "push x r = map_option (\<lambda>(a, b). (x @ a, b)) r"

lemma push_cong [fundef_cong]: "x = x' \<Longrightarrow> r = r' \<Longrightarrow> push x r = push x' r'"
  by simp

text \<open>The literal behind its opening quote: its value and the rest behind the closing one; \<open>k\<close>
  bytes belong to a rune already found valid.\<close>

fun scan_str :: "nat \<Rightarrow> string \<Rightarrow> (string \<times> string) option" where
  "scan_str k [] = None"
| "scan_str (Suc k) (c # s) = push [c] (scan_str k s)"
| "scan_str 0 (c # s) =
     (if c = CHR 0x22 then Some ([], s)
      else if byte_in 0 31 c then None
      else if c \<noteq> CHR 0x5C then
        (case utf8_more c s of
           Some k \<Rightarrow> push [c] (scan_str k s)
         | None \<Rightarrow> push replacement (scan_str 0 s))
      else (case s of
          [] \<Rightarrow> None
        | e # s' \<Rightarrow>
            if e = CHR ''u'' then
              (case hex4 s' of
                 None \<Rightarrow> None
               | Some r \<Rightarrow>
                   if \<not> is_surrogate r then push (encode_rune r) (scan_str 0 (drop 4 s'))
                   else (case low_surrogate r (drop 4 s') of
                           Some r' \<Rightarrow> push (encode_rune r') (scan_str 0 (drop 10 s'))
                         | None \<Rightarrow> push replacement (scan_str 0 (drop 4 s'))))
            else (case simple_escape e of
                    None \<Rightarrow> None
                  | Some x \<Rightarrow> push [x] (scan_str 0 s'))))"

lemma pushE: "push x r = Some (a, b) \<Longrightarrow> (\<And>a'. r = Some (a', b) \<Longrightarrow> P) \<Longrightarrow> P"
  by (auto simp: push_def)

lemma push_Some [simp]: "push x (Some (a, b)) = Some (x @ a, b)"
  by (simp add: push_def)

lemma scan_str_shorter: "scan_str k s = Some (x, r) \<Longrightarrow> length r < length s"
proof (induction k s arbitrary: x rule: scan_str.induct)
  case (3 c s)
  show ?case
    using 3 by (fastforce split: if_splits option.splits list.splits elim!: pushE)
qed (fastforce elim!: pushE)+

subsection \<open>Numbers and tokens\<close>

text \<open>One or more digits.\<close>

definition digits1 :: "string \<Rightarrow> (string \<times> string) option" where
  "digits1 s = (if takeWhile is_digit s = [] then None else Some (takeWhile is_digit s, dropWhile is_digit s))"

definition int_part :: "string \<Rightarrow> (string \<times> string) option" where
  "int_part s = (case s of c # r \<Rightarrow> if c = CHR ''0'' then Some ([c], r) else digits1 s | [] \<Rightarrow> None)"

definition frac_part :: "string \<Rightarrow> (string \<times> string) option" where
  "frac_part s = (case s of c # r \<Rightarrow> if c = CHR ''.'' then push [c] (digits1 r) else Some ([], s) | [] \<Rightarrow> Some ([], []))"

definition exp_part :: "string \<Rightarrow> (string \<times> string) option" where
  "exp_part s =
     (case s of
        c # r \<Rightarrow>
          if c = CHR ''e'' \<or> c = CHR ''E'' then
            (case r of
               d # r' \<Rightarrow> if d = CHR ''+'' \<or> d = CHR ''-'' then push [c, d] (digits1 r') else push [c] (digits1 r)
             | [] \<Rightarrow> None)
          else Some ([], s)
      | [] \<Rightarrow> Some ([], []))"

definition andthen :: "(string \<times> string) option \<Rightarrow> (string \<Rightarrow> (string \<times> string) option) \<Rightarrow> (string \<times> string) option" where
  "andthen p q = (case p of None \<Rightarrow> None | Some (a, r) \<Rightarrow> push a (q r))"

definition scan_num :: "string \<Rightarrow> (string \<times> string) option" where
  "scan_num s =
     (case s of
        c # r \<Rightarrow>
          if c = CHR ''-'' then push [c] (andthen (andthen (int_part r) frac_part) exp_part)
          else andthen (andthen (int_part s) frac_part) exp_part
      | [] \<Rightarrow> None)"

datatype token = TPunct char | TVal json

definition json_space :: "char \<Rightarrow> bool" where
  "json_space c \<longleftrightarrow> c = CHR '' '' \<or> c = CHR 0x09 \<or> c = CHR 0x0A \<or> c = CHR 0x0D"

definition json_punct :: "char \<Rightarrow> bool" where
  "json_punct c \<longleftrightarrow> c \<in> set ''{}[]:,''"

text \<open>The first token and the text behind it.\<close>

definition next_token :: "string \<Rightarrow> (token \<times> string) option" where
  "next_token s =
     (case s of
        [] \<Rightarrow> None
      | c # r \<Rightarrow>
          if json_punct c then Some (TPunct c, r)
          else if c = CHR 0x22 then map_option (\<lambda>(x, r'). (TVal (JStr x), r')) (scan_str 0 r)
          else if has_prefix s ''true'' then Some (TVal (JBool True), drop 4 s)
          else if has_prefix s ''false'' then Some (TVal (JBool False), drop 5 s)
          else if has_prefix s ''null'' then Some (TVal JNull, drop 4 s)
          else map_option (\<lambda>(x, r'). (TVal (JNum x), r')) (scan_num s))"

lemma digits1_shorter:
  assumes "digits1 s = Some (x, r)"
  shows "length r < length s"
proof -
  have "length (takeWhile is_digit s) + length (dropWhile is_digit s) = length s"
    by (metis length_append takeWhile_dropWhile_id)
  moreover have "takeWhile is_digit s \<noteq> []" "r = dropWhile is_digit s"
    using assms by (auto simp: digits1_def split: if_splits)
  ultimately show ?thesis by (metis add_cancel_right_left add_strict_right_mono length_greater_0_conv less_add_same_cancel2)
qed

lemma int_part_shorter: "int_part s = Some (x, r) \<Longrightarrow> length r < length s"
  by (auto simp: int_part_def dest: digits1_shorter split: list.splits if_splits)

lemma frac_part_le: "frac_part s = Some (x, r) \<Longrightarrow> length r \<le> length s"
  by (fastforce simp: frac_part_def elim!: pushE dest: digits1_shorter split: list.splits if_splits)

lemma exp_part_le: "exp_part s = Some (x, r) \<Longrightarrow> length r \<le> length s"
  by (fastforce simp: exp_part_def elim!: pushE dest: digits1_shorter split: list.splits if_splits)

lemma andthenE:
  assumes "andthen p q = Some (x, r)"
  obtains a r' b where "p = Some (a, r')" "q r' = Some (b, r)"
  using assms by (auto simp: andthen_def split: option.splits elim!: pushE)

lemma number_body_shorter:
  "andthen (andthen (int_part s) frac_part) exp_part = Some (x, r) \<Longrightarrow> length r < length s"
  by (elim andthenE) (fastforce dest: int_part_shorter frac_part_le exp_part_le)

lemma scan_num_shorter: "scan_num s = Some (x, r) \<Longrightarrow> length r < length s"
  by (fastforce simp: scan_num_def dest: number_body_shorter elim!: pushE split: list.splits if_splits)

lemma next_token_shorter: "next_token s = Some (t, r) \<Longrightarrow> length r < length s"
  by (fastforce simp: next_token_def dest: scan_str_shorter scan_num_shorter split: list.splits if_splits)

function tokens :: "string \<Rightarrow> token list option" where
  "tokens s =
     (case s of
        [] \<Rightarrow> Some []
      | c # r \<Rightarrow>
          if json_space c then tokens r
          else (case next_token (c # r) of
                  None \<Rightarrow> None
                | Some (t, r') \<Rightarrow> map_option ((#) t) (tokens r')))"
  by auto
termination by (relation "measure length") (auto dest: next_token_shorter)

declare tokens.simps [simp del]

subsection \<open>The grammar\<close>

text \<open>
  Go's scanner is a state with a stack of open containers (\<open>parseState\<close>); here a frame also
  holds the values read. A container is refused when 10000 are open.
\<close>

datatype frame = ArrFrame "json list" | ObjFrame "(string \<times> json) list" string

datatype pstate =
    BeginValue | BeginValueOrEnd | BeginKey | BeginKeyOrEnd | AfterKey | AfterElem | AfterMember | EndTop json

definition complete :: "json \<Rightarrow> frame list \<Rightarrow> pstate \<times> frame list" where
  "complete v st =
     (case st of
        [] \<Rightarrow> (EndTop v, [])
      | ArrFrame vs # st' \<Rightarrow> (AfterElem, ArrFrame (vs @ [v]) # st')
      | ObjFrame ms k # st' \<Rightarrow> (AfterMember, ObjFrame (ms @ [(k, v)]) [] # st'))"

definition open_frame :: "pstate \<Rightarrow> frame \<Rightarrow> frame list \<Rightarrow> (pstate \<times> frame list) option" where
  "open_frame q f st = (if int (length st) < 10000 then Some (q, f # st) else None)"

definition begin_value :: "frame list \<Rightarrow> token \<Rightarrow> (pstate \<times> frame list) option" where
  "begin_value st t =
     (case t of
        TVal v \<Rightarrow> Some (complete v st)
      | TPunct c \<Rightarrow>
          if c = CHR ''['' then open_frame BeginValueOrEnd (ArrFrame []) st
          else if c = CHR ''{'' then open_frame BeginKeyOrEnd (ObjFrame [] []) st
          else None)"

definition begin_key :: "frame list \<Rightarrow> token \<Rightarrow> (pstate \<times> frame list) option" where
  "begin_key st t =
     (case (t, st) of
        (TVal (JStr k), ObjFrame ms _ # st') \<Rightarrow> Some (AfterKey, ObjFrame ms k # st')
      | _ \<Rightarrow> None)"

definition close_frame :: "frame list \<Rightarrow> (pstate \<times> frame list) option" where
  "close_frame st =
     (case st of
        ArrFrame vs # st' \<Rightarrow> Some (complete (JArr vs) st')
      | ObjFrame ms _ # st' \<Rightarrow> Some (complete (JObj ms) st')
      | [] \<Rightarrow> None)"

definition json_step :: "pstate \<Rightarrow> frame list \<Rightarrow> token \<Rightarrow> (pstate \<times> frame list) option" where
  "json_step q st t =
     (case q of
        BeginValue \<Rightarrow> begin_value st t
      | BeginValueOrEnd \<Rightarrow> if t = TPunct CHR '']'' then close_frame st else begin_value st t
      | BeginKey \<Rightarrow> begin_key st t
      | BeginKeyOrEnd \<Rightarrow> if t = TPunct CHR ''}'' then close_frame st else begin_key st t
      | AfterKey \<Rightarrow> if t = TPunct CHR '':'' then Some (BeginValue, st) else None
      | AfterElem \<Rightarrow>
          if t = TPunct CHR '','' then Some (BeginValue, st)
          else if t = TPunct CHR '']'' then close_frame st else None
      | AfterMember \<Rightarrow>
          if t = TPunct CHR '','' then Some (BeginKey, st)
          else if t = TPunct CHR ''}'' then close_frame st else None
      | EndTop v \<Rightarrow> None)"

fun json_run :: "pstate \<Rightarrow> frame list \<Rightarrow> token list \<Rightarrow> json option" where
  "json_run q st [] = (case q of EndTop v \<Rightarrow> Some v | _ \<Rightarrow> None)"
| "json_run q st (t # ts) =
     (case json_step q st t of None \<Rightarrow> None | Some (q', st') \<Rightarrow> json_run q' st' ts)"

definition json_parse :: "string \<Rightarrow> json option" where
  "json_parse s = (case tokens s of None \<Rightarrow> None | Some ts \<Rightarrow> json_run BeginValue [] ts)"

subsection \<open>Writing\<close>

text \<open>\<open>json.Marshal\<close> of a string, with its escapes for HTML; a byte that is not valid UTF-8 and
  the two line separators of Unicode are escaped too.\<close>

definition hex_escape :: "nat \<Rightarrow> string" where
  "hex_escape n = CHR 0x5C # ''u00'' @ [lower_hex (n div 16), lower_hex (n mod 16)]"

definition escape_ascii :: "char \<Rightarrow> string" where
  "escape_ascii c =
     (if c = CHR 0x22 then [CHR 0x5C, CHR 0x22]
      else if c = CHR 0x5C then [CHR 0x5C, CHR 0x5C]
      else if c = CHR 0x08 then CHR 0x5C # ''b''
      else if c = CHR 0x0C then CHR 0x5C # ''f''
      else if c = CHR 0x0A then CHR 0x5C # ''n''
      else if c = CHR 0x0D then CHR 0x5C # ''r''
      else if c = CHR 0x09 then CHR 0x5C # ''t''
      else if byte_in 0 31 c \<or> c = CHR ''<'' \<or> c = CHR ''>'' \<or> c = CHR ''&'' then hex_escape (of_char c)
      else [c])"

fun escape_str :: "nat \<Rightarrow> string \<Rightarrow> string" where
  "escape_str k [] = []"
| "escape_str (Suc k) (c # s) = c # escape_str k s"
| "escape_str 0 (c # s) =
     (if byte_in 0 127 c then escape_ascii c @ escape_str 0 s
      else if has_prefix (c # s) [CHR 0xE2, CHR 0x80, CHR 0xA8] then (CHR 0x5C # ''u2028'') @ escape_str 0 (drop 2 s)
      else if has_prefix (c # s) [CHR 0xE2, CHR 0x80, CHR 0xA9] then (CHR 0x5C # ''u2029'') @ escape_str 0 (drop 2 s)
      else (case utf8_more c s of
              Some k \<Rightarrow> c # escape_str k s
            | None \<Rightarrow> (CHR 0x5C # ''ufffd'') @ escape_str 0 s))"

definition json_quote :: "string \<Rightarrow> string" where
  "json_quote s = CHR 0x22 # escape_str 0 s @ [CHR 0x22]"

text \<open>\<open>strconv.ParseInt\<close> on a number literal, for 64-bit fields.\<close>

fun digits_int :: "int \<Rightarrow> string \<Rightarrow> int" where
  "digits_int acc [] = acc"
| "digits_int acc (c # cs) = digits_int (10 * acc + int (digit_val c)) cs"

definition parse_int64 :: "string \<Rightarrow> int option" where
  "parse_int64 s =
     (let neg = has_prefix s ''-''; ds = trim_prefix s ''-'';
          v = (if neg then - digits_int 0 ds else digits_int 0 ds) in
      if ds = [] \<or> \<not> list_all is_digit ds \<or> v < - (2 ^ 63) \<or> v \<ge> 2 ^ 63 then None else Some v)"

subsection \<open>What is written is read back\<close>

lemma digits_int: "digits_int (int a) s = int (digits_val a s)"
  by (induction s arbitrary: a) (simp_all flip: of_nat_mult of_nat_add, metis of_nat_add of_nat_mult of_nat_numeral)

lemma dec_digits_head: "\<exists>c r. dec_digits n = c # r \<and> is_digit c \<and> (c = CHR ''0'' \<longrightarrow> r = [])"
proof (induction n rule: dec_digits.induct)
  case (1 n)
  show ?case
  proof (cases "n < 10")
    case True
    then show ?thesis by (simp add: dec_digits.simps [of n])
  next
    case False
    then obtain c r where c: "dec_digits (n div 10) = c # r" "is_digit c" "c = CHR ''0'' \<longrightarrow> r = []"
      using 1 by auto
    have "c \<noteq> CHR ''0''"
    proof
      assume "c = CHR ''0''"
      then have "dec_digits (n div 10) = ''0''" using c by simp
      then have "n div 10 = 0" using digits_val_dec_digits [of "n div 10"] by simp
      then show False using False by simp
    qed
    then show ?thesis using False c by (simp add: dec_digits.simps [of n])
  qed
qed

lemma not_digit_minus [simp]: "\<not> is_digit CHR ''-''"
  by (simp add: is_digit_def)

lemma parse_int64_itoa:
  assumes "- (2 ^ 63) \<le> i" "i < 2 ^ 63"
  shows "parse_int64 (itoa i) = Some i"
proof -
  obtain c r where c: "dec_digits (nat \<bar>i\<bar>) = c # r" "is_digit c" using dec_digits_head by blast
  have d: "digits_int 0 (dec_digits n) = int n" for n using digits_int [of 0 "dec_digits n"] by simp
  have "c \<noteq> CHR ''-''" using c(2) by auto
  show ?thesis
  proof (cases "i < 0")
    case True
    then have "dec_digits (nat (- i)) = c # r" using c by simp
    then show ?thesis
      using True assms d [of "nat (- i)"] dec_digits_digits [of "nat (- i)"]
      by (simp add: parse_int64_def itoa_def has_prefix_def trim_prefix_def Let_def)
  next
    case False
    then have "dec_digits (nat i) = c # r" using c by simp
    then show ?thesis
      using False assms d [of "nat i"] dec_digits_digits [of "nat i"] \<open>c \<noteq> CHR ''-''\<close>
      by (simp add: parse_int64_def itoa_def has_prefix_def trim_prefix_def Let_def)
  qed
qed

text \<open>Text behind a number that does not continue it.\<close>

definition num_end :: "string \<Rightarrow> bool" where
  "num_end r \<longleftrightarrow> (case r of [] \<Rightarrow> True | c # _ \<Rightarrow> \<not> is_digit c \<and> c \<noteq> CHR ''.'' \<and> c \<noteq> CHR ''e'' \<and> c \<noteq> CHR ''E'')"

lemma takeWhile_digits:
  assumes "list_all is_digit ds" "num_end r"
  shows "takeWhile is_digit (ds @ r) = ds" "dropWhile is_digit (ds @ r) = r"
  using assms by (induction ds) (auto simp: num_end_def split: list.splits)

lemma number_end:
  assumes "num_end r"
  shows "frac_part r = Some ([], r)" "exp_part r = Some ([], r)"
  using assms by (auto simp: num_end_def frac_part_def exp_part_def split: list.splits)

lemma int_part_digits:
  assumes "num_end r"
  shows "int_part (dec_digits n @ r) = Some (dec_digits n, r)"
proof -
  obtain c t where c: "dec_digits n = c # t" "is_digit c" "c = CHR ''0'' \<longrightarrow> t = []"
    using dec_digits_head by blast
  show ?thesis
  proof (cases "c = CHR ''0''")
    case True
    then show ?thesis using c by (simp add: int_part_def)
  next
    case False
    then show ?thesis
      using c takeWhile_digits [OF dec_digits_digits [of n] assms] by (simp add: int_part_def digits1_def)
  qed
qed

lemma scan_num_itoa: "num_end r \<Longrightarrow> scan_num (itoa i @ r) = Some (itoa i, r)"
proof -
  assume r: "num_end r"
  have b: "andthen (andthen (int_part (dec_digits n @ r)) frac_part) exp_part = Some (dec_digits n, r)" for n
    using int_part_digits [OF r] number_end [OF r] by (simp add: andthen_def)
  obtain c t where c: "dec_digits (nat i) = c # t" "is_digit c" using dec_digits_head by blast
  have "c \<noteq> CHR ''-''" using c(2) by auto
  then show ?thesis using b [of "nat i"] b [of "nat (- i)"] c by (simp add: scan_num_def itoa_def)
qed

lemma itoa_head: "\<exists>c t. itoa i = c # t \<and> (is_digit c \<or> c = CHR ''-'')"
  using dec_digits_head [of "nat i"] by (auto simp: itoa_def)

lemma next_token_itoa:
  assumes "num_end r"
  shows "next_token (itoa i @ r) = Some (TVal (JNum (itoa i)), r)"
proof -
  obtain c t where c: "itoa i = c # t" "is_digit c \<or> c = CHR ''-''" using itoa_head by blast
  have "\<not> is_digit x" if "x \<in> set ''{}[]:,tfn''" for x using that by (auto simp: is_digit_def)
  then have "c \<notin> set ''{}[]:,tfn''" using c(2) by auto
  moreover have "c \<noteq> CHR 0x22" using c(2) by (auto simp: is_digit_def)
  ultimately show ?thesis
    using scan_num_itoa [OF assms, of i] c(1)
    by (auto simp: next_token_def json_punct_def has_prefix_def)
qed

text \<open>Strings of valid UTF-8; \<open>k\<close> bytes of a rune are still to come.\<close>

fun valid_utf8 :: "nat \<Rightarrow> string \<Rightarrow> bool" where
  "valid_utf8 k [] = (k = 0)"
| "valid_utf8 (Suc k) (c # s) = valid_utf8 k s"
| "valid_utf8 0 (c # s) = (case utf8_more c s of None \<Rightarrow> False | Some k \<Rightarrow> valid_utf8 k s)"

lemma unhex_lower_hex [simp]: "n < 16 \<Longrightarrow> unhex (lower_hex n) = n"
  by (simp add: unhex_def lower_hex_def is_digit_def less_eq_char_def)

lemma is_hex_lower_hex [simp]: "n < 16 \<Longrightarrow> is_hex (lower_hex n)"
  by (simp add: is_hex_def lower_hex_def is_digit_def less_eq_char_def)

lemma is_hex_zero [simp]: "is_hex CHR ''0''" "unhex CHR ''0'' = 0"
  by (simp_all add: is_hex_def unhex_def is_digit_def)

lemma scan_hex_escape:
  assumes "n < 128"
  shows "scan_str 0 (hex_escape n @ t) = push [char_of n] (scan_str 0 t)"
proof -
  have "n div 16 < 16" using assms by simp
  then have "hex4 (''00'' @ lower_hex (n div 16) # lower_hex (n mod 16) # t) = Some n"
    by (simp add: hex4_def)
  then show ?thesis
    using assms by (simp add: hex_escape_def is_surrogate_def encode_rune_def byte_in_def)
qed

lemma scan_escape_ascii:
  assumes "byte_in 0 127 c"
  shows "scan_str 0 (escape_ascii c @ t) = push [c] (scan_str 0 t)"
proof -
  have n: "(of_char c :: nat) < 128" using assms by (simp add: byte_in_def)
  consider "c \<in> {CHR 0x22, CHR 0x5C, CHR 0x08, CHR 0x0C, CHR 0x0A, CHR 0x0D, CHR 0x09}"
    | "escape_ascii c = hex_escape (of_char c)"
    | "escape_ascii c = [c]" "\<not> byte_in 0 31 c" "c \<noteq> CHR 0x22" "c \<noteq> CHR 0x5C"
    by (cases "c \<in> {CHR 0x22, CHR 0x5C, CHR 0x08, CHR 0x0C, CHR 0x0A, CHR 0x0D, CHR 0x09}";
        cases "byte_in 0 31 c \<or> c = CHR ''<'' \<or> c = CHR ''>'' \<or> c = CHR ''&''")
       (simp_all add: escape_ascii_def)
  then show ?thesis
  proof cases
    case 1
    then show ?thesis by (auto simp: escape_ascii_def simple_escape_def byte_in_def)
  next
    case 2
    then show ?thesis using scan_hex_escape [OF n] by simp
  next
    case 3
    then show ?thesis using assms by (simp add: utf8_more_def)
  qed
qed

lemma utf8_more_take:
  assumes "utf8_more c s = Some k"
  shows "k \<le> length s \<and> utf8_more c (take k s @ u) = Some k"
proof -
  consider "byte_in 0 127 c" "k = 0"
    | b t where "\<not> byte_in 0 127 c" "byte_in 0xC2 0xDF c" "s = b # t" "byte_in 128 191 b" "k = 1"
    | b d t where "\<not> byte_in 0 127 c" "\<not> byte_in 0xC2 0xDF c" "byte_in 0xE0 0xEF c" "s = b # d # t" "k = 2"
        "second3 c b" "byte_in 128 191 d"
    | b d e t where "\<not> byte_in 0 127 c" "\<not> byte_in 0xC2 0xDF c" "\<not> byte_in 0xE0 0xEF c" "byte_in 0xF0 0xF4 c"
        "s = b # d # e # t" "k = 3"
        "second4 c b"
        "byte_in 128 191 d" "byte_in 128 191 e"
    using assms unfolding utf8_more_def by (force split: if_split_asm list.split_asm)
  then show ?thesis
  proof cases
    case 1
    then show ?thesis by (simp add: utf8_more_def)
  next
    case 2
    then show ?thesis by (simp add: utf8_more_def)
  next
    case 3
    then show ?thesis by (simp add: utf8_more_def numeral_2_eq_2 numeral_3_eq_3)
  next
    case 4
    then show ?thesis by (simp add: utf8_more_def numeral_2_eq_2 numeral_3_eq_3)
  qed
qed

lemma escape_str_take: "k \<le> length s \<Longrightarrow> escape_str k s = take k s @ escape_str 0 (drop k s)"
proof (induction k arbitrary: s)
  case (Suc k)
  then show ?case by (cases s) auto
qed simp

lemma utf8_more_escape: "utf8_more c s = Some k \<Longrightarrow> utf8_more c (escape_str k s @ t) = Some k"
  using utf8_more_take [of c s k "escape_str 0 (drop k s) @ t"] escape_str_take [of k s] by simp

lemma encode_line_separator:
  "encode_rune 0x2028 = [CHR 0xE2, CHR 0x80, CHR 0xA8]" "encode_rune 0x2029 = [CHR 0xE2, CHR 0x80, CHR 0xA9]"
  by (simp_all add: encode_rune_def char_of_def bit_0)

lemma scan_line_separator [simp]:
  "scan_str 0 (CHR 0x5C # CHR ''u'' # CHR ''2'' # CHR ''0'' # CHR ''2'' # CHR ''8'' # t)
     = push [CHR 0xE2, CHR 0x80, CHR 0xA8] (scan_str 0 t)"
  "scan_str 0 (CHR 0x5C # CHR ''u'' # CHR ''2'' # CHR ''0'' # CHR ''2'' # CHR ''9'' # t)
     = push [CHR 0xE2, CHR 0x80, CHR 0xA9] (scan_str 0 t)"
  using encode_line_separator
  by (simp_all add: hex4_def is_hex_def unhex_def is_digit_def is_surrogate_def byte_in_def)

lemma scan_escape_str:
  "valid_utf8 k s \<Longrightarrow> scan_str k (escape_str k s @ CHR 0x22 # r) = Some (s, r)"
proof (induction k s rule: escape_str.induct)
  case (3 c s)
  show ?case
  proof (cases "byte_in 0 127 c")
    case True
    then have "valid_utf8 0 s" using "3.prems" by (simp add: utf8_more_def)
    then show ?thesis using True 3 by (simp add: scan_escape_ascii)
  next
    case False
    then obtain k where k: "utf8_more c s = Some k" "valid_utf8 k s"
      using "3.prems" by (auto split: option.splits)
    have sep: "valid_utf8 0 (drop 2 s) \<and> c # s = [c, CHR 0x80, d] @ drop 2 s"
      if "has_prefix (c # s) [CHR 0xE2, CHR 0x80, d]" "byte_in 128 191 d" for d
      using that k by (auto elim!: has_prefixE simp: utf8_more_def second3_def byte_in_def numeral_2_eq_2 split: if_splits)
    have b: "byte_in 128 191 CHR 0xA8" "byte_in 128 191 CHR 0xA9" by (simp_all add: byte_in_def)
    consider (ls) "has_prefix (c # s) [CHR 0xE2, CHR 0x80, CHR 0xA8]"
      | (ps) "\<not> has_prefix (c # s) [CHR 0xE2, CHR 0x80, CHR 0xA8]" "has_prefix (c # s) [CHR 0xE2, CHR 0x80, CHR 0xA9]"
      | (other) "\<not> has_prefix (c # s) [CHR 0xE2, CHR 0x80, CHR 0xA8]" "\<not> has_prefix (c # s) [CHR 0xE2, CHR 0x80, CHR 0xA9]"
      by blast
    then show ?thesis
    proof cases
      case ls
      then have "c = CHR 0xE2" by (simp add: has_prefix_def)
      then show ?thesis
        using "3.IH"(2) [OF False ls] sep [OF ls b(1)] False ls by (simp del: scan_str.simps)
    next
      case ps
      then have "c = CHR 0xE2" by (simp add: has_prefix_def)
      then show ?thesis
        using "3.IH"(3) [OF False ps] sep [OF ps(2) b(2)] False ps by (simp del: scan_str.simps)
    next
      case other
      have "c \<noteq> CHR 0x22" "c \<noteq> CHR 0x5C" "\<not> byte_in 0 31 c" using False by (auto simp: byte_in_def)
      then have "scan_str 0 (c # escape_str k s @ CHR 0x22 # r) = Some (c # s, r)"
        using "3.IH"(5) [OF False other k] utf8_more_escape [OF k(1)] by simp
      moreover have "escape_str 0 (c # s) = c # escape_str k s"
        unfolding escape_str.simps(3) by (simp only: False other k(1) if_False option.case)
      ultimately show ?thesis by simp
    qed
  qed
qed simp_all

lemma next_token_quote:
  assumes "valid_utf8 0 s"
  shows "next_token (json_quote s @ r) = Some (TVal (JStr s), r)"
  using scan_escape_str [OF assms, of r] by (simp add: next_token_def json_quote_def json_punct_def)

lemma tokens_space [simp]: "json_space c \<Longrightarrow> tokens (c # r) = tokens r"
  by (simp add: tokens.simps [of "c # r"])

lemma tokens_punct [simp]: "json_punct c \<Longrightarrow> tokens (c # r) = map_option ((#) (TPunct c)) (tokens r)"
  by (auto simp: tokens.simps [of "c # r"] next_token_def json_punct_def json_space_def)

lemma tokens_quote [simp]:
  assumes "valid_utf8 0 s"
  shows "tokens (json_quote s @ r) = map_option ((#) (TVal (JStr s))) (tokens r)"
proof -
  obtain t where t: "json_quote s @ r = CHR 0x22 # t" by (simp add: json_quote_def)
  show ?thesis
    using next_token_quote [OF assms, of r] unfolding t
    by (simp add: tokens.simps [of "CHR 0x22 # t"] json_space_def)
qed

lemma tokens_itoa [simp]:
  assumes "num_end r"
  shows "tokens (itoa i @ r) = map_option ((#) (TVal (JNum (itoa i)))) (tokens r)"
proof -
  obtain c t where c: "itoa i = c # t" "is_digit c \<or> c = CHR ''-''" using itoa_head by blast
  then have "\<not> json_space c" by (auto simp: json_space_def is_digit_def)
  then show ?thesis
    using next_token_itoa [OF assms, of i] c(1) by (simp add: tokens.simps [of "c # t @ r"])
qed

end
