(* ===== verification/Manifest.thy ===== *)
theory Manifest
  imports ObjectKey GoJson
begin

section \<open>The manifest: the sidecar that makes a ciphertext a backup\<close>

text \<open>
  The file \<open>pipeline/manifest.go\<close>: the manifest, its object key, and its JSON text as
  \<open>json.MarshalIndent\<close> writes it and \<open>json.Unmarshal\<close> reads it into the struct (field names
  compare without regard to case, unknown names are skipped, \<open>null\<close> leaves a field as it is, a
  value of the wrong type is an error). The round trip shows that what is written is read
  back, whatever the strings are, as long as they are UTF-8.
\<close>

record manifest =
  mf_key_schema :: int
  mf_backup_id :: string
  mf_created_at :: string
  mf_engine :: string
  mf_cluster :: string
  mf_database :: string
  mf_object :: string
  mf_format :: string
  mf_dump_client :: string
  mf_dbferry_version :: string
  mf_ciphertext_bytes :: int
  mf_ciphertext_sha256 :: string
  mf_part_size :: int
  mf_concurrency :: int

definition key_schema_version :: int where
  "key_schema_version = 1"

definition backup_format :: string where
  "backup_format = ''pg_dump -Fc -Z0 | zstd | age''"

definition manifest_key :: "string \<Rightarrow> string" where
  "manifest_key key = trim_suffix key ciphertext_suffix @ manifest_suffix"

definition manifest_created_at :: "gotime \<Rightarrow> string" where
  "manifest_created_at t = format_rfc3339 t"

definition zero_manifest :: manifest where
  "zero_manifest =
     \<lparr>mf_key_schema = 0, mf_backup_id = [], mf_created_at = [], mf_engine = [], mf_cluster = [],
      mf_database = [], mf_object = [], mf_format = [], mf_dump_client = [], mf_dbferry_version = [],
      mf_ciphertext_bytes = 0, mf_ciphertext_sha256 = [], mf_part_size = 0, mf_concurrency = 0\<rparr>"

subsection \<open>Writing\<close>

text \<open>The members in the order of the struct, with \<open>omitempty\<close> on the version of the program.\<close>

definition manifest_members :: "manifest \<Rightarrow> (string \<times> json) list" where
  "manifest_members m =
     [(''key_schema'', JNum (itoa (mf_key_schema m))),
      (''backup_id'', JStr (mf_backup_id m)),
      (''created_at'', JStr (mf_created_at m)),
      (''engine'', JStr (mf_engine m)),
      (''cluster'', JStr (mf_cluster m)),
      (''database'', JStr (mf_database m)),
      (''object'', JStr (mf_object m)),
      (''format'', JStr (mf_format m)),
      (''dump_client'', JStr (mf_dump_client m))]
     @ (if mf_dbferry_version m = [] then [] else [(''dbferry_version'', JStr (mf_dbferry_version m))])
     @ [(''ciphertext_bytes'', JNum (itoa (mf_ciphertext_bytes m))),
        (''ciphertext_sha256'', JStr (mf_ciphertext_sha256 m)),
        (''part_size'', JNum (itoa (mf_part_size m))),
        (''concurrency'', JNum (itoa (mf_concurrency m)))]"

definition scalar_text :: "json \<Rightarrow> string" where
  "scalar_text v = (case v of JNum n \<Rightarrow> n | JStr s \<Rightarrow> json_quote s | _ \<Rightarrow> ''null'')"

definition member_text :: "string \<times> json \<Rightarrow> string" where
  "member_text kv = (case kv of (k, v) \<Rightarrow> ''  '' @ json_quote k @ '': '' @ scalar_text v)"

definition manifest_marshal :: "manifest \<Rightarrow> string" where
  "manifest_marshal m =
     ''{'' @ [CHR 0x0A] @ join_with ('','' @ [CHR 0x0A]) (map member_text (manifest_members m))
     @ [CHR 0x0A] @ ''}'' @ [CHR 0x0A]"

subsection \<open>Reading\<close>

text \<open>\<open>foldName\<close>: the two letters outside of ASCII that fold to an ASCII letter are the Kelvin
  sign and the long s.\<close>

fun fold_name :: "string \<Rightarrow> string" where
  "fold_name [] = []"
| "fold_name (c # s) =
     (if has_prefix (c # s) [CHR 0xE2, CHR 0x84, CHR 0xAA] then CHR ''K'' # fold_name (drop 2 s)
      else if has_prefix (c # s) [CHR 0xC5, CHR 0xBF] then CHR ''S'' # fold_name (drop 1 s)
      else upper_char c # fold_name s)"

definition set_int :: "((int \<Rightarrow> int) \<Rightarrow> manifest \<Rightarrow> manifest) \<Rightarrow> json \<Rightarrow> manifest \<Rightarrow> manifest option" where
  "set_int upd v m =
     (case v of
        JNum n \<Rightarrow> (case parse_int64 n of Some i \<Rightarrow> Some (upd (\<lambda>_. i) m) | None \<Rightarrow> None)
      | JNull \<Rightarrow> Some m
      | _ \<Rightarrow> None)"

definition set_string :: "((string \<Rightarrow> string) \<Rightarrow> manifest \<Rightarrow> manifest) \<Rightarrow> json \<Rightarrow> manifest \<Rightarrow> manifest option" where
  "set_string upd v m =
     (case v of JStr s \<Rightarrow> Some (upd (\<lambda>_. s) m) | JNull \<Rightarrow> Some m | _ \<Rightarrow> None)"

definition manifest_fields :: "(string \<times> (json \<Rightarrow> manifest \<Rightarrow> manifest option)) list" where
  "manifest_fields =
     [(''KEY_SCHEMA'', set_int mf_key_schema_update),
      (''BACKUP_ID'', set_string mf_backup_id_update),
      (''CREATED_AT'', set_string mf_created_at_update),
      (''ENGINE'', set_string mf_engine_update),
      (''CLUSTER'', set_string mf_cluster_update),
      (''DATABASE'', set_string mf_database_update),
      (''OBJECT'', set_string mf_object_update),
      (''FORMAT'', set_string mf_format_update),
      (''DUMP_CLIENT'', set_string mf_dump_client_update),
      (''DBFERRY_VERSION'', set_string mf_dbferry_version_update),
      (''CIPHERTEXT_BYTES'', set_int mf_ciphertext_bytes_update),
      (''CIPHERTEXT_SHA256'', set_string mf_ciphertext_sha256_update),
      (''PART_SIZE'', set_int mf_part_size_update),
      (''CONCURRENCY'', set_int mf_concurrency_update)]"

fun apply_members :: "(string \<times> json) list \<Rightarrow> manifest \<Rightarrow> manifest option" where
  "apply_members [] m = Some m"
| "apply_members ((k, v) # ms) m =
     (case map_of manifest_fields (fold_name k) of
        None \<Rightarrow> apply_members ms m
      | Some f \<Rightarrow> (case f v m of None \<Rightarrow> None | Some m' \<Rightarrow> apply_members ms m'))"

definition manifest_unmarshal :: "string \<Rightarrow> manifest option" where
  "manifest_unmarshal body =
     (case json_parse body of
        Some JNull \<Rightarrow> Some zero_manifest
      | Some (JObj ms) \<Rightarrow> apply_members ms zero_manifest
      | _ \<Rightarrow> None)"

subsection \<open>The round trip\<close>

definition plain_member :: "string \<times> json \<Rightarrow> bool" where
  "plain_member kv \<longleftrightarrow> valid_utf8 0 (fst kv) \<and>
     (case snd kv of JNum n \<Rightarrow> (\<exists>i. n = itoa i) | JStr s \<Rightarrow> valid_utf8 0 s | _ \<Rightarrow> False)"

definition member_tokens :: "string \<times> json \<Rightarrow> token list" where
  "member_tokens kv = [TVal (JStr (fst kv)), TPunct CHR '':'', TVal (snd kv)]"

lemma tokens_member:
  assumes "plain_member kv" "num_end r"
  shows "tokens (member_text kv @ r) = map_option ((@) (member_tokens kv)) (tokens r)"
proof -
  have "tokens (scalar_text (snd kv) @ r) = map_option ((#) (TVal (snd kv))) (tokens r)"
    using assms by (auto simp: plain_member_def scalar_text_def split: json.splits)
  then show ?thesis
    using assms(1)
    by (cases kv; cases "tokens r") (simp_all add: member_text_def plain_member_def member_tokens_def json_space_def
        json_punct_def option.map_comp comp_def)
qed

lemma tokens_members:
  assumes "list_all plain_member ms" "ms \<noteq> []"
  shows "tokens (join_with ('','' @ [CHR 0x0A]) (map member_text ms) @ [CHR 0x0A] @ ''}'' @ [CHR 0x0A])
    = Some (tl (concat (map (\<lambda>kv. TPunct CHR '','' # member_tokens kv) ms)) @ [TPunct CHR ''}''])"
  using assms
proof (induction ms)
  case (Cons kv ms)
  let ?tail = "[CHR 0x0A] @ ''}'' @ [CHR 0x0A]"
  have num: "num_end (CHR 0x0A # r)" "num_end (CHR '','' # r)" for r
    by (simp_all add: num_end_def is_digit_def)
  have nil: "tokens ?tail = Some [TPunct CHR ''}'']"
    by (simp add: json_space_def json_punct_def tokens.simps [of "[]"])
  show ?case
  proof (cases ms)
    case Nil
    then show ?thesis using Cons.prems nil tokens_member [OF _ num(1), of kv] by simp
  next
    case (Cons kv' ms')
    let ?r = "join_with ('','' @ [CHR 0x0A]) (map member_text ms) @ ?tail"
    have "join_with ('','' @ [CHR 0x0A]) (map member_text (kv # ms)) @ ?tail
        = member_text kv @ CHR '','' # CHR 0x0A # ?r"
      using Cons by simp
    moreover have "tokens (CHR '','' # CHR 0x0A # ?r) = map_option ((#) (TPunct CHR '','')) (tokens ?r)"
      by (simp add: json_space_def json_punct_def)
    ultimately show ?thesis
      using Cons.IH Cons.prems Cons tokens_member [OF _ num(2), of kv] by simp
  qed
qed simp

definition members_run :: "(string \<times> json) list \<Rightarrow> token list" where
  "members_run ms = concat (map (\<lambda>kv. TPunct CHR '','' # member_tokens kv) ms)"

lemma run_members:
  "json_run AfterMember [ObjFrame acc []] (members_run ms @ [TPunct CHR ''}'']) = Some (JObj (acc @ ms))"
proof (induction ms arbitrary: acc)
  case Nil
  then show ?case by (simp add: members_run_def json_step_def close_frame_def complete_def)
next
  case (Cons kv ms)
  show ?case
    using Cons.IH [of "acc @ [kv]"]
    by (cases kv) (simp add: members_run_def member_tokens_def json_step_def begin_key_def
        begin_value_def complete_def)
qed

lemma parse_object_text:
  assumes "list_all plain_member ms" "ms \<noteq> []"
  shows "json_parse (''{'' @ [CHR 0x0A] @ join_with ('','' @ [CHR 0x0A]) (map member_text ms)
    @ [CHR 0x0A] @ ''}'' @ [CHR 0x0A]) = Some (JObj ms)"
proof -
  obtain kv ms' where ms: "ms = kv # ms'" using assms(2) by (cases ms) auto
  let ?ts = "member_tokens kv @ members_run ms' @ [TPunct CHR ''}'']"
  have "tokens (join_with ('','' @ [CHR 0x0A]) (map member_text ms) @ [CHR 0x0A] @ ''}'' @ [CHR 0x0A]) = Some ?ts"
    unfolding tokens_members [OF assms] by (simp add: ms members_run_def)
  then have "tokens (''{'' @ [CHR 0x0A] @ join_with ('','' @ [CHR 0x0A]) (map member_text ms)
      @ [CHR 0x0A] @ ''}'' @ [CHR 0x0A]) = Some (TPunct CHR ''{'' # ?ts)"
    by (simp add: json_punct_def json_space_def)
  moreover have "json_run BeginValue [] (TPunct CHR ''{'' # ?ts) = Some (JObj ms)"
    using run_members [of "[kv]" ms']
    by (cases kv) (simp add: ms member_tokens_def json_step_def begin_key_def begin_value_def
        open_frame_def complete_def)
  ultimately show ?thesis by (simp add: json_parse_def)
qed

text \<open>What the writer of a manifest can put into it: 64-bit integers and UTF-8 strings.\<close>

definition int64 :: "int \<Rightarrow> bool" where
  "int64 i \<longleftrightarrow> - (2 ^ 63) \<le> i \<and> i < 2 ^ 63"

definition writable :: "manifest \<Rightarrow> bool" where
  "writable m \<longleftrightarrow>
     list_all int64 [mf_key_schema m, mf_ciphertext_bytes m, mf_part_size m, mf_concurrency m]
     \<and> list_all (valid_utf8 0) [mf_backup_id m, mf_created_at m, mf_engine m, mf_cluster m, mf_database m,
          mf_object m, mf_format m, mf_dump_client m, mf_dbferry_version m, mf_ciphertext_sha256 m]"

lemma ascii_names:
  "list_all (\<lambda>k. valid_utf8 0 k) [''key_schema'', ''backup_id'', ''created_at'', ''engine'', ''cluster'',
     ''database'', ''object'', ''format'', ''dump_client'', ''dbferry_version'', ''ciphertext_bytes'',
     ''ciphertext_sha256'', ''part_size'', ''concurrency'']"
  by (simp add: utf8_more_def byte_in_def)

lemma members_plain: "writable m \<Longrightarrow> list_all plain_member (manifest_members m)"
  using ascii_names by (auto simp: writable_def manifest_members_def plain_member_def)

lemma fold_names:
  "fold_name ''key_schema'' = ''KEY_SCHEMA''" "fold_name ''backup_id'' = ''BACKUP_ID''"
  "fold_name ''created_at'' = ''CREATED_AT''" "fold_name ''engine'' = ''ENGINE''"
  "fold_name ''cluster'' = ''CLUSTER''" "fold_name ''database'' = ''DATABASE''"
  "fold_name ''object'' = ''OBJECT''" "fold_name ''format'' = ''FORMAT''"
  "fold_name ''dump_client'' = ''DUMP_CLIENT''" "fold_name ''dbferry_version'' = ''DBFERRY_VERSION''"
  "fold_name ''ciphertext_bytes'' = ''CIPHERTEXT_BYTES''"
  "fold_name ''ciphertext_sha256'' = ''CIPHERTEXT_SHA256''"
  "fold_name ''part_size'' = ''PART_SIZE''" "fold_name ''concurrency'' = ''CONCURRENCY''"
  by code_simp+

lemma field_setters:
  "map_of manifest_fields ''KEY_SCHEMA'' = Some (set_int mf_key_schema_update)"
  "map_of manifest_fields ''BACKUP_ID'' = Some (set_string mf_backup_id_update)"
  "map_of manifest_fields ''CREATED_AT'' = Some (set_string mf_created_at_update)"
  "map_of manifest_fields ''ENGINE'' = Some (set_string mf_engine_update)"
  "map_of manifest_fields ''CLUSTER'' = Some (set_string mf_cluster_update)"
  "map_of manifest_fields ''DATABASE'' = Some (set_string mf_database_update)"
  "map_of manifest_fields ''OBJECT'' = Some (set_string mf_object_update)"
  "map_of manifest_fields ''FORMAT'' = Some (set_string mf_format_update)"
  "map_of manifest_fields ''DUMP_CLIENT'' = Some (set_string mf_dump_client_update)"
  "map_of manifest_fields ''DBFERRY_VERSION'' = Some (set_string mf_dbferry_version_update)"
  "map_of manifest_fields ''CIPHERTEXT_BYTES'' = Some (set_int mf_ciphertext_bytes_update)"
  "map_of manifest_fields ''CIPHERTEXT_SHA256'' = Some (set_string mf_ciphertext_sha256_update)"
  "map_of manifest_fields ''PART_SIZE'' = Some (set_int mf_part_size_update)"
  "map_of manifest_fields ''CONCURRENCY'' = Some (set_int mf_concurrency_update)"
  by (simp_all add: manifest_fields_def)

lemma set_string_Str [simp]: "set_string upd (JStr s) m = Some (upd (\<lambda>_. s) m)"
  by (simp add: set_string_def)

lemma set_int_itoa [simp]: "int64 i \<Longrightarrow> set_int upd (JNum (itoa i)) m = Some (upd (\<lambda>_. i) m)"
  by (simp add: set_int_def int64_def parse_int64_itoa)

lemma apply_manifest_members:
  assumes "writable m"
  shows "apply_members (manifest_members m) zero_manifest = Some m"
proof -
  have i: "int64 (mf_key_schema m)" "int64 (mf_ciphertext_bytes m)" "int64 (mf_part_size m)"
    "int64 (mf_concurrency m)"
    using assms by (simp_all add: writable_def)
  show ?thesis
  proof (cases "mf_dbferry_version m = []")
    case True
    then show ?thesis
      using i by (simp add: manifest_members_def fold_names field_setters zero_manifest_def del: fold_name.simps)
  next
    case False
    then show ?thesis
      using i by (simp add: manifest_members_def fold_names field_setters zero_manifest_def del: fold_name.simps)
  qed
qed

lemma unmarshal_marshal:
  assumes "writable m"
  shows "manifest_unmarshal (manifest_marshal m) = Some m"
proof -
  have "manifest_members m \<noteq> []" by (simp add: manifest_members_def)
  from parse_object_text [OF members_plain [OF assms] this] show ?thesis
    using apply_manifest_members [OF assms] by (simp add: manifest_unmarshal_def manifest_marshal_def)
qed

text \<open>C10: the text of a manifest reads back as the manifest: for integers of 64 bits and strings of
  valid UTF-8 \<open>json.Unmarshal\<close> undoes \<open>json.MarshalIndent\<close>, escapes, HTML characters and
  line separators included, and a version left out by \<open>omitempty\<close> comes back as empty.\<close>

theorem manifest_roundtrip:
  assumes "writable m"
  shows "manifest_unmarshal (manifest_marshal m) = Some m"
  by (rule unmarshal_marshal [OF assms])

definition sample_manifest :: manifest where
  "sample_manifest = zero_manifest\<lparr>mf_key_schema := 1, mf_backup_id := ''a<b'', mf_database := [CHR 0xC3, CHR 0xA9],
     mf_ciphertext_bytes := 42\<rparr>"

theorem manifest_roundtrip_witness:
  "manifest_unmarshal (manifest_marshal sample_manifest) = Some sample_manifest"
proof (rule manifest_roundtrip)
  show "writable sample_manifest"
    by (simp add: writable_def sample_manifest_def zero_manifest_def int64_def utf8_more_def byte_in_def)
qed

end
