(* ===== verification/GoSort.thy ===== *)
theory GoSort
  imports Prelude "HOL-Library.Multiset"
begin

section \<open>sort.Slice with a comparison\<close>

text \<open>
  The sources sort slices with \<open>sort.Slice\<close> and a \<open>less\<close> function. The contract of
  \<open>sort.Slice\<close> asks the client for a strict weak order and promises a sorted permutation;
  the order of elements that compare equal is open. \<open>sort_slice\<close> is one such function
  (insertion, equal elements keep their order), and \<open>sort_slice_unique\<close> says that where
  no two elements compare equal every sorted permutation is the same list, so that what
  the sources compute does not depend on the algorithm.
\<close>

fun insert_by :: "('a \<Rightarrow> 'a \<Rightarrow> bool) \<Rightarrow> 'a \<Rightarrow> 'a list \<Rightarrow> 'a list" where
  "insert_by lt x [] = [x]"
| "insert_by lt x (y # ys) = (if lt y x then y # insert_by lt x ys else x # y # ys)"

fun sort_slice :: "('a \<Rightarrow> 'a \<Rightarrow> bool) \<Rightarrow> 'a list \<Rightarrow> 'a list" where
  "sort_slice lt [] = []"
| "sort_slice lt (x # xs) = insert_by lt x (sort_slice lt xs)"

lemma mset_insert_by [simp]: "mset (insert_by lt x ys) = add_mset x (mset ys)"
  by (induction ys) auto

lemma mset_sort_slice [simp]: "mset (sort_slice lt xs) = mset xs"
  by (induction xs) auto

lemma set_sort_slice [simp]: "set (sort_slice lt xs) = set xs"
  by (metis mset_sort_slice set_mset_mset)

lemma length_sort_slice [simp]: "length (sort_slice lt xs) = length xs"
  by (metis mset_sort_slice size_mset)

lemma distinct_map_sort_slice [simp]: "distinct (map f (sort_slice lt xs)) = distinct (map f xs)"
  by (intro mset_eq_imp_distinct_iff) simp

definition sorted_by :: "('a \<Rightarrow> 'a \<Rightarrow> bool) \<Rightarrow> 'a list \<Rightarrow> bool" where
  "sorted_by lt = sorted_wrt (\<lambda>a b. \<not> lt b a)"

locale strict_weak_order =
  fixes lt :: "'a \<Rightarrow> 'a \<Rightarrow> bool"
  assumes irrefl: "\<not> lt x x"
    and trans: "lt x y \<Longrightarrow> lt y z \<Longrightarrow> lt x z"
    and between: "lt x z \<Longrightarrow> lt x y \<or> lt y z"
begin

lemma asym: "lt x y \<Longrightarrow> \<not> lt y x"
  using irrefl trans by blast

lemma not_lt_trans: "\<not> lt y x \<Longrightarrow> \<not> lt z y \<Longrightarrow> \<not> lt z x"
  using between by blast

lemma sorted_insert_by: "sorted_by lt ys \<Longrightarrow> sorted_by lt (insert_by lt x ys)"
proof (induction ys)
  case (Cons y ys)
  have set_ins: "set (insert_by lt x ys) = insert x (set ys)"
    by (metis mset_insert_by set_mset_add_mset_insert set_mset_mset)
  show ?case
  proof (cases "lt y x")
    case True
    then show ?thesis using Cons asym by (auto simp: sorted_by_def set_ins)
  next
    case False
    then show ?thesis using Cons not_lt_trans by (auto simp: sorted_by_def)
  qed
qed (simp add: sorted_by_def)

lemma sorted_sort_slice: "sorted_by lt (sort_slice lt xs)"
  by (induction xs) (auto simp: sorted_insert_by, simp add: sorted_by_def)

text \<open>A sorted list starts with elements nothing is below.\<close>

lemma sort_slice_head:
  assumes "sort_slice lt xs = y # ys" "x \<in> set xs"
  shows "\<not> lt x y"
proof -
  have "x \<in> set (y # ys)" using assms set_sort_slice [of lt xs] by simp
  then show ?thesis
    using sorted_sort_slice [of xs] assms(1) irrefl by (auto simp: sorted_by_def)
qed

lemma sorted_unique:
  assumes "mset xs = mset ys" "sorted_by lt xs" "sorted_by lt ys"
    and total: "\<And>a b. a \<in> set xs \<Longrightarrow> b \<in> set xs \<Longrightarrow> a \<noteq> b \<Longrightarrow> lt a b \<or> lt b a"
  shows "xs = ys"
  using assms
proof (induction xs arbitrary: ys)
  case Nil
  then show ?case by simp
next
  case (Cons x xs)
  then obtain y zs where ys: "ys = y # zs" by (cases ys) auto
  have "x = y"
  proof (rule ccontr)
    assume ne: "x \<noteq> y"
    have sets: "set (x # xs) = set ys" using Cons.prems(1) by (metis set_mset_mset)
    then have "y \<in> set xs" "x \<in> set zs" using ne ys by auto
    then have "\<not> lt y x" "\<not> lt x y" using Cons.prems(2,3) ys by (auto simp: sorted_by_def)
    then show False using Cons.prems(4) ne \<open>y \<in> set xs\<close> by auto
  qed
  moreover have "xs = zs"
  proof (rule Cons.IH)
    show "mset xs = mset zs" using Cons.prems(1) ys \<open>x = y\<close> by simp
    show "sorted_by lt xs" "sorted_by lt zs" using Cons.prems(2,3) ys by (auto simp: sorted_by_def)
    show "lt a b \<or> lt b a" if "a \<in> set xs" "b \<in> set xs" "a \<noteq> b" for a b
      using Cons.prems(4) that by simp
  qed
  ultimately show ?case using ys by simp
qed

lemma sort_slice_unique:
  assumes "mset xs = mset ys"
    and "\<And>a b. a \<in> set xs \<Longrightarrow> b \<in> set xs \<Longrightarrow> a \<noteq> b \<Longrightarrow> lt a b \<or> lt b a"
  shows "sort_slice lt xs = sort_slice lt ys"
  by (rule sorted_unique) (use assms sorted_sort_slice in auto)

lemma sort_slice_sorted:
  assumes "sorted_by lt xs"
    and "\<And>a b. a \<in> set xs \<Longrightarrow> b \<in> set xs \<Longrightarrow> a \<noteq> b \<Longrightarrow> lt a b \<or> lt b a"
  shows "sort_slice lt xs = xs"
  by (rule sorted_unique) (use assms sorted_sort_slice in auto)

end

end
