(* ===== verification/Retention.thy ===== *)
theory Retention
  imports Manifest GoSort
begin

section \<open>Retention: which backups a policy keeps\<close>

text \<open>
  The file \<open>pipeline/retention.go\<close> with the data of a listed backup (\<open>BackupState\<close> and \<open>BackupInfo\<close> of \<open>pipeline/list.go\<close>): validation of
  a policy and \<open>SelectRetention\<close>, which partitions the valid backups into those a
  grandfather-father-son policy keeps and those it drops. \<open>mark\<close> is the closure of that name:
  it walks the backups newest first and marks the newest of each of the first \<open>n\<close> buckets.
  \<open>marked\<close> says what that loop computes without the loop.
\<close>

subsection \<open>Backups\<close>

datatype backup_state =
    BackupValid | BackupOrphan | BackupDanglingManifest | BackupCorruptManifest | BackupUnsupportedSchema

definition backup_state_string :: "backup_state \<Rightarrow> string" where
  "backup_state_string s =
     (case s of BackupValid \<Rightarrow> ''valid'' | BackupOrphan \<Rightarrow> ''orphan''
      | BackupDanglingManifest \<Rightarrow> ''dangling-manifest'' | BackupCorruptManifest \<Rightarrow> ''corrupt-manifest''
      | BackupUnsupportedSchema \<Rightarrow> ''unsupported-schema'')"

record backup_info =
  bi_key :: string
  bi_manifest_key :: string
  bi_state :: backup_state
  bi_created_at :: gotime
  bi_bytes :: int
  bi_manifest :: "manifest option"

subsection \<open>Policies\<close>

record retention_policy =
  keep_daily :: int
  keep_weekly :: int
  keep_monthly :: int

definition max_keep :: int where "max_keep = 3650"

fun check_counters :: "(string \<times> int) list \<Rightarrow> goerr option" where
  "check_counters [] = None"
| "check_counters ((name, n) # vs) =
     (if n < 0 \<or> n > max_keep
      then Some (Errorf ''pipeline: retention policy: %s must be between 0 and %d, got %d'' [name, itoa max_keep, itoa n] None)
      else check_counters vs)"

definition validate_policy :: "retention_policy \<Rightarrow> goerr option" where
  "validate_policy p =
     (case check_counters [(''keep_daily'', keep_daily p), (''keep_weekly'', keep_weekly p),
        (''keep_monthly'', keep_monthly p)] of
        Some e \<Rightarrow> Some e
      | None \<Rightarrow>
          if keep_daily p = 0 \<and> keep_weekly p = 0 \<and> keep_monthly p = 0
          then Some (Errorf ''pipeline: retention policy keeps nothing: set at least one of keep_daily, keep_weekly, keep_monthly'' [] None)
          else None)"

subsection \<open>Selection\<close>

text \<open>The \<open>less\<close> of both sorts in the sources: newest first, then the larger key.\<close>

definition newer :: "backup_info \<Rightarrow> backup_info \<Rightarrow> bool" where
  "newer a b \<longleftrightarrow>
     (if bi_created_at a \<noteq> bi_created_at b then bi_created_at a > bi_created_at b
      else bi_key a > bi_key b)"

definition sorted_valid :: "backup_info list \<Rightarrow> backup_info list" where
  "sorted_valid backups = sort_slice newer (filter (\<lambda>b. bi_state b = BackupValid) backups)"

text \<open>The loop of \<open>mark\<close>: \<open>seen\<close> is the set of buckets met, \<open>keep\<close> the keys in \<open>keepSet\<close>.\<close>

fun mark_loop :: "int \<Rightarrow> (gotime \<Rightarrow> string) \<Rightarrow> string list \<Rightarrow> string list \<Rightarrow> backup_info list \<Rightarrow> string list" where
  "mark_loop n bucket seen keep [] = keep"
| "mark_loop n bucket seen keep (b # bs) =
     (let k = bucket (bi_created_at b) in
      if k \<in> set seen then mark_loop n bucket seen keep bs
      else let seen' = k # seen; keep' = bi_key b # keep in
           if int (length seen') = n then keep' else mark_loop n bucket seen' keep' bs)"

definition mark :: "int \<Rightarrow> (gotime \<Rightarrow> string) \<Rightarrow> backup_info list \<Rightarrow> string list \<Rightarrow> string list" where
  "mark n bucket valid keep = (if n \<le> 0 then keep else mark_loop n bucket [] keep valid)"

definition day_bucket :: "gotime \<Rightarrow> string" where
  "day_bucket t = format_date t"

definition week_bucket :: "gotime \<Rightarrow> string" where
  "week_bucket t = (case iso_week t of (y, w) \<Rightarrow> pad_int 4 y @ ''-W'' @ pad_int 2 w)"

definition month_bucket :: "gotime \<Rightarrow> string" where
  "month_bucket t = format_year_month t"

definition zero_policy :: "retention_policy \<Rightarrow> bool" where
  "zero_policy p \<longleftrightarrow> keep_daily p = 0 \<and> keep_weekly p = 0 \<and> keep_monthly p = 0"

definition keep_set :: "retention_policy \<Rightarrow> backup_info list \<Rightarrow> string list" where
  "keep_set p valid =
     mark (keep_monthly p) month_bucket valid
       (mark (keep_weekly p) week_bucket valid
         (mark (keep_daily p) day_bucket valid [bi_key (hd valid)]))"

definition select_retention :: "backup_info list \<Rightarrow> retention_policy \<Rightarrow> backup_info list \<times> backup_info list" where
  "select_retention backups p =
     (let valid = sorted_valid backups in
      if valid = [] then ([], [])
      else if zero_policy p then (valid, [])
      else let keep = keep_set p valid in
           (filter (\<lambda>b. bi_key b \<in> set keep) valid, filter (\<lambda>b. bi_key b \<notin> set keep) valid))"

subsection \<open>Sorting\<close>

interpretation newest_first: strict_weak_order newer
  by unfold_locales (auto simp: newer_def split: if_splits)

definition distinct_keys :: "backup_info list \<Rightarrow> bool" where
  "distinct_keys bs \<longleftrightarrow> distinct (map bi_key bs)"

text \<open>What a listing guarantees: its valid backups have keys of their own (dangling manifests
  all have the empty key).\<close>

definition distinct_valid :: "backup_info list \<Rightarrow> bool" where
  "distinct_valid bs \<longleftrightarrow> distinct_keys (filter (\<lambda>b. bi_state b = BackupValid) bs)"

lemma newer_total:
  assumes "distinct_keys bs" "a \<in> set bs" "b \<in> set bs" "a \<noteq> b"
  shows "newer a b \<or> newer b a"
proof -
  have "bi_key a \<noteq> bi_key b"
    using assms by (auto simp: distinct_keys_def distinct_map dest: inj_onD)
  then show ?thesis by (auto simp: newer_def)
qed

lemma set_sorted_valid [simp]: "set (sorted_valid bs) = {b \<in> set bs. bi_state b = BackupValid}"
  by (auto simp: sorted_valid_def)

lemma sorted_valid_sorted: "sorted_by newer (sorted_valid bs)"
  by (simp add: sorted_valid_def newest_first.sorted_sort_slice)

lemma distinct_sorted_valid: "distinct_valid bs \<Longrightarrow> distinct_keys (sorted_valid bs)"
  using mset_sort_slice [of newer "filter (\<lambda>b. bi_state b = BackupValid) bs"]
  by (metis distinct_keys_def distinct_valid_def sorted_valid_def mset_eq_imp_distinct_iff mset_map)

lemma sorted_valid_perm:
  assumes "distinct_valid bs" "mset bs = mset cs"
  shows "sorted_valid bs = sorted_valid cs"
  unfolding sorted_valid_def
proof (rule newest_first.sort_slice_unique)
  show "mset (filter (\<lambda>b. bi_state b = BackupValid) bs) = mset (filter (\<lambda>b. bi_state b = BackupValid) cs)"
    using assms(2) by (simp add: mset_filter)
qed (use newer_total [OF assms(1) [unfolded distinct_valid_def]] in auto)

subsection \<open>What mark computes\<close>

text \<open>The backups that are the first of their bucket, for the first \<open>n\<close> buckets of the list;
  \<open>seen\<close> are buckets met before.\<close>

fun marked :: "nat \<Rightarrow> (gotime \<Rightarrow> string) \<Rightarrow> string set \<Rightarrow> backup_info list \<Rightarrow> backup_info list" where
  "marked n bucket seen [] = []"
| "marked n bucket seen (b # bs) =
     (if bucket (bi_created_at b) \<in> seen then marked n bucket seen bs
      else case n of 0 \<Rightarrow> [] | Suc m \<Rightarrow> b # marked m bucket (insert (bucket (bi_created_at b)) seen) bs)"

lemma marked_0 [simp]: "marked 0 bucket seen bs = []"
  by (induction bs) auto

lemma mark_loop_marked:
  "distinct seen \<Longrightarrow> int (length seen) < n \<Longrightarrow>
   set (mark_loop n bucket seen keep bs)
     = set keep \<union> bi_key ` set (marked (nat n - length seen) bucket (set seen) bs)"
proof (induction bs arbitrary: seen keep)
  case (Cons b bs)
  let ?k = "bucket (bi_created_at b)"
  show ?case
  proof (cases "?k \<in> set seen")
    case True
    then show ?thesis using Cons by simp
  next
    case False
    obtain m where m: "nat n - length seen = Suc m" "m = nat n - length (?k # seen)"
      using Cons.prems(2) by (cases "nat n - length seen") auto
    show ?thesis
    proof (cases "int (length (?k # seen)) = n")
      case True
      then have "m = 0" using m by simp
      then show ?thesis using False True m by (simp add: Let_def)
    next
      case F: False
      then have "int (length (?k # seen)) < n" using Cons.prems(2) by simp
      then show ?thesis
        using Cons.IH [of "?k # seen" "bi_key b # keep"] Cons.prems(1) False F m by (simp add: Let_def)
    qed
  qed
qed simp

lemma set_mark:
  "set (mark n bucket bs keep) = set keep \<union> bi_key ` set (marked (nat n) bucket {} bs)"
  by (simp add: mark_def mark_loop_marked)

lemma marked_subset: "set (marked n bucket seen bs) \<subseteq> set bs"
proof (induction bs arbitrary: n seen)
  case (Cons b bs)
  then show ?case by (cases n) (simp_all add: subset_insertI2 insert_mono)
qed simp

text \<open>Marking sees nothing but the marked backups: what else is dropped changes no mark.\<close>

lemma marked_filter:
  "set (marked n bucket seen bs) \<subseteq> {b. P b} \<Longrightarrow> marked n bucket seen (filter P bs) = marked n bucket seen bs"
proof (induction bs arbitrary: n seen)
  case (Cons b bs)
  show ?case
  proof (cases "bucket (bi_created_at b) \<in> seen")
    case True
    then show ?thesis using Cons by auto
  next
    case False
    then show ?thesis using Cons by (cases n) auto
  qed
qed simp

text \<open>The marked backups by position: first of their bucket, at most \<open>n - 1\<close> buckets before.\<close>

lemma marked_iff:
  "distinct bs \<Longrightarrow> finite seen \<Longrightarrow>
   b \<in> set (marked n bucket seen bs) \<longleftrightarrow>
   (\<exists>us vs. bs = us @ b # vs \<and> bucket (bi_created_at b) \<notin> seen \<union> (\<lambda>b. bucket (bi_created_at b)) ` set us
      \<and> card ((\<lambda>b. bucket (bi_created_at b)) ` set us - seen) < n)"
  (is "_ \<Longrightarrow> _ \<Longrightarrow> _ \<longleftrightarrow> ?R n seen bs")
proof (induction bs arbitrary: n seen)
  case (Cons a bs)
  let ?f = "\<lambda>b. bucket (bi_created_at b)"
  have split: "?R n seen (a # bs) \<longleftrightarrow>
      (b = a \<and> ?f b \<notin> seen \<and> 0 < n) \<or>
      (b \<noteq> a \<and> (\<exists>us vs. bs = us @ b # vs \<and> ?f b \<notin> seen \<union> ?f ` set (a # us)
         \<and> card (?f ` set (a # us) - seen) < n))" (is "_ \<longleftrightarrow> ?A \<or> ?B")
  proof
    assume "?R n seen (a # bs)"
    then obtain us vs where *: "a # bs = us @ b # vs" "?f b \<notin> seen \<union> ?f ` set us"
      "card (?f ` set us - seen) < n" by blast
    show "?A \<or> ?B"
    proof (cases us)
      case Nil
      then show ?thesis using * by simp
    next
      case (Cons u us')
      then have "b \<noteq> a" using * Cons.prems(1) \<open>distinct (a # bs)\<close> by auto
      then show ?thesis using * Cons by auto
    qed
  next
    assume "?A \<or> ?B"
    then show "?R n seen (a # bs)"
    proof
      assume ?A
      then have "a # bs = [] @ b # bs" "?f b \<notin> seen \<union> ?f ` set []" "card (?f ` set [] - seen) < n"
        by auto
      then show ?thesis by blast
    next
      assume ?B
      then obtain us vs where "bs = us @ b # vs" "?f b \<notin> seen \<union> ?f ` set (a # us)"
         "card (?f ` set (a # us) - seen) < n" by blast
      then show ?thesis by (intro exI [of _ "a # us"] exI [of _ vs]) simp
    qed
  qed
  show ?case
  proof (cases "?f a \<in> seen")
    case True
    have eq: "?f ` set (a # us) - seen = ?f ` set us - seen" "seen \<union> ?f ` set (a # us) = seen \<union> ?f ` set us"
      for us using True by auto
    have "a \<notin> set (marked n bucket seen bs)"
      using marked_subset [of n bucket seen bs] Cons.prems(1) by auto
    then show ?thesis
      unfolding split eq using True Cons.IH [of seen n] Cons.prems by (cases "b = a") simp_all
  next
    case False
    show ?thesis
    proof (cases n)
      case 0
      then show ?thesis unfolding split by simp
    next
      case (Suc m)
      let ?seen = "insert (?f a) seen"
      have card: "card (?f ` set (a # us) - seen) = Suc (card (?f ` set us - ?seen))" for us
      proof -
        have "?f ` set (a # us) - seen = insert (?f a) (?f ` set us - ?seen)" using False by auto
        then show ?thesis by simp
      qed
      have "a \<notin> set (marked m bucket ?seen bs)"
        using marked_subset [of m bucket ?seen bs] Cons.prems(1) by auto
      then show ?thesis
        unfolding split card unfolding Suc using False Cons.IH [of ?seen m] Cons.prems
        by (cases "b = a") auto
    qed
  qed
qed simp

subsection \<open>The specification of a policy\<close>

text \<open>
  Without a list and a loop: of the valid backups \<open>vs\<close>, one dimension of the policy keeps \<open>b\<close>
  if no newer backup is in its bucket and fewer than \<open>n\<close> buckets have newer backups.
\<close>

definition gfs_keeps :: "int \<Rightarrow> (gotime \<Rightarrow> string) \<Rightarrow> backup_info set \<Rightarrow> backup_info \<Rightarrow> bool" where
  "gfs_keeps n bucket vs b \<longleftrightarrow>
     (\<forall>c \<in> vs. newer c b \<longrightarrow> bucket (bi_created_at c) \<noteq> bucket (bi_created_at b))
     \<and> int (card ((\<lambda>c. bucket (bi_created_at c)) ` {c \<in> vs. newer c b})) < n"

definition newest_in :: "backup_info set \<Rightarrow> backup_info \<Rightarrow> bool" where
  "newest_in vs b \<longleftrightarrow> b \<in> vs \<and> (\<forall>c \<in> vs. \<not> newer c b)"

definition policy_keeps :: "retention_policy \<Rightarrow> backup_info set \<Rightarrow> backup_info \<Rightarrow> bool" where
  "policy_keeps p vs b \<longleftrightarrow>
     b \<in> vs \<and> (newest_in vs b \<or> gfs_keeps (keep_daily p) day_bucket vs b
       \<or> gfs_keeps (keep_weekly p) week_bucket vs b \<or> gfs_keeps (keep_monthly p) month_bucket vs b)"

definition valid_of :: "backup_info list \<Rightarrow> backup_info set" where
  "valid_of bs = {b \<in> set bs. bi_state b = BackupValid}"

lemma sorted_before:
  assumes "sorted_by newer (us @ b # vs)" "distinct_keys (us @ b # vs)"
  shows "{c \<in> set (us @ b # vs). newer c b} = set us"
proof -
  have "newer c b" if "c \<in> set us" for c
  proof -
    have "\<not> newer b c" using assms(1) that by (auto simp: sorted_by_def sorted_wrt_append)
    moreover have "c \<noteq> b" using assms(2) that by (auto simp: distinct_keys_def)
    ultimately show ?thesis using newer_total [OF assms(2), of c b] that by auto
  qed
  moreover have "\<not> newer c b" if "c \<in> set (b # vs)" for c
    using assms(1) that newest_first.irrefl by (auto simp: sorted_by_def sorted_wrt_append)
  ultimately show ?thesis by auto
qed

lemma marked_gfs:
  assumes "sorted_by newer bs" "distinct_keys bs" "b \<in> set bs"
  shows "b \<in> set (marked (nat n) bucket {} bs) \<longleftrightarrow> gfs_keeps n bucket (set bs) b"
proof -
  have dist: "distinct bs" using assms(2) by (simp add: distinct_keys_def distinct_map)
  obtain us vs where bs: "bs = us @ b # vs" using assms(3) by (auto simp: in_set_conv_decomp)
  have newer: "{c \<in> set bs. newer c b} = set us"
    using sorted_before [of us b vs] assms(1,2) bs by simp
  have "us' = us" if "bs = us' @ b # vs'" for us' vs'
  proof -
    have "b \<notin> set us" "b \<notin> set vs" using dist unfolding bs by auto
    moreover have "us @ b # vs = us' @ b # vs'" using that unfolding bs .
    ultimately show ?thesis by (simp add: append_Cons_eq_iff)
  qed
  then have "(\<exists>us vs. bs = us @ b # vs \<and> P us) \<longleftrightarrow> P us" for P using bs by blast
  then have "b \<in> set (marked (nat n) bucket {} bs) \<longleftrightarrow>
      bucket (bi_created_at b) \<notin> (\<lambda>b. bucket (bi_created_at b)) ` set us
      \<and> card ((\<lambda>b. bucket (bi_created_at b)) ` set us) < nat n"
    using marked_iff [OF dist, of "{}" b "nat n" bucket] by simp
  moreover have "card X < nat n \<longleftrightarrow> int (card X) < n" for X :: "string set" by linarith
  moreover have "bucket (bi_created_at b) \<notin> (\<lambda>b. bucket (bi_created_at b)) ` set us \<longleftrightarrow>
      (\<forall>c \<in> set bs. newer c b \<longrightarrow> bucket (bi_created_at c) \<noteq> bucket (bi_created_at b))"
    unfolding newer [symmetric] by (auto simp: image_iff)
  ultimately show ?thesis unfolding gfs_keeps_def newer by simp
qed

lemma key_in_marked:
  assumes "distinct_keys bs" "b \<in> set bs"
  shows "bi_key b \<in> bi_key ` set (marked n bucket {} bs) \<longleftrightarrow> b \<in> set (marked n bucket {} bs)"
  using assms marked_subset [of n bucket "{}" bs]
  by (auto simp: distinct_keys_def distinct_map inj_on_def)

lemma set_keep_set:
  "set (keep_set p vs) = insert (bi_key (hd vs))
     (bi_key ` (set (marked (nat (keep_daily p)) day_bucket {} vs)
        \<union> set (marked (nat (keep_weekly p)) week_bucket {} vs)
        \<union> set (marked (nat (keep_monthly p)) month_bucket {} vs)))"
  by (auto simp: keep_set_def set_mark)

lemma hd_newest:
  assumes "sorted_by newer vs" "vs \<noteq> []"
  shows "newest_in (set vs) (hd vs)"
  using assms newest_first.irrefl by (cases vs) (auto simp: newest_in_def sorted_by_def)

lemma newest_unique:
  assumes "distinct_keys vs" "newest_in (set vs) a" "newest_in (set vs) b"
  shows "a = b"
  using assms newer_total [OF assms(1), of a b] by (auto simp: newest_in_def)

lemma key_kept_iff:
  assumes "distinct_keys vs" "sorted_by newer vs" "b \<in> set vs"
  shows "bi_key b \<in> set (keep_set p vs) \<longleftrightarrow> policy_keeps p (set vs) b"
proof -
  have "vs \<noteq> []" using assms(3) by auto
  then have "bi_key b = bi_key (hd vs) \<longleftrightarrow> newest_in (set vs) b"
    using hd_newest [OF assms(2)] newest_unique [OF assms(1)] assms(1,3)
    by (metis distinct_keys_def distinct_map hd_in_set inj_onD)
  then show ?thesis
    using assms key_in_marked [OF assms(1,3)] marked_gfs [OF assms(2,1,3)]
    by (simp add: set_keep_set image_Un policy_keeps_def)
qed

lemma select_retention_parts:
  assumes "select_retention bs p = (kept, gone)"
  shows "set kept \<union> set gone = valid_of bs"
    "mset kept + mset gone = mset (filter (\<lambda>b. bi_state b = BackupValid) bs)"
    "sorted_by newer kept"
proof -
  have m: "mset (sorted_valid bs) = mset (filter (\<lambda>b. bi_state b = BackupValid) bs)"
    by (simp add: sorted_valid_def)
  have s: "sorted_by newer (filter P (sorted_valid bs))" for P
    using sorted_valid_sorted [of bs] by (simp add: sorted_by_def sorted_wrt_filter)
  consider "sorted_valid bs = []" "kept = []" "gone = []"
    | "kept = sorted_valid bs" "gone = []"
    | "kept = filter (\<lambda>b. bi_key b \<in> set (keep_set p (sorted_valid bs))) (sorted_valid bs)"
      "gone = filter (\<lambda>b. bi_key b \<notin> set (keep_set p (sorted_valid bs))) (sorted_valid bs)"
    using assms by (auto simp: select_retention_def Let_def split: if_splits)
  then have "mset kept + mset gone = mset (sorted_valid bs) \<and> sorted_by newer kept"
  proof cases
    case 3
    then show ?thesis using s multiset_partition [of "mset (sorted_valid bs)"] by simp
  qed (use s [of "\<lambda>_. True"] in \<open>simp_all add: sorted_by_def\<close>)
  then show "mset kept + mset gone = mset (filter (\<lambda>b. bi_state b = BackupValid) bs)" "sorted_by newer kept"
    using m by auto
  from this(1) have "set_mset (mset kept + mset gone) = set_mset (mset (filter (\<lambda>b. bi_state b = BackupValid) bs))"
    by (rule arg_cong)
  then show "set kept \<union> set gone = valid_of bs" by (auto simp: valid_of_def)
qed

lemma select_retention_kept:
  assumes "distinct_valid bs" "\<not> zero_policy p"
  shows "fst (select_retention bs p) = filter (policy_keeps p (valid_of bs)) (sorted_valid bs)"
    and "snd (select_retention bs p) = filter (\<lambda>b. \<not> policy_keeps p (valid_of bs) b) (sorted_valid bs)"
proof -
  have "bi_key b \<in> set (keep_set p (sorted_valid bs)) \<longleftrightarrow> policy_keeps p (valid_of bs) b"
    if "b \<in> set (sorted_valid bs)" for b
    using key_kept_iff [OF distinct_sorted_valid [OF assms(1)] sorted_valid_sorted that]
    by (simp add: valid_of_def)
  then show "fst (select_retention bs p) = filter (policy_keeps p (valid_of bs)) (sorted_valid bs)"
    "snd (select_retention bs p) = filter (\<lambda>b. \<not> policy_keeps p (valid_of bs) b) (sorted_valid bs)"
    using assms(2) by (auto simp: select_retention_def Let_def intro!: filter_cong)
qed

lemma newest_not_dropped:
  assumes "select_retention bs p = (kept, gone)" "b \<in> set gone" "distinct_valid bs"
  shows "\<not> newest_in (valid_of bs) b"
proof
  let ?v = "sorted_valid bs"
  assume newest: "newest_in (valid_of bs) b"
  have ne: "?v \<noteq> []" and b: "b \<in> set ?v" "bi_key b \<notin> set (keep_set p ?v)"
    using assms(1,2) by (auto simp: select_retention_def Let_def split: if_splits)
  have "newest_in (set ?v) (hd ?v)" using hd_newest [OF sorted_valid_sorted ne] .
  then have "hd ?v = b"
    using newest_unique [OF distinct_sorted_valid [OF assms(3)]] newest by (simp add: valid_of_def)
  then show False using b by (simp add: set_keep_set)
qed

lemma validated_not_zero: "validate_policy p = None \<Longrightarrow> \<not> zero_policy p"
  by (auto simp: validate_policy_def zero_policy_def split: option.splits if_splits)

subsection \<open>Properties\<close>

text \<open>A sample listing for the concrete instances: three backups on two days, not in order.\<close>

definition sample_backup :: "string \<Rightarrow> int \<Rightarrow> int \<Rightarrow> backup_info" where
  "sample_backup k day ns = \<lparr> bi_key = k, bi_manifest_key = k @ ''.m'', bi_state = BackupValid,
     bi_created_at = day * 86400 * second + ns, bi_bytes = 1, bi_manifest = None \<rparr>"

definition sample_listing :: "backup_info list" where
  "sample_listing = [sample_backup ''a'' 739000 0, sample_backup ''c'' 739001 5, sample_backup ''b'' 739001 0]"

definition sample_policy :: retention_policy where
  "sample_policy = \<lparr> keep_daily = 1, keep_weekly = 0, keep_monthly = 0 \<rparr>"

lemma sample_distinct: "distinct_valid sample_listing" by code_simp

lemma sample_valid: "valid_of sample_listing \<noteq> {}" by code_simp

lemma sample_validated: "validate_policy sample_policy = None" by code_simp

lemma sample_selected:
  "select_retention sample_listing sample_policy
     = ([sample_backup ''c'' 739001 5], [sample_backup ''b'' 739001 0, sample_backup ''a'' 739000 0])"
  by code_simp

text \<open>C36: \<open>SelectRetention\<close> computes the grandfather-father-son specification: a validated policy
  keeps a valid backup exactly if it is the newest of all, or is the newest of its day, ISO
  week or month and fewer than the policy's number of days, weeks or months have newer
  backups; everything else that is valid is dropped, and nothing that is not valid is in
  either list.\<close>

theorem select_retention_spec:
  assumes "distinct_valid bs" "validate_policy p = None" "select_retention bs p = (kept, dropped)"
  shows "(b \<in> set kept \<longleftrightarrow> policy_keeps p (valid_of bs) b)
    \<and> (b \<in> set dropped \<longleftrightarrow> b \<in> valid_of bs \<and> \<not> policy_keeps p (valid_of bs) b)"
  using select_retention_kept [OF assms(1) validated_not_zero [OF assms(2)]] assms(3)
  by (auto simp: policy_keeps_def valid_of_def)

theorem select_retention_spec_witness:
  "policy_keeps sample_policy (valid_of sample_listing) (sample_backup ''c'' 739001 5)
   \<and> \<not> policy_keeps sample_policy (valid_of sample_listing) (sample_backup ''b'' 739001 0)"
  using select_retention_spec [OF sample_distinct sample_validated sample_selected, of "sample_backup ''c'' 739001 5"]
    select_retention_spec [OF sample_distinct sample_validated sample_selected, of "sample_backup ''b'' 739001 0"]
  by simp

text \<open>A retention pass never drops the last valid backup, under any policy, validated or not:
  the two lists partition the valid backups, no key is both kept and dropped, and the
  newest valid backup is the first of the kept ones.\<close>

theorem retention_keeps_newest:
  assumes "select_retention bs p = (kept, dropped)"
  shows "mset kept + mset dropped = mset (filter (\<lambda>b. bi_state b = BackupValid) bs)
    \<and> bi_key ` set kept \<inter> bi_key ` set dropped = {}
    \<and> (valid_of bs \<noteq> {} \<longrightarrow> kept \<noteq> [] \<and> newest_in (valid_of bs) (hd kept))"
proof -
  let ?v = "sorted_valid bs"
  have v: "set ?v = valid_of bs" by (simp add: valid_of_def)
  have newest: "newest_in (valid_of bs) (hd ?v)" if "?v \<noteq> []"
    using hd_newest [OF sorted_valid_sorted that] v by simp
  consider "?v = []" "kept = []" "dropped = []" | "?v \<noteq> []" "kept = ?v" "dropped = []"
    | "?v \<noteq> []" "kept = filter (\<lambda>b. bi_key b \<in> set (keep_set p ?v)) ?v"
      "dropped = filter (\<lambda>b. bi_key b \<notin> set (keep_set p ?v)) ?v"
    using assms by (auto simp: select_retention_def Let_def split: if_splits)
  then have "bi_key ` set kept \<inter> bi_key ` set dropped = {}
      \<and> (valid_of bs \<noteq> {} \<longrightarrow> kept \<noteq> [] \<and> newest_in (valid_of bs) (hd kept))"
  proof cases
    case 1
    then show ?thesis using v by auto
  next
    case 2
    then show ?thesis using newest by simp
  next
    case 3
    then obtain x xs where x: "?v = x # xs" by (cases ?v) auto
    have "bi_key x \<in> set (keep_set p ?v)" by (simp add: set_keep_set x)
    then have "kept \<noteq> [] \<and> hd kept = hd ?v" using 3 x by simp
    then show ?thesis using 3 newest by auto
  qed
  then show ?thesis using select_retention_parts(2) [OF assms] by simp
qed

theorem retention_keeps_newest_witness:
  "newest_in (valid_of sample_listing) (sample_backup ''c'' 739001 5)"
  using retention_keeps_newest [OF sample_selected] sample_valid by simp

text \<open>The outcome depends on the set of backups alone, not on the order the listing returned
  them in.\<close>

theorem select_retention_order_independent:
  assumes "distinct_valid bs" "mset bs = mset cs"
  shows "select_retention bs p = select_retention cs p"
  using sorted_valid_perm [OF assms] by (simp add: select_retention_def)

theorem select_retention_order_independent_witness:
  "select_retention (rev sample_listing) sample_policy
     = ([sample_backup ''c'' 739001 5], [sample_backup ''b'' 739001 0, sample_backup ''a'' 739000 0])"
  using select_retention_order_independent [OF sample_distinct, of "rev sample_listing" sample_policy] sample_selected
  by simp

text \<open>Retention is idempotent: a second pass over what the first one kept drops nothing, so
  that the passage of time alone, without a new backup, never deletes anything.\<close>

theorem select_retention_idempotent:
  assumes "distinct_valid bs" "select_retention bs p = (kept, dropped)"
  shows "select_retention kept p = (kept, [])"
proof -
  have valid: "\<forall>b \<in> set kept. bi_state b = BackupValid"
    using select_retention_parts(1) [OF assms(2)] by (auto simp: valid_of_def)
  let ?v = "sorted_valid bs"
  let ?K = "\<lambda>b. bi_key b \<in> set (keep_set p ?v)"
  have dk: "distinct_keys kept"
    using distinct_sorted_valid [OF assms(1)] assms(2)
    by (auto simp: select_retention_def Let_def distinct_keys_def distinct_map_filter split: if_splits)
  have sk: "sorted_valid kept = kept"
    unfolding sorted_valid_def using valid newer_total [OF dk] select_retention_parts(3) [OF assms(2)]
    by (simp add: newest_first.sort_slice_sorted)
  show ?thesis
  proof (cases "zero_policy p \<or> ?v = []")
    case True
    then show ?thesis using assms(2) sk by (auto simp: select_retention_def Let_def split: if_splits)
  next
    case False
    then have k: "kept = filter ?K ?v" using assms(2) by (auto simp: select_retention_def Let_def)
    obtain x xs where x: "?v = x # xs" using False by (cases ?v) auto
    have hd: "hd kept = hd ?v" "kept \<noteq> []" unfolding k x by (simp_all add: set_keep_set)
    have "set (marked (nat (keep_daily p)) day_bucket {} ?v) \<subseteq> {b. ?K b}"
      "set (marked (nat (keep_weekly p)) week_bucket {} ?v) \<subseteq> {b. ?K b}"
      "set (marked (nat (keep_monthly p)) month_bucket {} ?v) \<subseteq> {b. ?K b}"
      by (auto simp: set_keep_set)
    note m = this [THEN marked_filter, folded k]
    have "set (keep_set p kept) = set (keep_set p ?v)"
      unfolding set_keep_set [of p kept] set_keep_set [of p ?v] hd(1) m ..
    then have "\<forall>b \<in> set kept. bi_key b \<in> set (keep_set p kept)" by (auto simp: k)
    then show ?thesis
      using False hd(2) sk by (simp add: select_retention_def Let_def filter_id_conv filter_empty_conv)
  qed
qed

theorem select_retention_idempotent_witness:
  "select_retention [sample_backup ''c'' 739001 5] sample_policy = ([sample_backup ''c'' 739001 5], [])"
  by (rule select_retention_idempotent [OF sample_distinct sample_selected])

lemma card_marked: "card (set (marked n bucket seen bs)) \<le> n"
proof -
  have "length (marked n bucket seen bs) \<le> n"
  proof (induction bs arbitrary: n seen)
    case (Cons b bs)
    then show ?case by (cases n) auto
  qed simp
  then show ?thesis using card_length le_trans by blast
qed

lemma marked_head: "0 < n \<Longrightarrow> vs \<noteq> [] \<Longrightarrow> hd vs \<in> set (marked n bucket {} vs)"
  by (cases vs; cases n) auto

text \<open>A validated policy keeps at most as many backups as its counters add up to.\<close>

theorem retention_kept_bound:
  assumes "distinct_valid bs" "validate_policy p = None"
  shows "int (length (fst (select_retention bs p))) \<le> keep_daily p + keep_weekly p + keep_monthly p"
proof -
  let ?v = "sorted_valid bs"
  let ?M = "\<lambda>n f. set (marked (nat n) f {} ?v)"
  let ?U = "?M (keep_daily p) day_bucket \<union> ?M (keep_weekly p) week_bucket \<union> ?M (keep_monthly p) month_bucket"
  have nonneg: "0 \<le> keep_daily p" "0 \<le> keep_weekly p" "0 \<le> keep_monthly p"
    using assms(2) by (auto simp: validate_policy_def split: option.splits if_splits)
  have nz: "\<not> zero_policy p" using validated_not_zero [OF assms(2)] .
  show ?thesis
  proof (cases "?v = []")
    case False
    then have k: "fst (select_retention bs p) = filter (\<lambda>b. bi_key b \<in> set (keep_set p ?v)) ?v"
      using nz by (simp add: select_retention_def Let_def)
    have "hd ?v \<in> ?U"
      using marked_head [OF _ False] nonneg nz unfolding zero_policy_def
      by (metis UnCI nless_le zero_less_nat_eq)
    then have keys: "set (keep_set p ?v) = bi_key ` ?U" unfolding set_keep_set by blast
    have sub: "?U \<subseteq> set ?v" using marked_subset by blast
    have inj: "inj_on bi_key (set ?v)"
      using distinct_sorted_valid [OF assms(1)] by (simp add: distinct_keys_def distinct_map)
    have "set (filter (\<lambda>b. bi_key b \<in> set (keep_set p ?v)) ?v) \<subseteq> ?U"
      unfolding keys using inj_on_image_mem_iff [OF inj _ sub] by auto
    then have "card (set (fst (select_retention bs p))) \<le> card ?U"
      unfolding k by (intro card_mono) auto
    also have "\<dots> \<le> card (?M (keep_daily p) day_bucket) + card (?M (keep_weekly p) week_bucket)
        + card (?M (keep_monthly p) month_bucket)"
      by (meson add_le_mono card_Un_le le_refl le_trans)
    also have "\<dots> \<le> nat (keep_daily p) + nat (keep_weekly p) + nat (keep_monthly p)"
      by (intro add_mono card_marked)
    finally have "card (set (fst (select_retention bs p))) \<le> nat (keep_daily p + keep_weekly p + keep_monthly p)"
      using nonneg by (simp add: nat_add_distrib)
    moreover have "distinct (fst (select_retention bs p))"
      using distinct_sorted_valid [OF assms(1)] unfolding k by (simp add: distinct_keys_def distinct_map)
    ultimately show ?thesis using nonneg by (simp add: distinct_card)
  qed (use nonneg in \<open>simp add: select_retention_def\<close>)
qed

theorem retention_kept_bound_witness:
  "length (fst (select_retention sample_listing sample_policy)) \<le> 1"
  using retention_kept_bound [OF sample_distinct sample_validated] by (simp add: sample_policy_def)

end
