(* ===== verification/Listing.thy ===== *)
theory Listing
  imports Retention
begin

section \<open>Listing: what a bucket holds of one database\<close>

text \<open>
  The file \<open>pipeline/list.go\<close>. The object store is the record \<open>object_api\<close> of the three
  operations of \<open>s3ObjectAPI\<close>: each answers from the calls made before it, so that a store
  with any content, any failure and any writer beside the program is a value of it; the calls
  a run makes are its trace. \<open>api_list\<close> gives the answers of the SDK's paginator in their
  order, \<open>api_get\<close> the body of an object with the errors of reading and closing it.
  The lemmas show what makes an entry of a listing trustworthy and that a listing has one
  entry for every artifact in the bucket.
\<close>

subsection \<open>The object store\<close>

datatype s3_call = ListCall string string | GetCall string string | DeleteCall string "string list"

type_synonym trace = "s3_call list"

record listed_object =
  lo_key :: string
  lo_size :: int

record object_body =
  ob_content :: string
  ob_read_err :: "goerr option"
  ob_close_err :: "goerr option"

record delete_error =
  de_key :: string
  de_code :: string
  de_message :: string

record object_api =
  api_list :: "trace \<Rightarrow> string \<Rightarrow> string \<Rightarrow> (goerr + listed_object list) list"
  api_get :: "trace \<Rightarrow> string \<Rightarrow> string \<Rightarrow> goerr + object_body"
  api_delete :: "trace \<Rightarrow> string \<Rightarrow> string list \<Rightarrow> goerr + delete_error list"

text \<open>\<open>io.ReadAll\<close> of a body behind an \<open>io.LimitReader\<close>: a read error behind the limit is not met.\<close>

fun take_bytes :: "int \<Rightarrow> string \<Rightarrow> string" where
  "take_bytes n [] = []"
| "take_bytes n (c # cs) = (if n \<le> 0 then [] else c # take_bytes (n - 1) cs)"

definition read_limited :: "int \<Rightarrow> object_body \<Rightarrow> string \<times> goerr option" where
  "read_limited n body =
     (take_bytes n (ob_content body), if int (length (ob_content body)) \<ge> n then None else ob_read_err body)"

definition first_err :: "goerr option list \<Rightarrow> goerr" where
  "first_err errs =
     (case filter (\<lambda>e. e \<noteq> None) errs of Some e # _ \<Rightarrow> e | _ \<Rightarrow> Errorf ''unknown error'' [] None)"

subsection \<open>Owners\<close>

record scope_owner =
  so_engine :: string
  so_cluster :: string
  so_database :: string

definition owner_matches :: "scope_owner option \<Rightarrow> manifest \<Rightarrow> bool" where
  "owner_matches owner m \<longleftrightarrow>
     (case owner of None \<Rightarrow> True
      | Some o' \<Rightarrow> mf_engine m = so_engine o' \<and> mf_cluster m = so_cluster o' \<and> mf_database m = so_database o')"

subsection \<open>Pairing artifacts\<close>

record artifacts =
  ar_cipher_key :: string
  ar_cipher_bytes :: int
  ar_manifest_key :: string
  ar_manifest_len :: int

definition no_artifacts :: artifacts where
  "no_artifacts = \<lparr>ar_cipher_key = [], ar_cipher_bytes = 0, ar_manifest_key = [], ar_manifest_len = 0\<rparr>"

definition artifact_stem :: "string \<Rightarrow> string option" where
  "artifact_stem key =
     (if has_suffix key ciphertext_suffix then Some (trim_suffix key ciphertext_suffix)
      else if has_suffix key manifest_suffix then Some (trim_suffix key manifest_suffix)
      else None)"

definition note_artifact :: "listed_object \<Rightarrow> artifacts \<Rightarrow> artifacts" where
  "note_artifact obj a =
     (if has_suffix (lo_key obj) ciphertext_suffix
      then a\<lparr>ar_cipher_key := lo_key obj, ar_cipher_bytes := lo_size obj\<rparr>
      else a\<lparr>ar_manifest_key := lo_key obj, ar_manifest_len := lo_size obj\<rparr>)"

text \<open>The map \<open>pairs\<close> with its stems in the order of \<open>order\<close>, that of their first artifact.\<close>

fun update_pair :: "string \<Rightarrow> (artifacts \<Rightarrow> artifacts) \<Rightarrow> (string \<times> artifacts) list \<Rightarrow> (string \<times> artifacts) list" where
  "update_pair stem f [] = [(stem, f no_artifacts)]"
| "update_pair stem f ((s, a) # ps) = (if s = stem then (s, f a) # ps else (s, a) # update_pair stem f ps)"

definition note_object :: "listed_object \<Rightarrow> (string \<times> artifacts) list \<Rightarrow> (string \<times> artifacts) list" where
  "note_object obj pairs =
     (case artifact_stem (lo_key obj) of
        None \<Rightarrow> pairs
      | Some stem \<Rightarrow> update_pair stem (note_artifact obj) pairs)"

fun collect_pages :: "string \<Rightarrow> string \<Rightarrow> (goerr + listed_object list) list \<Rightarrow> (string \<times> artifacts) list
    \<Rightarrow> goerr + (string \<times> artifacts) list" where
  "collect_pages bucket scope [] pairs = Inr pairs"
| "collect_pages bucket scope (Inl e # ps) pairs =
     Inl (classify KindUpload ''pipeline: list backups under s3://%s/%s: %w'' [bucket, scope] (Some e))"
| "collect_pages bucket scope (Inr contents # ps) pairs =
     collect_pages bucket scope ps (fold note_object contents pairs)"

subsection \<open>Reading manifests\<close>

definition max_manifest_bytes :: int where
  "max_manifest_bytes = 1048576"

definition created_at_from_stem :: "string \<Rightarrow> gotime" where
  "created_at_from_stem stem =
     (case cut ''-'' (path_base stem) of
        None \<Rightarrow> zero_time
      | Some (ts, _) \<Rightarrow> (case parse_compact ts of None \<Rightarrow> zero_time | Some t \<Rightarrow> t))"

text \<open>The verdict on a manifest that was fetched, and the fetching.\<close>

definition judge_manifest :: "scope_owner option \<Rightarrow> string \<Rightarrow> backup_info \<Rightarrow> backup_info" where
  "judge_manifest owner body info =
     (case manifest_unmarshal body of
        None \<Rightarrow> info\<lparr>bi_state := BackupCorruptManifest\<rparr>
      | Some m \<Rightarrow>
          if mf_key_schema m > key_schema_version then info\<lparr>bi_state := BackupUnsupportedSchema\<rparr>
          else (case parse_rfc3339 (mf_created_at m) of
              None \<Rightarrow> info\<lparr>bi_state := BackupCorruptManifest\<rparr>
            | Some created \<Rightarrow>
                if mf_key_schema m \<noteq> key_schema_version \<or> mf_object m \<noteq> bi_key info
                   \<or> mf_backup_id m = [] \<or> \<not> owner_matches owner m
                then info\<lparr>bi_state := BackupCorruptManifest\<rparr>
                else info\<lparr>bi_created_at := created, bi_state := BackupValid, bi_manifest := Some m\<rparr>))"

definition read_manifest :: "object_api \<Rightarrow> string \<Rightarrow> string \<Rightarrow> string \<Rightarrow> int \<Rightarrow> scope_owner option \<Rightarrow> trace
    \<Rightarrow> (goerr + backup_info) \<times> trace" where
  "read_manifest api bucket cipherKey manifestKey len owner tr =
     (let info = \<lparr>bi_key = cipherKey, bi_manifest_key = manifestKey, bi_state = BackupValid,
                  bi_created_at = created_at_from_stem (trim_suffix cipherKey ciphertext_suffix),
                  bi_bytes = 0, bi_manifest = None\<rparr>;
          failed = (\<lambda>e. classify KindUpload ''pipeline: read manifest s3://%s/%s: %w'' [bucket, manifestKey] (Some e)) in
      if len > max_manifest_bytes then (Inr (info\<lparr>bi_state := BackupCorruptManifest\<rparr>), tr)
      else let tr' = tr @ [GetCall bucket manifestKey] in
        case api_get api tr bucket manifestKey of
          Inl e \<Rightarrow> (Inl (failed e), tr')
        | Inr out \<Rightarrow>
            (case read_limited max_manifest_bytes out of
               (body, err) \<Rightarrow>
                 if err \<noteq> None \<or> ob_close_err out \<noteq> None
                 then (Inl (failed (first_err [err, ob_close_err out])), tr')
                 else (Inr (judge_manifest owner body info), tr')))"

subsection \<open>The listing\<close>

definition pair_info :: "object_api \<Rightarrow> string \<Rightarrow> scope_owner option \<Rightarrow> string \<times> artifacts \<Rightarrow> trace
    \<Rightarrow> (goerr + backup_info) \<times> trace" where
  "pair_info api bucket owner sa tr =
     (case sa of (stem, a) \<Rightarrow>
        if ar_cipher_key a = [] then
          (Inr \<lparr>bi_key = [], bi_manifest_key = ar_manifest_key a, bi_state = BackupDanglingManifest,
                bi_created_at = created_at_from_stem stem, bi_bytes = 0, bi_manifest = None\<rparr>, tr)
        else if ar_manifest_key a = [] then
          (Inr \<lparr>bi_key = ar_cipher_key a, bi_manifest_key = [], bi_state = BackupOrphan,
                bi_created_at = created_at_from_stem stem, bi_bytes = ar_cipher_bytes a, bi_manifest = None\<rparr>, tr)
        else
          (case read_manifest api bucket (ar_cipher_key a) (ar_manifest_key a) (ar_manifest_len a) owner tr of
             (Inl e, tr') \<Rightarrow> (Inl e, tr')
           | (Inr info, tr') \<Rightarrow> (Inr (info\<lparr>bi_bytes := ar_cipher_bytes a\<rparr>), tr')))"

fun pair_infos :: "object_api \<Rightarrow> string \<Rightarrow> scope_owner option \<Rightarrow> (string \<times> artifacts) list \<Rightarrow> trace
    \<Rightarrow> (goerr + backup_info list) \<times> trace" where
  "pair_infos api bucket owner [] tr = (Inr [], tr)"
| "pair_infos api bucket owner (sa # ps) tr =
     (case pair_info api bucket owner sa tr of
        (Inl e, tr') \<Rightarrow> (Inl e, tr')
      | (Inr b, tr') \<Rightarrow>
          (case pair_infos api bucket owner ps tr' of
             (Inl e, tr'') \<Rightarrow> (Inl e, tr'')
           | (Inr bs, tr'') \<Rightarrow> (Inr (b # bs), tr'')))"

record listing =
  ls_bucket :: string
  ls_scope :: string
  ls_backups :: "backup_info list"

definition list_backups :: "object_api \<Rightarrow> string \<Rightarrow> string \<Rightarrow> scope_owner option \<Rightarrow> trace
    \<Rightarrow> (goerr + listing) \<times> trace" where
  "list_backups api bucket scope owner tr =
     (let tr' = tr @ [ListCall bucket scope] in
      case collect_pages bucket scope (api_list api tr bucket scope) [] of
        Inl e \<Rightarrow> (Inl e, tr')
      | Inr pairs \<Rightarrow>
          (case pair_infos api bucket owner pairs tr' of
             (Inl e, tr'') \<Rightarrow> (Inl e, tr'')
           | (Inr backups, tr'') \<Rightarrow>
               (Inr \<lparr>ls_bucket = bucket, ls_scope = scope, ls_backups = sort_slice newer backups\<rparr>, tr'')))"

definition listing_valid :: "listing \<Rightarrow> backup_info list" where
  "listing_valid l = filter (\<lambda>b. bi_state b = BackupValid) (ls_backups l)"

subsection \<open>The pairs hold what was listed\<close>

text \<open>\<open>K\<close> is the set of the keys met so far.\<close>

definition pair_of :: "string set \<Rightarrow> string \<times> artifacts \<Rightarrow> bool" where
  "pair_of K sa \<longleftrightarrow> (case sa of (stem, a) \<Rightarrow>
     ar_cipher_key a = (if stem @ ciphertext_suffix \<in> K then stem @ ciphertext_suffix else [])
     \<and> ar_manifest_key a = (if stem @ manifest_suffix \<in> K then stem @ manifest_suffix else []))"

definition pairs_of :: "string set \<Rightarrow> (string \<times> artifacts) list \<Rightarrow> bool" where
  "pairs_of K ps \<longleftrightarrow> distinct (map fst ps) \<and> list_all (pair_of K) ps
     \<and> fst ` set ps = {stem. stem @ ciphertext_suffix \<in> K \<or> stem @ manifest_suffix \<in> K}"

lemma suffixes_nonempty [simp]: "ciphertext_suffix \<noteq> []" "manifest_suffix \<noteq> []"
  by (simp_all add: ciphertext_suffix_def manifest_suffix_def)

lemma suffixes_differ [simp]: "a @ ciphertext_suffix \<noteq> b @ manifest_suffix"
proof
  assume "a @ ciphertext_suffix = b @ manifest_suffix"
  then have "last (a @ ciphertext_suffix) = last (b @ manifest_suffix)" by simp
  then show False by (simp add: ciphertext_suffix_def manifest_suffix_def)
qed

lemma suffixes_differ' [simp]: "b @ manifest_suffix \<noteq> a @ ciphertext_suffix"
  using suffixes_differ by metis

lemma has_suffix_append_iff: "has_suffix k s \<longleftrightarrow> (\<exists>t. k = t @ s)"
  by (auto simp: has_suffix_def suffix_def)

lemma artifact_stem_simps [simp]:
  "artifact_stem (stem @ ciphertext_suffix) = Some stem"
  "artifact_stem (stem @ manifest_suffix) = Some stem"
  by (auto simp: artifact_stem_def has_suffix_append_iff)

lemma artifact_stemE:
  assumes "artifact_stem key = Some stem"
  obtains "key = stem @ ciphertext_suffix" | "key = stem @ manifest_suffix"
  using assms by (auto simp: artifact_stem_def has_suffix_append_iff split: if_splits)

lemma artifact_stem_None:
  "artifact_stem key = None \<Longrightarrow> key \<noteq> stem @ ciphertext_suffix \<and> key \<noteq> stem @ manifest_suffix"
  by auto

lemma fst_update_pair: "fst ` set (update_pair stem f ps) = insert stem (fst ` set ps)"
proof (induction ps)
  case (Cons p ps)
  then show ?case by (cases p; cases "fst p = stem") (simp_all add: insert_commute)
qed simp

lemma distinct_update_pair: "distinct (map fst ps) \<Longrightarrow> distinct (map fst (update_pair stem f ps))"
proof (induction ps)
  case (Cons p ps)
  then show ?case using fst_update_pair [of stem f ps] by (cases p) auto
qed simp

lemma pair_of_note:
  assumes "artifact_stem (lo_key obj) = Some stem" "pair_of K (stem, a)"
  shows "pair_of (insert (lo_key obj) K) (stem, note_artifact obj a)"
  using assms(1)
proof (cases rule: artifact_stemE)
  case 1
  then show ?thesis using assms(2) by (auto simp: pair_of_def note_artifact_def has_suffix_append_iff)
next
  case 2
  then show ?thesis using assms(2) by (auto simp: pair_of_def note_artifact_def has_suffix_append_iff)
qed

lemma pair_of_other:
  assumes "artifact_stem key = Some stem" "pair_of K (s, a)" "s \<noteq> stem"
  shows "pair_of (insert key K) (s, a)"
  using assms(1) by (cases rule: artifact_stemE) (use assms(2,3) in \<open>auto simp: pair_of_def\<close>)

lemma pair_of_ignored: "artifact_stem key = None \<Longrightarrow> pair_of (insert key K) sa = pair_of K sa"
  by (cases sa) (auto simp: pair_of_def)

lemma update_pair_of:
  assumes stem: "artifact_stem (lo_key obj) = Some stem"
    and "distinct (map fst ps)" "list_all (pair_of K) ps"
    and new: "stem \<notin> fst ` set ps \<Longrightarrow> pair_of K (stem, no_artifacts)"
  shows "list_all (pair_of (insert (lo_key obj) K)) (update_pair stem (note_artifact obj) ps)"
  using assms(2-)
proof (induction ps)
  case Nil
  then show ?case using pair_of_note [OF stem] by simp
next
  case (Cons p ps)
  obtain s a where p: "p = (s, a)" by (cases p)
  show ?case
  proof (cases "s = stem")
    case True
    have "pair_of (insert (lo_key obj) K) q" if "q \<in> set ps" for q
      using that Cons.prems True p pair_of_other [OF stem, of K "fst q" "snd q"]
      by (auto simp: list_all_iff)
    then show ?thesis using True p Cons.prems pair_of_note [OF stem, of K a] by (auto simp: list_all_iff)
  next
    case False
    then show ?thesis using p Cons pair_of_other [OF stem, of K s a] by simp
  qed
qed

lemma note_object_pairs:
  assumes "pairs_of K ps"
  shows "pairs_of (insert (lo_key obj) K) (note_object obj ps)"
proof (cases "artifact_stem (lo_key obj)")
  case None
  then have "\<And>stem. lo_key obj \<noteq> stem @ ciphertext_suffix" "\<And>stem. lo_key obj \<noteq> stem @ manifest_suffix"
    by (auto dest: artifact_stem_None)
  then have "stem @ ciphertext_suffix \<noteq> lo_key obj" "stem @ manifest_suffix \<noteq> lo_key obj" for stem by metis+
  moreover have "pair_of (insert (lo_key obj) K) = pair_of K" using pair_of_ignored [OF None] by blast
  ultimately show ?thesis using assms None by (simp add: note_object_def pairs_of_def)
next
  case (Some stem)
  have fst: "fst ` set (update_pair stem f ps) = insert stem (fst ` set ps)" for f
    by (rule fst_update_pair)
  have "stem \<notin> fst ` set ps \<Longrightarrow> pair_of K (stem, no_artifacts)"
    using assms by (auto simp: pairs_of_def pair_of_def no_artifacts_def)
  with assms have "list_all (pair_of (insert (lo_key obj) K)) (update_pair stem (note_artifact obj) ps)"
    unfolding pairs_of_def by (intro update_pair_of [OF Some]) blast+
  moreover have "insert stem {s. s @ ciphertext_suffix \<in> K \<or> s @ manifest_suffix \<in> K}
      = {s. s @ ciphertext_suffix \<in> insert (lo_key obj) K \<or> s @ manifest_suffix \<in> insert (lo_key obj) K}"
    using Some by (cases rule: artifact_stemE) auto
  ultimately show ?thesis
    using assms Some distinct_update_pair [of ps] by (simp add: pairs_of_def note_object_def fst)
qed

lemma fold_note_pairs: "pairs_of K ps \<Longrightarrow> pairs_of (lo_key ` set objs \<union> K) (fold note_object objs ps)"
proof (induction objs arbitrary: K ps)
  case (Cons obj objs)
  from Cons.IH [OF note_object_pairs [OF Cons.prems]] show ?case by simp
qed simp

text \<open>The keys of a paginator's pages.\<close>

definition page_keys :: "(goerr + listed_object list) list \<Rightarrow> string set" where
  "page_keys pages = (\<Union>p \<in> set pages. case p of Inl _ \<Rightarrow> {} | Inr objs \<Rightarrow> lo_key ` set objs)"

lemma collect_pages_pairs:
  "collect_pages bucket scope pages ps = Inr qs \<Longrightarrow> pairs_of K ps \<Longrightarrow> pairs_of (page_keys pages \<union> K) qs"
proof (induction bucket scope pages ps arbitrary: K rule: collect_pages.induct)
  case (3 bucket scope contents pages ps)
  from "3.IH" [OF _ fold_note_pairs [OF "3.prems"(2)]] "3.prems"(1) show ?case
    by (simp add: page_keys_def Un_assoc Un_left_commute)
qed (simp_all add: page_keys_def)

lemma pairs_of_empty [simp]: "pairs_of {} []"
  by (simp add: pairs_of_def)

subsection \<open>Entries\<close>

text \<open>
  What each state of an entry promises. A trusted entry has the manifest that the store
  returned for its manifest key, which names the entry's own key and the owner.
\<close>

definition trusted :: "object_api \<Rightarrow> string \<Rightarrow> scope_owner option \<Rightarrow> backup_info \<Rightarrow> bool" where
  "trusted api bucket owner b \<longleftrightarrow>
     (\<exists>m tr out. bi_manifest b = Some m \<and> api_get api tr bucket (bi_manifest_key b) = Inr out
        \<and> manifest_unmarshal (take_bytes max_manifest_bytes (ob_content out)) = Some m
        \<and> mf_key_schema m = key_schema_version \<and> mf_object m = bi_key b \<and> mf_backup_id m \<noteq> []
        \<and> owner_matches owner m \<and> parse_rfc3339 (mf_created_at m) = Some (bi_created_at b))"

definition entry_of :: "string set \<Rightarrow> object_api \<Rightarrow> string \<Rightarrow> scope_owner option \<Rightarrow> string \<Rightarrow> backup_info \<Rightarrow> bool" where
  "entry_of K api bucket owner stem b \<longleftrightarrow>
     bi_key b = (if stem @ ciphertext_suffix \<in> K then stem @ ciphertext_suffix else [])
     \<and> bi_manifest_key b = (if stem @ manifest_suffix \<in> K then stem @ manifest_suffix else [])
     \<and> (bi_state b = BackupOrphan \<longleftrightarrow> stem @ manifest_suffix \<notin> K)
     \<and> (bi_state b = BackupDanglingManifest \<longleftrightarrow> stem @ ciphertext_suffix \<notin> K)
     \<and> (bi_state b = BackupValid \<longrightarrow> trusted api bucket owner b)"

lemma judge_manifest_keys [simp]:
  "bi_key (judge_manifest owner body info) = bi_key info"
  "bi_manifest_key (judge_manifest owner body info) = bi_manifest_key info"
  by (simp_all add: judge_manifest_def split: option.splits)

lemma judge_manifest_state:
  "bi_state (judge_manifest owner body info) \<noteq> BackupOrphan"
  "bi_state (judge_manifest owner body info) \<noteq> BackupDanglingManifest"
  by (simp_all add: judge_manifest_def split: option.splits)

lemma judge_manifest_valid:
  assumes "bi_state (judge_manifest owner body info) = BackupValid"
  obtains m created where "manifest_unmarshal body = Some m" "mf_key_schema m = key_schema_version"
    "mf_object m = bi_key info" "mf_backup_id m \<noteq> []" "owner_matches owner m"
    "parse_rfc3339 (mf_created_at m) = Some created"
    "judge_manifest owner body info = info\<lparr>bi_created_at := created, bi_state := BackupValid, bi_manifest := Some m\<rparr>"
  using assms by (auto simp: judge_manifest_def split: option.splits if_splits)

lemma read_manifest_ok:
  assumes "read_manifest api bucket c k n owner tr = (Inr b, tr')"
  shows "bi_key b = c \<and> bi_manifest_key b = k \<and> bi_state b \<noteq> BackupOrphan \<and> bi_state b \<noteq> BackupDanglingManifest
    \<and> (bi_state b = BackupValid \<longrightarrow> trusted api bucket owner b)"
proof (cases "n > max_manifest_bytes")
  case False
  then obtain out info where out: "api_get api tr bucket k = Inr out"
    and b: "b = judge_manifest owner (take_bytes max_manifest_bytes (ob_content out)) info"
    and info: "bi_key info = c" "bi_manifest_key info = k"
    using assms by (auto simp: read_manifest_def Let_def read_limited_def split: sum.splits if_splits)
  have "trusted api bucket owner b" if "bi_state b = BackupValid"
    using that unfolding b by (rule judge_manifest_valid) (use out info in \<open>auto simp: trusted_def b\<close>)
  then show ?thesis using info judge_manifest_state by (simp add: b)
qed (use assms in \<open>auto simp: read_manifest_def Let_def\<close>)

lemma trusted_bytes [simp]: "trusted api bucket owner (b\<lparr>bi_bytes := n\<rparr>) = trusted api bucket owner b"
  by (simp add: trusted_def)

lemma pair_info_entry:
  assumes "pair_info api bucket owner (stem, a) tr = (Inr b, tr')" "pair_of K (stem, a)"
    "stem @ ciphertext_suffix \<in> K \<or> stem @ manifest_suffix \<in> K"
  shows "entry_of K api bucket owner stem b"
proof (cases "ar_cipher_key a = [] \<or> ar_manifest_key a = []")
  case True
  then show ?thesis using assms
    by (auto simp: pair_info_def pair_of_def entry_of_def split: if_splits)
next
  case False
  then obtain b' where "read_manifest api bucket (ar_cipher_key a) (ar_manifest_key a) (ar_manifest_len a) owner tr
      = (Inr b', tr')" "b = b'\<lparr>bi_bytes := ar_cipher_bytes a\<rparr>"
    using assms(1) by (auto simp: pair_info_def split: prod.splits sum.splits)
  then show ?thesis
    using read_manifest_ok False assms(2) by (auto simp: entry_of_def pair_of_def split: if_splits)
qed

lemma pair_infos_entries:
  assumes "pair_infos api bucket owner ps tr = (Inr bs, tr')" "list_all (pair_of K) ps"
    "\<forall>stem \<in> fst ` set ps. stem @ ciphertext_suffix \<in> K \<or> stem @ manifest_suffix \<in> K"
  shows "list_all2 (entry_of K api bucket owner) (map fst ps) bs"
  using assms
proof (induction api bucket owner ps tr arbitrary: bs tr' rule: pair_infos.induct)
  case (2 api bucket owner sa ps tr)
  obtain b t cs t' where b: "pair_info api bucket owner sa tr = (Inr b, t)"
    "pair_infos api bucket owner ps t = (Inr cs, t')" "bs = b # cs"
    using "2.prems"(1) by (auto split: prod.splits sum.splits)
  have "list_all2 (entry_of K api bucket owner) (map fst ps) cs"
    using "2.IH" [OF b(1) [symmetric] refl b(2)] "2.prems" by simp
  then show ?case
    using pair_info_entry [of api bucket owner "fst sa" "snd sa" tr b t K] b "2.prems" by (cases sa) simp
qed simp

text \<open>The one fact the properties of listings rest on.\<close>

lemma list_backups_entries:
  assumes "list_backups api bucket scope owner tr = (Inr l, tr')"
  obtains stems bs where "mset (ls_backups l) = mset bs" "sorted_by newer (ls_backups l)" "distinct stems"
    "set stems = {stem. stem @ ciphertext_suffix \<in> page_keys (api_list api tr bucket scope)
       \<or> stem @ manifest_suffix \<in> page_keys (api_list api tr bucket scope)}"
    "list_all2 (entry_of (page_keys (api_list api tr bucket scope)) api bucket owner) stems bs"
    "ls_bucket l = bucket" "ls_scope l = scope"
proof -
  let ?K = "page_keys (api_list api tr bucket scope)"
  obtain ps bs where ps: "collect_pages bucket scope (api_list api tr bucket scope) [] = Inr ps"
    and bs: "pair_infos api bucket owner ps (tr @ [ListCall bucket scope]) = (Inr bs, tr')"
    and l: "l = \<lparr>ls_bucket = bucket, ls_scope = scope, ls_backups = sort_slice newer bs\<rparr>"
    using assms by (auto simp: list_backups_def Let_def split: sum.splits prod.splits)
  have p: "pairs_of ?K ps" using collect_pages_pairs [OF ps pairs_of_empty] by simp
  then have "list_all2 (entry_of ?K api bucket owner) (map fst ps) bs"
    by (intro pair_infos_entries [OF bs]) (auto simp: pairs_of_def)
  then show thesis
    using p l by (intro that [of bs "map fst ps"]) (auto simp: pairs_of_def newest_first.sorted_sort_slice)
qed

subsection \<open>The store of the tests\<close>

text \<open>
  \<open>fakeObjectStore\<close> of \<open>pipeline/list_test.go\<close>: the objects by key, of which a successful delete
  removes some; \<open>onGet\<close>, \<open>onDelete\<close> and \<open>deleteErr\<close> make the operations fail.
\<close>

record fake_store =
  fs_objects :: "(string \<times> string) list"
  fs_page_size :: int
  fs_on_get :: "goerr option"
  fs_on_delete :: "goerr option"
  fs_delete_err :: "delete_error list"

definition fake_live :: "fake_store \<Rightarrow> trace \<Rightarrow> (string \<times> string) list" where
  "fake_live f tr =
     (if fs_on_delete f \<noteq> None \<or> fs_delete_err f \<noteq> [] then fs_objects f
      else filter (\<lambda>(k, _). \<not> list_ex (\<lambda>c. case c of DeleteCall _ ks \<Rightarrow> k \<in> set ks | _ \<Rightarrow> False) tr) (fs_objects f))"

definition fake_list :: "fake_store \<Rightarrow> trace \<Rightarrow> string \<Rightarrow> string \<Rightarrow> (goerr + listed_object list) list" where
  "fake_list f tr bucket pfx =
     (let objs = sort_slice (\<lambda>a b. fst a < fst b) (filter (\<lambda>(k, _). has_prefix k pfx) (fake_live f tr));
          page = (\<lambda>os. Inr (map (\<lambda>(k, v). \<lparr>lo_key = k, lo_size = int (length v)\<rparr>) os)) in
      if objs = [] then [page []]
      else map page (chunks (if fs_page_size f = 0 then 1000 else fs_page_size f) objs))"

definition fake_get :: "fake_store \<Rightarrow> trace \<Rightarrow> string \<Rightarrow> string \<Rightarrow> goerr + object_body" where
  "fake_get f tr bucket key =
     (case fs_on_get f of
        Some e \<Rightarrow> Inl e
      | None \<Rightarrow>
          (case map_of (fake_live f tr) key of
             None \<Rightarrow> Inl (Errorf ''NoSuchKey: %s'' [key] None)
           | Some body \<Rightarrow> Inr \<lparr>ob_content = body, ob_read_err = None, ob_close_err = None\<rparr>))"

definition fake_delete :: "fake_store \<Rightarrow> trace \<Rightarrow> string \<Rightarrow> string list \<Rightarrow> goerr + delete_error list" where
  "fake_delete f tr bucket keys =
     (case fs_on_delete f of Some e \<Rightarrow> Inl e | None \<Rightarrow> Inr (fs_delete_err f))"

definition fake_api :: "fake_store \<Rightarrow> object_api" where
  "fake_api f = \<lparr>api_list = fake_list f, api_get = fake_get f, api_delete = fake_delete f\<rparr>"

definition put_backup :: "string \<Rightarrow> string \<Rightarrow> gotime \<Rightarrow> string \<Rightarrow> (string \<times> string) list" where
  "put_backup scope ulid created body =
     (let id = format_compact created @ ''-'' @ ulid; key = scope @ ''2026/07/'' @ id @ ciphertext_suffix in
      [(key, body),
       (manifest_key key, manifest_marshal (zero_manifest\<lparr>mf_key_schema := key_schema_version, mf_backup_id := id,
          mf_created_at := format_rfc3339 created, mf_object := key\<rparr>))])"

text \<open>A small bucket: one backup, an orphan and a foreign object.\<close>

definition quoted :: "string \<Rightarrow> string" where
  "quoted s = [CHR 0x22] @ s @ [CHR 0x22]"

definition store_manifest :: string where
  "store_manifest = ''{'' @ quoted ''key_schema'' @ '':1,'' @ quoted ''backup_id'' @ '':'' @ quoted ''x'' @ '',''
     @ quoted ''created_at'' @ '':'' @ quoted ''2026-07-01T00:00:00Z'' @ '','' @ quoted ''object'' @ '':''
     @ quoted ''p/x.dump.zst.age'' @ ''}''"

definition small_store :: fake_store where
  "small_store =
     \<lparr>fs_objects = [(''p/x.manifest.json'', store_manifest), (''p/x.dump.zst.age'', ''xx''), (''p/readme'', ''r''),
        (''p/y.dump.zst.age'', ''yy'')],
      fs_page_size = 2, fs_on_get = None, fs_on_delete = None, fs_delete_err = []\<rparr>"

definition store_backup :: backup_info where
  "store_backup =
     \<lparr>bi_key = ''p/x.dump.zst.age'', bi_manifest_key = ''p/x.manifest.json'', bi_state = BackupValid,
      bi_created_at = 63918460800000000000, bi_bytes = 2,
      bi_manifest = Some (zero_manifest\<lparr>mf_key_schema := 1, mf_backup_id := ''x'',
        mf_created_at := ''2026-07-01T00:00:00Z'', mf_object := ''p/x.dump.zst.age''\<rparr>)\<rparr>"

definition store_orphan :: backup_info where
  "store_orphan =
     \<lparr>bi_key = ''p/y.dump.zst.age'', bi_manifest_key = [], bi_state = BackupOrphan, bi_created_at = 0,
      bi_bytes = 2, bi_manifest = None\<rparr>"

lemma store_listed:
  "list_backups (fake_api small_store) ''b'' ''p/'' None []
     = (Inr \<lparr>ls_bucket = ''b'', ls_scope = ''p/'', ls_backups = [store_backup, store_orphan]\<rparr>,
        [ListCall ''b'' ''p/'', GetCall ''b'' ''p/x.manifest.json''])"
  by code_simp

subsection \<open>Properties\<close>

lemma list_all2_distinct_key:
  assumes "list_all2 (entry_of K api bucket owner) stems bs" "distinct stems"
  shows "distinct_valid bs"
  using assms
proof (induction stems bs rule: list_all2_induct)
  case (Cons stem stems b bs)
  have "bi_key b \<notin> bi_key ` {c \<in> set bs. bi_state c = BackupValid}" if v: "bi_state b = BackupValid"
  proof
    assume "bi_key b \<in> bi_key ` {c \<in> set bs. bi_state c = BackupValid}"
    then obtain c where c: "c \<in> set bs" "bi_state c = BackupValid" "bi_key b = bi_key c" by auto
    then obtain s where "s \<in> set stems" "entry_of K api bucket owner s c"
      using list_all2_right [OF Cons.hyps(2)] by blast
    then show False
      using c v Cons.hyps(1) Cons.prems by (auto simp: entry_of_def split: if_splits)
  qed
  then show ?case using Cons by (auto simp: distinct_valid_def distinct_keys_def)
qed (simp add: distinct_valid_def distinct_keys_def)

lemma distinct_valid_mset: "mset bs = mset cs \<Longrightarrow> distinct_valid bs = distinct_valid cs"
  unfolding distinct_valid_def distinct_keys_def
  by (rule mset_eq_imp_distinct_iff) (metis mset_filter mset_map)

lemma valid_entry_facts:
  assumes "list_backups api bucket scope owner tr = (Inr l, tr')"
    "b \<in> set (listing_valid l)"
  shows "trusted api bucket owner b
    \<and> bi_key b \<in> page_keys (api_list api tr bucket scope) \<and> has_suffix (bi_key b) ciphertext_suffix
    \<and> bi_manifest_key b = manifest_key (bi_key b)
    \<and> bi_manifest_key b \<in> page_keys (api_list api tr bucket scope)"
  using assms(1)
proof (rule list_backups_entries)
  fix stems bs
  let ?K = "page_keys (api_list api tr bucket scope)"
  assume *: "mset (ls_backups l) = mset bs" "list_all2 (entry_of ?K api bucket owner) stems bs"
    "set stems = {stem. stem @ ciphertext_suffix \<in> ?K \<or> stem @ manifest_suffix \<in> ?K}"
  have "b \<in> set bs" "bi_state b = BackupValid"
    using assms(2) mset_eq_setD [OF *(1)] by (auto simp: listing_valid_def)
  then obtain stem where "stem \<in> set stems" "entry_of ?K api bucket owner stem b"
    using list_all2_right [OF *(2)] by blast
  then show ?thesis
    using \<open>bi_state b = BackupValid\<close>
    by (auto simp: entry_of_def manifest_key_def has_suffix_append_iff split: if_splits)
qed

text \<open>C8: an entry of a listing is \<open>valid\<close> only if the store returned, for the manifest key that
  belongs to its ciphertext key, a text that decodes to a manifest of the current key schema
  that names this very ciphertext, has a backup id, claims the engine, cluster and database
  the listing is for, and has the creation time of the entry; both artifacts were listed.\<close>

theorem valid_entry_trusted:
  assumes "list_backups api bucket scope owner tr = (Inr l, tr')"
    "b \<in> set (listing_valid l)"
  shows "trusted api bucket owner b
    \<and> bi_key b \<in> page_keys (api_list api tr bucket scope) \<and> has_suffix (bi_key b) ciphertext_suffix
    \<and> bi_manifest_key b = manifest_key (bi_key b)
    \<and> bi_manifest_key b \<in> page_keys (api_list api tr bucket scope)"
  by (rule valid_entry_facts [OF assms])

theorem valid_entry_trusted_witness:
  "trusted (fake_api small_store) ''b'' None store_backup"
proof -
  have "store_backup \<in> set (listing_valid \<lparr>ls_bucket = ''b'', ls_scope = ''p/'', ls_backups = [store_backup, store_orphan]\<rparr>)"
    by (simp add: listing_valid_def store_backup_def)
  from valid_entry_trusted [OF store_listed this] show ?thesis by blast
qed

lemma listing_distinct_valid:
  assumes "list_backups api bucket scope owner tr = (Inr l, tr')"
  shows "distinct_valid (ls_backups l)"
  using assms by (rule list_backups_entries) (metis distinct_valid_mset list_all2_distinct_key)

text \<open>C30: a listing is complete and has no entry twice: it is sorted newest first, its valid
  entries have keys of their own, it has exactly one entry for every stem that has an
  artifact in the pages, an orphan exactly where the manifest is missing and a dangling
  manifest exactly where the ciphertext is missing; objects without one of the two suffixes
  are in no entry.\<close>

theorem listing_complete:
  assumes "list_backups api bucket scope owner tr = (Inr l, tr')"
  defines "K \<equiv> page_keys (api_list api tr bucket scope)"
  shows "sorted_by newer (ls_backups l) \<and> distinct_valid (ls_backups l)
    \<and> (\<exists>stems bs. mset (ls_backups l) = mset bs \<and> distinct stems
        \<and> set stems = {stem. stem @ ciphertext_suffix \<in> K \<or> stem @ manifest_suffix \<in> K}
        \<and> list_all2 (entry_of K api bucket owner) stems bs)"
  using assms(1)
proof (rule list_backups_entries)
  fix stems bs
  assume *: "mset (ls_backups l) = mset bs" "sorted_by newer (ls_backups l)" "distinct stems"
    "list_all2 (entry_of (page_keys (api_list api tr bucket scope)) api bucket owner) stems bs"
    "set stems = {stem. stem @ ciphertext_suffix \<in> page_keys (api_list api tr bucket scope)
       \<or> stem @ manifest_suffix \<in> page_keys (api_list api tr bucket scope)}"
  then show ?thesis
    using list_all2_distinct_key [OF *(4,3)] distinct_valid_mset [OF *(1)] unfolding K_def by blast
qed

theorem listing_complete_witness:
  "sorted_by newer [store_backup, store_orphan] \<and> distinct_valid [store_backup, store_orphan]"
  using listing_complete [OF store_listed] by simp

lemma format_compact_no_slash: "0 \<le> year_of t \<Longrightarrow> CHR ''/'' \<notin> set (format_compact t)"
  by (rule not_in_compact) (simp_all add: is_digit_def)

text \<open>The creation time survives in the object key: from the key that is built for a new backup
  id the listing recovers the time of the backup to the second, for orphans and dangling
  manifests alike, which have no readable manifest to say it.\<close>

theorem backup_id_time_roundtrip:
  assumes "new_backup_id ulid t = Inr bid" "\<And>u. ulid t = Inr u \<Longrightarrow> CHR ''/'' \<notin> set u"
    and "relative_prefix d" "safe_seg engine" "safe_seg cluster" "0 \<le> year_of t" "year_of t \<le> 9999"
  shows "created_at_from_stem (trim_suffix (object_key d engine cluster db t bid) ciphertext_suffix) = trunc_second t"
proof -
  obtain u where u: "ulid t = Inr u" "bid = format_compact t @ ''-'' @ u"
    using assms(1) by (auto simp: new_backup_id_def split: sum.splits)
  have noslash: "CHR ''/'' \<notin> set bid"
    using u assms(2) format_compact_no_slash [OF assms(6)] by simp
  let ?ws = "prefix_segs d @ [engine, cluster, sanitize_key_segment db, format_year t, format_month t]"
  have key: "object_key d engine cluster db t bid = join_with ''/'' (?ws @ [bid]) @ ciphertext_suffix"
    using object_key_segs [OF assms(3-5) noslash, of db t] join_with_append [of ?ws "[bid]" "''/''"]
      join_with_append [of ?ws "[bid @ ciphertext_suffix]" "''/''"] by simp
  have "CHR ''-'' \<in> set bid" by (simp add: u(2))
  then have "safe_seg bid" using noslash by (auto simp: safe_seg_def)
  then have "path_base (join_with ''/'' (?ws @ [bid])) = bid" by (intro path_base_join) simp_all
  moreover have "CHR ''-'' \<notin> set (format_compact t)"
    using assms(6) by (rule not_in_compact) (simp_all add: is_digit_def)
  then have "cut ''-'' bid = Some (format_compact t, u)" by (simp add: u(2))
  ultimately show ?thesis
    using parse_compact_format [OF assms(6,7)] by (simp add: created_at_from_stem_def key)
qed

theorem backup_id_time_roundtrip_witness:
  "created_at_from_stem (trim_suffix (object_key \<lparr>d_bucket = ''b'', d_prefix = ''p''\<rparr> ''mysql'' ''h'' ''..''
      (739000 * 86400 * second + 7) (format_compact (739000 * 86400 * second + 7) @ ''-01A'')) ciphertext_suffix)
   = 739000 * 86400 * second"
proof -
  let ?t = "739000 * 86400 * second + 7 :: gotime"
  have "new_backup_id (\<lambda>_. Inr ''01A'') ?t = Inr (format_compact ?t @ ''-01A'')"
    by (simp add: new_backup_id_def)
  moreover have "relative_prefix \<lparr>d_bucket = ''b'', d_prefix = ''p''\<rparr>" "safe_seg ''mysql''" "safe_seg ''h''"
    by (simp_all add: relative_prefix_def has_prefix_def safe_seg_def)
  moreover have "0 \<le> year_of ?t" "year_of ?t \<le> 9999" "trunc_second ?t = 739000 * 86400 * second"
    by code_simp+
  ultimately show ?thesis
    using backup_id_time_roundtrip [of "\<lambda>_. Inr ''01A''" ?t] by simp
qed

end
