(* ===== verification/Driver.thy ===== *)
theory Driver
  imports Dsn Listing
begin

section \<open>Drivers, the run configuration and the scope of a database\<close>

text \<open>
  The driver selection of \<open>pipeline/driver.go\<close> with the identity methods of both drivers, the
  configuration of \<open>pipeline/pipeline.go\<close>, the S3 client options of \<open>pipeline/upload.go\<close> and
  the scope derivation of \<open>pipeline/list.go\<close>. A driver is a value of \<open>driver\<close>; what a driver
  promises the key schema, an engine and a cluster label that are safe path segments, is the
  locale \<open>source_identity\<close>, in which the isolation of scopes is proved once.
\<close>

subsection \<open>Drivers\<close>

text \<open>The PostgreSQL driver keeps its DSN and the path of the client that preflight selects.\<close>

datatype driver = PostgresDriver string pg_source string | MySQLDriver mysql_source

definition new_postgres_driver :: "string \<Rightarrow> goerr + driver" where
  "new_postgres_driver dsn =
     (case parse_postgres_dsn dsn of Inl e \<Rightarrow> Inl e | Inr src \<Rightarrow> Inr (PostgresDriver dsn src []))"

definition new_mysql_driver :: "string \<Rightarrow> goerr + driver" where
  "new_mysql_driver dsn = (case parse_mysql_dsn dsn of Inl e \<Rightarrow> Inl e | Inr src \<Rightarrow> Inr (MySQLDriver src))"

definition new_driver :: "string \<Rightarrow> goerr + driver" where
  "new_driver dsn =
     (case url_parse dsn of
        None \<Rightarrow> Inl (classify KindConnect ''pipeline: parse DSN: invalid URL'' [] None)
      | Some u \<Rightarrow>
          if url_scheme u = ''postgres'' \<or> url_scheme u = ''postgresql'' then new_postgres_driver dsn
          else if url_scheme u = ''mysql'' then new_mysql_driver dsn
          else Inl (classify KindConnect ''pipeline: unsupported DSN scheme %q (want postgres:// or mysql://)''
                 [url_scheme u] None))"

definition drv_engine :: "driver \<Rightarrow> string" where
  "drv_engine d = (case d of PostgresDriver _ _ _ \<Rightarrow> ''postgres'' | MySQLDriver _ \<Rightarrow> ''mysql'')"

definition drv_cluster :: "driver \<Rightarrow> string" where
  "drv_cluster d = (case d of PostgresDriver _ s _ \<Rightarrow> pg_cluster s | MySQLDriver s \<Rightarrow> mysql_cluster s)"

definition drv_database :: "driver \<Rightarrow> string" where
  "drv_database d = (case d of PostgresDriver _ s _ \<Rightarrow> pg_database s | MySQLDriver s \<Rightarrow> my_database s)"

definition pg_dump_path :: "string \<Rightarrow> string" where
  "pg_dump_path selected = (if selected \<noteq> [] then selected else ''pg_dump'')"

definition build_dump_command :: "string list \<Rightarrow> driver \<Rightarrow> command" where
  "build_dump_command environ d =
     (case d of
        PostgresDriver _ s p \<Rightarrow> pg_dump_command environ (pg_dump_path p) s
      | MySQLDriver s \<Rightarrow> mysql_dump_command environ s)"

definition build_restore_command :: "driver \<Rightarrow> string \<Rightarrow> string list" where
  "build_restore_command d target =
     (case d of PostgresDriver _ _ _ \<Rightarrow> pg_restore_command target | MySQLDriver s \<Rightarrow> mysql_restore_command s target)"

definition dump_format :: "driver \<Rightarrow> string" where
  "dump_format d =
     (case d of
        PostgresDriver _ _ _ \<Rightarrow> ''pg_dump -Fc -Z0 | zstd | age''
      | MySQLDriver _ \<Rightarrow> ''mysqldump --single-transaction --set-gtid-purged=OFF --no-tablespaces --routines --events | zstd | age'')"

subsection \<open>Configuration and client\<close>

record s3_credentials =
  sc_access_key_id :: string
  sc_secret_access_key :: string
  sc_session_token :: string

text \<open>The run configuration; the two callbacks \<open>Warn\<close> and \<open>Progress\<close> only report.\<close>

record config =
  cfg_dsn :: string
  cfg_dest :: string
  cfg_age_recipient :: string
  cfg_s3_endpoint :: string
  cfg_s3_region :: string
  cfg_s3_profile :: string
  cfg_s3_credentials :: "s3_credentials option"
  cfg_part_size :: int
  cfg_concurrency :: int
  cfg_max_retries :: int
  cfg_part_timeout :: int
  cfg_app_version :: string
  cfg_allow_non_transactional :: bool

definition default_part_size :: int where "default_part_size = 33554432"
definition default_concurrency :: int where "default_concurrency = 4"
definition max_upload_parts :: int where "max_upload_parts = 10000"
definition default_max_retries :: int where "default_max_retries = 5"
definition default_part_timeout :: int where "default_part_timeout = 300 * second"

text \<open>What \<open>newS3Client\<close> asks of the SDK; the SDK's answer is the argument \<open>sdk\<close>.\<close>

record client_options =
  co_max_attempts :: int
  co_region :: "string option"
  co_profile :: "string option"
  co_credentials :: "s3_credentials option"
  co_checksum_when_required :: bool
  co_base_endpoint :: "string option"
  co_path_style :: bool

definition client_options :: "config \<Rightarrow> client_options" where
  "client_options cfg =
     \<lparr>co_max_attempts = (if cfg_max_retries cfg = 0 then default_max_retries else cfg_max_retries cfg),
      co_region = (if cfg_s3_region cfg \<noteq> [] then Some (cfg_s3_region cfg) else None),
      co_profile = (if cfg_s3_profile cfg \<noteq> [] then Some (cfg_s3_profile cfg) else None),
      co_credentials = cfg_s3_credentials cfg,
      co_checksum_when_required = True,
      co_base_endpoint = (if cfg_s3_endpoint cfg \<noteq> [] then Some (cfg_s3_endpoint cfg) else None),
      co_path_style = (cfg_s3_endpoint cfg \<noteq> [])\<rparr>"

definition new_s3_client :: "(client_options \<Rightarrow> goerr + 'api) \<Rightarrow> config \<Rightarrow> goerr + 'api" where
  "new_s3_client sdk cfg =
     (case sdk (client_options cfg) of
        Inl e \<Rightarrow> Inl (classify KindUpload ''load AWS config: %w'' [] (Some e))
      | Inr api \<Rightarrow> Inr api)"

subsection \<open>Scopes\<close>

definition backup_scope :: "config \<Rightarrow> goerr + (string \<times> dest \<times> scope_owner)" where
  "backup_scope cfg =
     (case new_driver (cfg_dsn cfg) of
        Inl e \<Rightarrow> Inl e
      | Inr drv \<Rightarrow>
          (case parse_dest (cfg_dest cfg) of
             Inl e \<Rightarrow> Inl e
           | Inr dst \<Rightarrow>
               Inr (scope_prefix dst (drv_engine drv) (drv_cluster drv) (drv_database drv), dst,
                 \<lparr>so_engine = drv_engine drv, so_cluster = drv_cluster drv, so_database = drv_database drv\<rparr>)))"

definition ListBackups :: "(client_options \<Rightarrow> goerr + object_api) \<Rightarrow> config \<Rightarrow> trace \<Rightarrow> (goerr + listing) \<times> trace" where
  "ListBackups sdk cfg tr =
     (case new_s3_client sdk cfg of
        Inl e \<Rightarrow> (Inl e, tr)
      | Inr api \<Rightarrow>
          (case backup_scope cfg of
             Inl e \<Rightarrow> (Inl e, tr)
           | Inr (scope, dst, owner) \<Rightarrow> list_backups api (d_bucket dst) scope (Some owner) tr))"

subsection \<open>The contract of a driver\<close>

locale source_identity =
  fixes engine :: "'d \<Rightarrow> string" and cluster :: "'d \<Rightarrow> string" and database :: "'d \<Rightarrow> string"
  assumes engine_safe: "safe_seg (engine d)"
    and cluster_safe: "safe_seg (cluster d)"
begin

definition scope_of :: "dest \<Rightarrow> 'd \<Rightarrow> string" where
  "scope_of dst d = scope_prefix dst (engine d) (cluster d) (database d)"

definition key_of :: "dest \<Rightarrow> 'd \<Rightarrow> gotime \<Rightarrow> string \<Rightarrow> string" where
  "key_of dst d t i = object_key dst (engine d) (cluster d) (database d) t i"

lemma key_in_scope:
  "relative_prefix dst \<Longrightarrow> CHR ''/'' \<notin> set i \<Longrightarrow> has_prefix (key_of dst d t i) (scope_of dst d)"
  using object_key_in_scope [OF _ engine_safe cluster_safe] by (simp add: key_of_def scope_of_def)

lemma scopes_apart:
  assumes "relative_prefix dst" "has_prefix key (scope_of dst d)" "has_prefix key (scope_of dst d')"
  shows "engine d = engine d' \<and> cluster d = cluster d' \<and> database d = database d'"
proof -
  obtain us where u: "split_on CHR ''/'' key
      = (prefix_segs dst @ [engine d, cluster d, sanitize_key_segment (database d)]) @ us"
    using scope_segs [OF assms(1) engine_safe cluster_safe] assms(2) unfolding scope_of_def by blast
  obtain vs where v: "split_on CHR ''/'' key
      = (prefix_segs dst @ [engine d', cluster d', sanitize_key_segment (database d')]) @ vs"
    using scope_segs [OF assms(1) engine_safe cluster_safe] assms(3) unfolding scope_of_def by blast
  from u v show ?thesis by (simp add: sanitize_inject)
qed

end

interpretation drv: source_identity drv_engine drv_cluster drv_database
proof
  show "safe_seg (drv_engine d)" for d by (cases d) (simp_all add: drv_engine_def safe_seg_def)
  show "safe_seg (drv_cluster d)" for d
    by (cases d) (simp_all add: drv_cluster_def pg_cluster_def mysql_cluster_def cluster_label_def)
qed

subsection \<open>A configuration\<close>

definition sample_config :: config where
  "sample_config =
     \<lparr>cfg_dsn = ''mysql://u:pw@h/d'', cfg_dest = ''s3://b/p'', cfg_age_recipient = [], cfg_s3_endpoint = [],
      cfg_s3_region = [], cfg_s3_profile = [], cfg_s3_credentials = None, cfg_part_size = 0, cfg_concurrency = 0,
      cfg_max_retries = 0, cfg_part_timeout = 0, cfg_app_version = [], cfg_allow_non_transactional = False\<rparr>"

definition sample_source :: mysql_source where
  "sample_source = \<lparr>my_host = ''h'', my_port = ''3306'', my_user = ''u'', my_password = ''pw'', my_database = ''d'',
     my_sslmode = []\<rparr>"

definition sample_dest :: dest where
  "sample_dest = \<lparr>d_bucket = ''b'', d_prefix = ''p''\<rparr>"

lemma sample_driver: "new_driver (cfg_dsn sample_config) = Inr (MySQLDriver sample_source)"
  by code_simp

lemma sample_dest_parsed: "parse_dest (cfg_dest sample_config) = Inr sample_dest"
  by code_simp

lemma sample_scope:
  "backup_scope sample_config = Inr (''p/mysql/h/d/'', sample_dest,
     \<lparr>so_engine = ''mysql'', so_cluster = ''h'', so_database = ''d''\<rparr>)"
  by code_simp

end
