(* ===== verification/Prune.thy ===== *)
theory Prune
  imports Driver
begin

section \<open>Prune: a retention pass over one database's backups\<close>

text \<open>
  The file \<open>pipeline/prune.go\<close>: \<open>pruneWith\<close> with its helpers, \<open>Prune\<close> and \<open>DeleteBackups\<close>. The
  calls made are the trace; Go's pair of a result and an error is the pair of an optional
  error and the result. The properties say what can ever be deleted: for any object store,
  whatever it answers, only artifacts inside the scope of the database, ciphertexts before
  manifests, of backups whose manifest the store vouched for, and never the newest one.
\<close>

definition delete_batch_size :: int where
  "delete_batch_size = 1000"

record prune_options =
  po_dry_run :: bool
  po_require_scope :: string

record prune_result =
  pr_listing :: listing
  pr_kept :: "backup_info list"
  pr_deleted :: "backup_info list"
  pr_dangling_deleted :: "string list"
  pr_orphans :: "backup_info list"

definition no_listing :: listing where
  "no_listing = \<lparr>ls_bucket = [], ls_scope = [], ls_backups = []\<rparr>"

definition no_result :: prune_result where
  "no_result = \<lparr>pr_listing = no_listing, pr_kept = [], pr_deleted = [], pr_dangling_deleted = [], pr_orphans = []\<rparr>"

definition err_scope_mismatch :: goerr where
  "err_scope_mismatch = Errorf ''pipeline: prune scope mismatch'' [] None"

subsection \<open>Deleting\<close>

fun guard_keys :: "string \<Rightarrow> string \<Rightarrow> string list \<Rightarrow> goerr option" where
  "guard_keys scope suff [] = None"
| "guard_keys scope suff (k # ks) =
     (if \<not> has_prefix k scope \<or> \<not> has_suffix k suff \<or> length k \<le> length scope + length suff
      then Some (classify KindUpload ''pipeline: refusing to delete %q: outside the retention scope %q'' [k, scope] None)
      else guard_keys scope suff ks)"

definition batch_failure :: "string \<Rightarrow> string list \<Rightarrow> delete_error list \<Rightarrow> goerr" where
  "batch_failure bucket batch errors =
     (let e = hd errors;
          msg = de_code e @ '': '' @ de_message e
            @ (if de_code e = ''AccessDenied''
               then '' '' @ em_dash @ '' retention needs s3:DeleteObject on the destination prefix'' else []) in
      classify KindUpload ''pipeline: delete backups in s3://%s: %d of %d objects failed, first %s (%s)''
        [bucket, itoa (int (length errors)), itoa (int (length batch)), de_key e, msg] None)"

fun delete_each :: "object_api \<Rightarrow> string \<Rightarrow> string list list \<Rightarrow> trace \<Rightarrow> goerr option \<times> trace" where
  "delete_each api bucket [] tr = (None, tr)"
| "delete_each api bucket (batch # bs) tr =
     (let tr' = tr @ [DeleteCall bucket batch] in
      case api_delete api tr bucket batch of
        Inl e \<Rightarrow> (Some (classify KindUpload ''pipeline: delete backups in s3://%s: %w'' [bucket] (Some e)), tr')
      | Inr errors \<Rightarrow>
          if errors \<noteq> [] then (Some (batch_failure bucket batch errors), tr')
          else delete_each api bucket bs tr')"

definition delete_batches :: "object_api \<Rightarrow> string \<Rightarrow> string list \<Rightarrow> trace \<Rightarrow> goerr option \<times> trace" where
  "delete_batches api bucket keys tr = delete_each api bucket (chunks delete_batch_size keys) tr"

definition delete_keys :: "object_api \<Rightarrow> string \<Rightarrow> string \<Rightarrow> string \<Rightarrow> string list \<Rightarrow> trace \<Rightarrow> goerr option \<times> trace" where
  "delete_keys api bucket scope suff keys tr =
     (case guard_keys scope suff keys of
        Some e \<Rightarrow> (Some e, tr)
      | None \<Rightarrow> delete_batches api bucket keys tr)"

definition delete_backups :: "object_api \<Rightarrow> string \<Rightarrow> string \<Rightarrow> backup_info list \<Rightarrow> trace \<Rightarrow> goerr option \<times> trace" where
  "delete_backups api bucket scope backups tr =
     (let ciphers = map bi_key backups; manifests = map bi_manifest_key backups in
      case guard_keys scope ciphertext_suffix ciphers of
        Some e \<Rightarrow> (Some e, tr)
      | None \<Rightarrow>
          (case guard_keys scope manifest_suffix manifests of
             Some e \<Rightarrow> (Some e, tr)
           | None \<Rightarrow>
               (case delete_batches api bucket ciphers tr of
                  (Some e, tr') \<Rightarrow> (Some e, tr')
                | (None, tr') \<Rightarrow> delete_batches api bucket manifests tr')))"

definition deletable_manifest :: "scope_owner option \<Rightarrow> string \<Rightarrow> bool" where
  "deletable_manifest owner body \<longleftrightarrow>
     int (length body) \<le> max_manifest_bytes \<and>
     (case manifest_unmarshal body of
        None \<Rightarrow> False
      | Some m \<Rightarrow> mf_key_schema m = key_schema_version \<and> owner_matches owner m)"

fun deletable_dangling :: "object_api \<Rightarrow> string \<Rightarrow> scope_owner option \<Rightarrow> string list \<Rightarrow> trace
    \<Rightarrow> (goerr + string list) \<times> trace" where
  "deletable_dangling api bucket owner [] tr = (Inr [], tr)"
| "deletable_dangling api bucket owner (key # keys) tr =
     (let tr' = tr @ [GetCall bucket key];
          failed = (\<lambda>e. classify KindUpload ''pipeline: read dangling manifest s3://%s/%s: %w'' [bucket, key] (Some e)) in
      case api_get api tr bucket key of
        Inl e \<Rightarrow> (Inl (failed e), tr')
      | Inr obj \<Rightarrow>
          (case read_limited (max_manifest_bytes + 1) obj of
             (body, err) \<Rightarrow>
               if err \<noteq> None \<or> ob_close_err obj \<noteq> None
               then (Inl (failed (first_err [err, ob_close_err obj])), tr')
               else (case deletable_dangling api bucket owner keys tr' of
                       (Inl e, tr'') \<Rightarrow> (Inl e, tr'')
                     | (Inr out, tr'') \<Rightarrow>
                         (Inr (if deletable_manifest owner body then key # out else out), tr''))))"

subsection \<open>The pass\<close>

definition prune_with :: "object_api \<Rightarrow> string \<Rightarrow> string \<Rightarrow> scope_owner option \<Rightarrow> retention_policy
    \<Rightarrow> prune_options \<Rightarrow> trace \<Rightarrow> (goerr option \<times> prune_result) \<times> trace" where
  "prune_with api bucket scope owner policy opts tr =
     (case list_backups api bucket scope owner tr of
        (Inl e, tr1) \<Rightarrow> ((Some e, no_result), tr1)
      | (Inr listing, tr1) \<Rightarrow>
          (let res = no_result\<lparr>pr_listing := listing,
                 pr_orphans := filter (\<lambda>b. bi_state b = BackupOrphan) (ls_backups listing)\<rparr>;
               danglingKeys = map bi_manifest_key
                 (filter (\<lambda>b. bi_state b = BackupDanglingManifest) (ls_backups listing)) in
           case deletable_dangling api bucket owner danglingKeys tr1 of
             (Inl e, tr2) \<Rightarrow> ((Some e, res), tr2)
           | (Inr dangling, tr2) \<Rightarrow>
               (case select_retention (ls_backups listing) policy of
                  (kept, deleted) \<Rightarrow>
                    (let res' = res\<lparr>pr_kept := kept, pr_deleted := deleted\<rparr> in
                     if po_dry_run opts then ((None, res'\<lparr>pr_dangling_deleted := dangling\<rparr>), tr2)
                     else case delete_backups api bucket scope deleted tr2 of
                            (Some e, tr3) \<Rightarrow> ((Some e, res'), tr3)
                          | (None, tr3) \<Rightarrow>
                              (case delete_keys api bucket scope manifest_suffix dangling tr3 of
                                 (Some e, tr4) \<Rightarrow> ((Some e, res'), tr4)
                               | (None, tr4) \<Rightarrow> ((None, res'\<lparr>pr_dangling_deleted := dangling\<rparr>), tr4))))))"

definition Prune :: "(client_options \<Rightarrow> goerr + object_api) \<Rightarrow> config \<Rightarrow> retention_policy \<Rightarrow> prune_options
    \<Rightarrow> trace \<Rightarrow> (goerr option \<times> prune_result) \<times> trace" where
  "Prune sdk cfg policy opts tr =
     (case validate_policy policy of
        Some e \<Rightarrow> ((Some e, no_result), tr)
      | None \<Rightarrow>
          (case backup_scope cfg of
             Inl e \<Rightarrow> ((Some e, no_result), tr)
           | Inr (scope, dst, owner) \<Rightarrow>
               if po_require_scope opts \<noteq> [] \<and> po_require_scope opts \<noteq> scope
               then ((Some (Errorf ''%w: config resolves to %q, caller expects %q''
                       [scope, po_require_scope opts] (Some err_scope_mismatch)), no_result), tr)
               else (case new_s3_client sdk cfg of
                       Inl e \<Rightarrow> ((Some e, no_result), tr)
                     | Inr api \<Rightarrow> prune_with api (d_bucket dst) scope (Some owner) policy opts tr)))"

definition deletable_backup :: "scope_owner option \<Rightarrow> backup_info \<Rightarrow> bool" where
  "deletable_backup owner b \<longleftrightarrow>
     bi_state b = BackupValid \<and> (case bi_manifest b of None \<Rightarrow> False | Some m \<Rightarrow> owner_matches owner m)"

definition DeleteBackups :: "(client_options \<Rightarrow> goerr + object_api) \<Rightarrow> config \<Rightarrow> backup_info list \<Rightarrow> trace
    \<Rightarrow> goerr option \<times> trace" where
  "DeleteBackups sdk cfg backups tr =
     (case new_s3_client sdk cfg of
        Inl e \<Rightarrow> (Some e, tr)
      | Inr api \<Rightarrow>
          (case backup_scope cfg of
             Inl e \<Rightarrow> (Some e, tr)
           | Inr (scope, dst, owner) \<Rightarrow>
               (case filter (\<lambda>b. \<not> deletable_backup (Some owner) b) backups of
                  b # _ \<Rightarrow>
                    (Some (classify KindUpload ''pipeline: refusing to delete %q: not a validated backup of this database (state %s)''
                       [bi_key b, backup_state_string (bi_state b)] None), tr)
                | [] \<Rightarrow> delete_backups api (d_bucket dst) scope backups tr)))"

subsection \<open>The calls of a pass\<close>

definition reading :: "string \<Rightarrow> s3_call \<Rightarrow> bool" where
  "reading bucket c \<longleftrightarrow> (case c of ListCall b _ \<Rightarrow> b = bucket | GetCall b _ \<Rightarrow> b = bucket | DeleteCall _ _ \<Rightarrow> False)"

definition deleted_keys :: "trace \<Rightarrow> string set" where
  "deleted_keys tr = (\<Union>c \<in> set tr. case c of DeleteCall _ ks \<Rightarrow> set ks | _ \<Rightarrow> {})"

lemma deleted_keys_simps [simp]:
  "deleted_keys [] = {}" "deleted_keys (tr @ tr') = deleted_keys tr \<union> deleted_keys tr'"
  "deleted_keys (DeleteCall b ks # tr) = set ks \<union> deleted_keys tr"
  by (auto simp: deleted_keys_def)

lemma reading_deletes_nothing: "list_all (reading bucket) cs \<Longrightarrow> deleted_keys cs = {}"
proof (induction cs)
  case (Cons c cs)
  then show ?case by (cases c) (auto simp: deleted_keys_def reading_def)
qed simp

text \<open>A computation that only reads extends the trace by reading calls.\<close>

definition read_only :: "string \<Rightarrow> trace \<Rightarrow> trace \<Rightarrow> bool" where
  "read_only bucket tr tr' \<longleftrightarrow> (\<exists>cs. tr' = tr @ cs \<and> list_all (reading bucket) cs)"

lemma read_only_refl [simp, intro]: "read_only bucket tr tr"
  by (auto simp: read_only_def)

lemma read_only_snoc [intro]: "reading bucket c \<Longrightarrow> read_only bucket tr (tr @ [c])"
  by (auto simp: read_only_def)

lemma read_only_trans [trans]: "read_only bucket tr tr' \<Longrightarrow> read_only bucket tr' tr'' \<Longrightarrow> read_only bucket tr tr''"
  by (auto simp: read_only_def)

lemma reading_simps [simp]: "reading bucket (ListCall bucket s)" "reading bucket (GetCall bucket k)"
  by (simp_all add: reading_def)

lemma read_manifest_reads: "read_only bucket tr (snd (read_manifest api bucket c k n owner tr))"
  by (auto simp: read_manifest_def Let_def read_limited_def split: sum.split)

lemma pair_info_reads: "read_only bucket tr (snd (pair_info api bucket owner sa tr))"
proof -
  obtain stem a where sa: "sa = (stem, a)" by (cases sa)
  have "read_only bucket tr (snd (read_manifest api bucket (ar_cipher_key a) (ar_manifest_key a) (ar_manifest_len a) owner tr))"
    by (rule read_manifest_reads)
  then show ?thesis by (auto simp: sa pair_info_def split: prod.split sum.split)
qed

lemma pair_infos_reads: "read_only bucket tr (snd (pair_infos api bucket owner ps tr))"
proof (induction api bucket owner ps tr rule: pair_infos.induct)
  case (2 api bucket owner sa ps tr)
  obtain r t where r: "pair_info api bucket owner sa tr = (r, t)" by (cases "pair_info api bucket owner sa tr")
  then have t: "read_only bucket tr t" using pair_info_reads [of bucket tr api owner sa] by simp
  show ?case
  proof (cases r)
    case (Inr b)
    have "read_only bucket t (snd (pair_infos api bucket owner ps t))"
      using "2.IH" [OF r [symmetric] Inr] .
    with t have "read_only bucket tr (snd (pair_infos api bucket owner ps t))" by (rule read_only_trans)
    then show ?thesis by (auto simp: r Inr split: prod.split sum.split)
  qed (simp add: r t)
qed simp

lemma list_backups_reads: "read_only bucket tr (snd (list_backups api bucket scope owner tr))"
proof -
  let ?t = "tr @ [ListCall bucket scope]"
  have "read_only bucket tr ?t" by auto
  moreover have "read_only bucket ?t (snd (pair_infos api bucket owner ps ?t))" for ps by (rule pair_infos_reads)
  ultimately have "read_only bucket tr (snd (pair_infos api bucket owner ps ?t))" for ps by (rule read_only_trans)
  then show ?thesis
    using \<open>read_only bucket tr ?t\<close>
    by (auto simp: list_backups_def Let_def split: sum.split prod.split) (metis snd_conv)+
qed

lemma deletable_dangling_reads: "read_only bucket tr (snd (deletable_dangling api bucket owner keys tr))"
proof (induction api bucket owner keys tr rule: deletable_dangling.induct)
  case (2 api bucket owner key keys tr)
  let ?t = "tr @ [GetCall bucket key]"
  have t: "read_only bucket tr ?t" by auto
  show ?case
  proof (cases "api_get api tr bucket key")
    case (Inr obj)
    obtain body err where b: "read_limited (max_manifest_bytes + 1) obj = (body, err)" by fastforce
    show ?thesis
    proof (cases "err \<noteq> None \<or> ob_close_err obj \<noteq> None")
      case True
      then show ?thesis using t by (auto simp: Let_def Inr b)
    next
      case False
      have "read_only bucket ?t (snd (deletable_dangling api bucket owner keys ?t))"
        using "2.IH" [OF refl refl Inr b [symmetric]] False by simp
      with t have "read_only bucket tr (snd (deletable_dangling api bucket owner keys ?t))" by (rule read_only_trans)
      then show ?thesis using False by (auto simp: Let_def Inr b split: prod.split sum.split)
    qed
  qed (use t in \<open>simp add: Let_def\<close>)
qed simp

lemma deletable_dangling_subset:
  "deletable_dangling api bucket owner keys tr = (Inr out, tr') \<Longrightarrow> set out \<subseteq> set keys"
proof (induction api bucket owner keys tr arbitrary: out tr' rule: deletable_dangling.induct)
  case (2 api bucket owner key keys tr)
  from "2.prems" obtain out' t where "deletable_dangling api bucket owner keys (tr @ [GetCall bucket key]) = (Inr out', t)"
    "set out \<subseteq> insert key (set out')"
    by (auto simp: Let_def split: sum.splits prod.splits if_splits)
  moreover from "2.prems" obtain obj body err where "api_get api tr bucket key = Inr obj"
    "read_limited (max_manifest_bytes + 1) obj = (body, err)" "\<not> (err \<noteq> None \<or> ob_close_err obj \<noteq> None)"
    by (auto simp: Let_def split: sum.splits prod.splits if_splits)
  ultimately show ?case using "2.IH" [OF refl refl, of obj body err out' t] by auto
qed simp

text \<open>The delete calls for a list of keys, and what deleting in batches did: the first \<open>n\<close> batches
  were sent, all of them if it succeeded, and all but the last one were acknowledged.\<close>

definition batch_calls :: "string \<Rightarrow> string list \<Rightarrow> trace" where
  "batch_calls bucket keys = map (DeleteCall bucket) (chunks delete_batch_size keys)"

definition acknowledged :: "object_api \<Rightarrow> string \<Rightarrow> trace \<Rightarrow> string list list \<Rightarrow> bool" where
  "acknowledged api bucket tr bs \<longleftrightarrow>
     (\<forall>i < length bs. api_delete api (tr @ map (DeleteCall bucket) (take i bs)) bucket (bs ! i) = Inr [])"

lemma delete_each_calls:
  assumes "delete_each api bucket bs tr = (r, tr')"
  obtains n where "n \<le> length bs" "tr' = tr @ map (DeleteCall bucket) (take n bs)"
    "r = None \<Longrightarrow> n = length bs \<and> acknowledged api bucket tr bs"
proof -
  have "\<exists>n \<le> length bs. tr' = tr @ map (DeleteCall bucket) (take n bs)
      \<and> (r = None \<longrightarrow> n = length bs \<and> acknowledged api bucket tr bs)"
    using assms
  proof (induction api bucket bs tr arbitrary: r tr' rule: delete_each.induct)
    case (2 api bucket batch bs tr)
    let ?t = "tr @ [DeleteCall bucket batch]"
    show ?case
    proof (cases "api_delete api tr bucket batch = Inr []")
      case True
      then have "delete_each api bucket bs ?t = (r, tr')" using "2.prems" by (simp add: Let_def)
      from "2.IH" [OF refl True _ this] obtain n where n: "n \<le> length bs"
        "tr' = ?t @ map (DeleteCall bucket) (take n bs)"
        "r = None \<longrightarrow> n = length bs \<and> acknowledged api bucket ?t bs" by auto
      have "acknowledged api bucket tr (batch # bs)" if "acknowledged api bucket ?t bs"
        unfolding acknowledged_def
      proof (intro allI impI)
        fix i assume "i < length (batch # bs)"
        then show "api_delete api (tr @ map (DeleteCall bucket) (take i (batch # bs))) bucket ((batch # bs) ! i) = Inr []"
          using that True by (cases i) (simp_all add: acknowledged_def)
      qed
      then show ?thesis using n by (intro exI [of _ "Suc n"]) auto
    next
      case False
      then have "r \<noteq> None \<and> tr' = ?t" using "2.prems" by (auto simp: Let_def split: sum.splits if_splits)
      then show ?thesis by (intro exI [of _ 1]) auto
    qed
  qed (simp add: acknowledged_def)
  then show thesis using that by blast
qed

lemma guard_keys_ok:
  "guard_keys scope suff ks = None \<longleftrightarrow>
     (\<forall>k \<in> set ks. has_prefix k scope \<and> has_suffix k suff \<and> length scope + length suff < length k)"
  by (induction ks) auto

lemma acknowledged_Nil [simp]: "acknowledged api bucket tr []"
  by (simp add: acknowledged_def)

text \<open>The calls of deleting backups: nothing if a key is refused, otherwise some batches of
  ciphertexts, and manifests only when all ciphertexts were acknowledged.\<close>

lemma delete_backups_calls:
  assumes "delete_backups api bucket scope bs tr = (r, tr')"
  obtains n m where
    "tr' = tr @ take n (batch_calls bucket (map bi_key bs)) @ take m (batch_calls bucket (map bi_manifest_key bs))"
    "n > 0 \<or> m > 0 \<or> r = None \<Longrightarrow> guard_keys scope ciphertext_suffix (map bi_key bs) = None
       \<and> guard_keys scope manifest_suffix (map bi_manifest_key bs) = None"
    "m > 0 \<or> r = None \<Longrightarrow> take n (batch_calls bucket (map bi_key bs)) = batch_calls bucket (map bi_key bs)
       \<and> acknowledged api bucket tr (chunks delete_batch_size (map bi_key bs))"
    "r = None \<Longrightarrow> take m (batch_calls bucket (map bi_manifest_key bs)) = batch_calls bucket (map bi_manifest_key bs)
       \<and> acknowledged api bucket (tr @ batch_calls bucket (map bi_key bs)) (chunks delete_batch_size (map bi_manifest_key bs))"
proof (cases "guard_keys scope ciphertext_suffix (map bi_key bs) = None
    \<and> guard_keys scope manifest_suffix (map bi_manifest_key bs) = None")
  case False
  then have "r \<noteq> None" "tr' = tr"
    using assms
    by (cases "guard_keys scope ciphertext_suffix (map bi_key bs)";
        cases "guard_keys scope manifest_suffix (map bi_manifest_key bs)"; auto simp: delete_backups_def)+
  then show ?thesis by (intro that [of 0 0]) auto
next
  case True
  let ?c = "chunks delete_batch_size (map bi_key bs)" and ?m = "chunks delete_batch_size (map bi_manifest_key bs)"
  obtain r1 t1 where c: "delete_each api bucket ?c tr = (r1, t1)" by fastforce
  then obtain n where n: "n \<le> length ?c" "t1 = tr @ map (DeleteCall bucket) (take n ?c)"
    "r1 = None \<Longrightarrow> n = length ?c \<and> acknowledged api bucket tr ?c"
    by (rule delete_each_calls) blast
  show ?thesis
  proof (cases r1)
    case (Some e)
    then have "r = Some e" "tr' = t1" using assms True c by (simp_all add: delete_backups_def delete_batches_def)
    then show ?thesis using n True by (intro that [of n 0]) (simp_all add: batch_calls_def take_map)
  next
    case None
    have "delete_each api bucket ?m t1 = (r, tr')"
      using assms True c None by (simp add: delete_backups_def delete_batches_def)
    then obtain m where m: "m \<le> length ?m" "tr' = t1 @ map (DeleteCall bucket) (take m ?m)"
      "r = None \<Longrightarrow> m = length ?m \<and> acknowledged api bucket t1 ?m"
      by (rule delete_each_calls) blast
    show ?thesis
      using n m True None by (intro that [of n m]) (simp_all add: batch_calls_def take_map)
  qed
qed

lemma delete_keys_calls:
  assumes "delete_keys api bucket scope suff ks tr = (r, tr')"
  obtains n where "tr' = tr @ take n (batch_calls bucket ks)" "n > 0 \<or> r = None \<Longrightarrow> guard_keys scope suff ks = None"
    "r = None \<Longrightarrow> take n (batch_calls bucket ks) = batch_calls bucket ks
       \<and> acknowledged api bucket tr (chunks delete_batch_size ks)"
proof (cases "guard_keys scope suff ks")
  case None
  then have "delete_each api bucket (chunks delete_batch_size ks) tr = (r, tr')"
    using assms by (simp add: delete_keys_def delete_batches_def)
  then show ?thesis
    by (rule delete_each_calls) (use None in \<open>auto intro!: that simp: batch_calls_def take_map\<close>)
next
  case (Some e)
  then show ?thesis using assms by (intro that [of 0]) (auto simp: delete_keys_def)
qed

lemma deleted_batch_calls [simp]: "deleted_keys (batch_calls bucket ks) = set ks"
  using set_chunks [of delete_batch_size ks] by (auto simp: deleted_keys_def batch_calls_def)

lemma deleted_keys_mono: "set tr \<subseteq> set tr' \<Longrightarrow> deleted_keys tr \<subseteq> deleted_keys tr'"
  by (auto simp: deleted_keys_def)

lemma deleted_take_batches: "deleted_keys (take n (batch_calls bucket ks)) \<subseteq> set ks"
  using deleted_keys_mono [OF set_take_subset, of n "batch_calls bucket ks"] by simp

subsection \<open>What a pass can delete\<close>

text \<open>A call that is harmless to everything but the artifacts of one scope.\<close>

definition scoped_key :: "string \<Rightarrow> string \<Rightarrow> bool" where
  "scoped_key scope k \<longleftrightarrow> has_prefix k scope \<and> (has_suffix k ciphertext_suffix \<or> has_suffix k manifest_suffix)"

definition scoped_call :: "string \<Rightarrow> string \<Rightarrow> s3_call \<Rightarrow> bool" where
  "scoped_call bucket scope c \<longleftrightarrow>
     (case c of
        ListCall b s \<Rightarrow> b = bucket
      | GetCall b k \<Rightarrow> b = bucket
      | DeleteCall b ks \<Rightarrow> b = bucket \<and> ks \<noteq> [] \<and> length ks \<le> 1000 \<and> list_all (scoped_key scope) ks)"

lemma scoped_reading: "list_all (reading bucket) cs \<Longrightarrow> list_all (scoped_call bucket scope) cs"
  by (auto simp: list_all_iff reading_def scoped_call_def split: s3_call.splits)

lemma scoped_deletes: "list_all (scoped_call bucket scope) cs \<Longrightarrow> k \<in> deleted_keys cs \<Longrightarrow> scoped_key scope k"
proof (induction cs)
  case (Cons c cs)
  then show ?case by (cases c) (auto simp: deleted_keys_def scoped_call_def list_all_iff)
qed simp

lemma scoped_batches:
  assumes "n > 0 \<Longrightarrow> \<forall>k \<in> set ks. scoped_key scope k"
  shows "list_all (scoped_call bucket scope) (take n (batch_calls bucket ks))"
proof (cases "n > 0")
  case True
  have "scoped_call bucket scope (DeleteCall bucket c)" if "c \<in> set (chunks delete_batch_size ks)" for c
    using that assms [OF True] chunk_size [OF that] set_chunks [of delete_batch_size ks]
    by (auto simp: scoped_call_def list_all_iff delete_batch_size_def)
  then show ?thesis by (auto simp: list_all_iff batch_calls_def dest!: in_set_takeD)
qed simp

lemma guard_scoped:
  assumes "guard_keys scope suff ks = None" "suff = ciphertext_suffix \<or> suff = manifest_suffix"
  shows "\<forall>k \<in> set ks. scoped_key scope k"
  using assms by (auto simp: guard_keys_ok scoped_key_def)

text \<open>A pass is a reading part, ciphertexts of dropped backups, their manifests, dangling manifests.\<close>

lemma prune_with_calls:
  assumes "prune_with api bucket scope owner policy opts tr = ((e, res), tr')"
  obtains rs ds where "tr' = tr @ rs @ ds" "list_all (reading bucket) rs" "list_all (scoped_call bucket scope) ds"
    "po_dry_run opts \<Longrightarrow> ds = []"
    "\<And>l t. list_backups api bucket scope owner tr = (Inr l, t) \<Longrightarrow>
       deleted_keys ds \<subseteq> bi_key ` set (snd (select_retention (ls_backups l) policy))
         \<union> bi_manifest_key ` set (snd (select_retention (ls_backups l) policy))
         \<union> bi_manifest_key ` {b \<in> set (ls_backups l). bi_state b = BackupDanglingManifest}"
proof -
  obtain lr t1 where l: "list_backups api bucket scope owner tr = (lr, t1)" by fastforce
  obtain rs1 where r1: "t1 = tr @ rs1" "list_all (reading bucket) rs1"
    using list_backups_reads [of bucket tr api scope owner] l by (auto simp: read_only_def)
  show thesis
  proof (cases lr)
    case (Inl x)
    then show thesis using assms l r1 by (intro that [of rs1 "[]"]) (auto simp: prune_with_def)
  next
    case (Inr lst)
    let ?dk = "map bi_manifest_key (filter (\<lambda>b. bi_state b = BackupDanglingManifest) (ls_backups lst))"
    obtain dr t2 where d: "deletable_dangling api bucket owner ?dk t1 = (dr, t2)" by fastforce
    obtain rs2 where r2: "t2 = t1 @ rs2" "list_all (reading bucket) rs2"
      using deletable_dangling_reads [of bucket t1 api owner ?dk] d by (auto simp: read_only_def)
    have rs: "t2 = tr @ (rs1 @ rs2)" "list_all (reading bucket) (rs1 @ rs2)" using r1 r2 by simp_all
    obtain kept gone where s: "select_retention (ls_backups lst) policy = (kept, gone)" by fastforce
    show thesis
    proof (cases "(\<exists>x. dr = Inl x) \<or> po_dry_run opts")
      case True
      then have "tr' = t2" using assms l Inr d s by (cases dr) (auto simp: prune_with_def Let_def)
      then show thesis using rs by (intro that [of "rs1 @ rs2" "[]"]) simp_all
    next
      case False
      then obtain dang where dang: "dr = Inr dang" by (cases dr) auto
      have sub: "set dang \<subseteq> set ?dk" using deletable_dangling_subset d dang by blast
      obtain r3 t3 where b: "delete_backups api bucket scope gone t2 = (r3, t3)" by fastforce
      then obtain n m where nm:
        "t3 = t2 @ take n (batch_calls bucket (map bi_key gone)) @ take m (batch_calls bucket (map bi_manifest_key gone))"
        "n > 0 \<or> m > 0 \<or> r3 = None \<Longrightarrow> guard_keys scope ciphertext_suffix (map bi_key gone) = None
          \<and> guard_keys scope manifest_suffix (map bi_manifest_key gone) = None"
        by (rule delete_backups_calls) blast
      let ?cs = "take n (batch_calls bucket (map bi_key gone)) @ take m (batch_calls bucket (map bi_manifest_key gone))"
      have "n > 0 \<Longrightarrow> \<forall>k \<in> set (map bi_key gone). scoped_key scope k"
        "m > 0 \<Longrightarrow> \<forall>k \<in> set (map bi_manifest_key gone). scoped_key scope k"
        using nm(2) guard_scoped [of scope ciphertext_suffix] guard_scoped [of scope manifest_suffix] by blast+
      then have cs: "list_all (scoped_call bucket scope) ?cs" by (simp add: scoped_batches)
      have del: "deleted_keys ?cs \<subseteq> bi_key ` set gone \<union> bi_manifest_key ` set gone"
        using deleted_take_batches [of n bucket "map bi_key gone"]
          deleted_take_batches [of m bucket "map bi_manifest_key gone"] by auto
      show thesis
      proof (cases r3)
        case (Some x)
        then have "tr' = t3" using assms l Inr d dang s b False by (simp add: prune_with_def Let_def)
        then show thesis
          using rs nm cs del l Inr s False by (intro that [of "rs1 @ rs2" ?cs]) auto
      next
        case None
        obtain r4 t4 where k: "delete_keys api bucket scope manifest_suffix dang t3 = (r4, t4)" by fastforce
        then obtain j where j: "t4 = t3 @ take j (batch_calls bucket dang)"
          "j > 0 \<or> r4 = None \<Longrightarrow> guard_keys scope manifest_suffix dang = None"
          by (rule delete_keys_calls) blast
        have "j > 0 \<Longrightarrow> \<forall>k \<in> set dang. scoped_key scope k"
          using j(2) guard_scoped [of scope manifest_suffix] by blast
        then have ds: "list_all (scoped_call bucket scope) (take j (batch_calls bucket dang))"
          by (rule scoped_batches)
        have "tr' = t4"
          using assms l Inr d dang s b None k False by (auto simp: prune_with_def Let_def split: option.splits)
        then show thesis
          using rs nm(1) cs del l Inr s False ds j(1) sub deleted_take_batches [of j bucket dang]
          by (intro that [of "rs1 @ rs2" "?cs @ take j (batch_calls bucket dang)"]) auto
      qed
    qed
  qed
qed

lemma entry_keys_unique:
  assumes "list_backups api bucket scope owner tr = (Inr l, t)"
    and "b \<in> set (ls_backups l)" "c \<in> set (ls_backups l)" "k \<noteq> []"
    and "k = bi_key b \<or> k = bi_manifest_key b" "k = bi_key c \<or> k = bi_manifest_key c"
  shows "b = c"
  using assms(1)
proof (rule list_backups_entries)
  fix stems bs
  let ?K = "page_keys (api_list api tr bucket scope)"
  assume *: "mset (ls_backups l) = mset bs" "distinct stems" "list_all2 (entry_of ?K api bucket owner) stems bs"
  have "b \<in> set bs" "c \<in> set bs" using assms(2,3) mset_eq_setD [OF *(1)] by simp_all
  then obtain i j where ij: "i < length bs" "j < length bs" "b = bs ! i" "c = bs ! j"
    by (auto simp: in_set_conv_nth)
  have len: "length stems = length bs" using *(3) by (rule list_all2_lengthD)
  have "entry_of ?K api bucket owner (stems ! i) b" "entry_of ?K api bucket owner (stems ! j) c"
    using list_all2_nthD2 [OF *(3)] ij by simp_all
  then have "stems ! i = stems ! j"
    using assms(4-6) by (auto simp: entry_of_def split: if_splits)
  then show ?thesis using *(2) ij len by (simp add: nth_eq_iff_index_eq)
qed

text \<open>A bucket with two backups of which a policy that keeps one drops the older, and a
  configuration with a dangling manifest in its scope.\<close>

definition manifest_text :: "string \<Rightarrow> string \<Rightarrow> string" where
  "manifest_text key created =
     ''{'' @ quoted ''key_schema'' @ '':1,'' @ quoted ''backup_id'' @ '':'' @ quoted ''x'' @ '',''
     @ quoted ''created_at'' @ '':'' @ quoted created @ '','' @ quoted ''object'' @ '':'' @ quoted key @ ''}''"

definition two_backups :: fake_store where
  "two_backups =
     \<lparr>fs_objects = [(''p/x.manifest.json'', manifest_text ''p/x.dump.zst.age'' ''2026-07-01T00:00:00Z''),
        (''p/x.dump.zst.age'', ''xx''), (''p/y.dump.zst.age'', ''yy''),
        (''p/y.manifest.json'', manifest_text ''p/y.dump.zst.age'' ''2026-07-02T00:00:00Z'')],
      fs_page_size = 0, fs_on_get = None, fs_on_delete = None, fs_delete_err = []\<rparr>"

definition sample_info :: "string \<Rightarrow> gotime \<Rightarrow> string \<Rightarrow> backup_info" where
  "sample_info x created text =
     \<lparr>bi_key = ''p/'' @ x @ ciphertext_suffix, bi_manifest_key = ''p/'' @ x @ manifest_suffix, bi_state = BackupValid,
      bi_created_at = created, bi_bytes = 2,
      bi_manifest = Some (zero_manifest\<lparr>mf_key_schema := 1, mf_backup_id := ''x'', mf_created_at := text,
        mf_object := ''p/'' @ x @ ciphertext_suffix\<rparr>)\<rparr>"

definition old_backup :: backup_info where
  "old_backup = sample_info ''x'' 63918460800000000000 ''2026-07-01T00:00:00Z''"

definition new_backup :: backup_info where
  "new_backup = sample_info ''y'' 63918547200000000000 ''2026-07-02T00:00:00Z''"

definition two_listing :: listing where
  "two_listing = \<lparr>ls_bucket = ''b'', ls_scope = ''p/'', ls_backups = [new_backup, old_backup]\<rparr>"

definition wet_run :: prune_options where
  "wet_run = \<lparr>po_dry_run = False, po_require_scope = []\<rparr>"

lemma two_listed:
  "list_backups (fake_api two_backups) ''b'' ''p/'' None []
     = (Inr two_listing, [ListCall ''b'' ''p/'', GetCall ''b'' ''p/x.manifest.json'', GetCall ''b'' ''p/y.manifest.json''])"
  by code_simp

lemma two_selected: "select_retention [new_backup, old_backup] sample_policy = ([new_backup], [old_backup])"
  by code_simp

lemma two_deleted:
  "delete_backups (fake_api two_backups) ''b'' ''p/'' [old_backup] tr
     = (None, tr @ [DeleteCall ''b'' [''p/x.dump.zst.age''], DeleteCall ''b'' [''p/x.manifest.json'']])"
proof -
  have "guard_keys ''p/'' ciphertext_suffix [''p/x.dump.zst.age''] = None"
    "guard_keys ''p/'' manifest_suffix [''p/x.manifest.json''] = None" by code_simp+
  moreover have "bi_key old_backup = ''p/x.dump.zst.age''" "bi_manifest_key old_backup = ''p/x.manifest.json''"
    by code_simp+
  ultimately show ?thesis
    by (simp add: delete_backups_def delete_batches_def chunks.simps delete_batch_size_def fake_api_def
        fake_delete_def two_backups_def del: guard_keys.simps)
qed

lemma two_pruned:
  "prune_with (fake_api two_backups) ''b'' ''p/'' None sample_policy wet_run []
     = ((None, \<lparr>pr_listing = two_listing, pr_kept = [new_backup], pr_deleted = [old_backup],
                pr_dangling_deleted = [], pr_orphans = []\<rparr>),
        [] @ [ListCall ''b'' ''p/'', GetCall ''b'' ''p/x.manifest.json'', GetCall ''b'' ''p/y.manifest.json'',
         DeleteCall ''b'' [''p/x.dump.zst.age''], DeleteCall ''b'' [''p/x.manifest.json'']])"
proof -
  have "filter (\<lambda>b. bi_state b = s) (ls_backups two_listing) = []" if "s \<noteq> BackupValid" for s
    using that by (simp add: two_listing_def new_backup_def old_backup_def sample_info_def)
  moreover have "ls_backups two_listing = [new_backup, old_backup]" by (simp add: two_listing_def)
  ultimately show ?thesis
    by (simp add: prune_with_def two_listed two_selected two_deleted wet_run_def delete_keys_def
        delete_batches_def no_result_def)
qed

definition dangling_store :: fake_store where
  "dangling_store =
     \<lparr>fs_objects = [(''p/mysql/h/d/2026/07/x.manifest.json'',
        ''{'' @ quoted ''key_schema'' @ '':1,'' @ quoted ''engine'' @ '':'' @ quoted ''mysql'' @ '','' @ quoted ''cluster''
        @ '':'' @ quoted ''h'' @ '','' @ quoted ''database'' @ '':'' @ quoted ''d'' @ ''}'')],
      fs_page_size = 0, fs_on_get = None, fs_on_delete = None, fs_delete_err = []\<rparr>"

lemma dangling_pruned:
  "snd (Prune (\<lambda>_. Inr (fake_api dangling_store)) sample_config sample_policy wet_run [])
     = [ListCall ''b'' ''p/mysql/h/d/'', GetCall ''b'' ''p/mysql/h/d/2026/07/x.manifest.json'',
        DeleteCall ''b'' [''p/mysql/h/d/2026/07/x.manifest.json'']]"
  by code_simp

subsection \<open>Properties\<close>

text \<open>C3: tenant safety, whatever the bucket holds and however the store answers, and also when the
  pass fails in the middle: the calls of a pass stay in the configured bucket, every delete
  call carries between one and 1000 keys, all of them artifacts inside the scope of the
  configured database, and no key in the scope of another database, cluster or engine under
  the same destination is ever deleted.\<close>

theorem prune_tenant_safety:
  assumes "new_driver (cfg_dsn cfg) = Inr d" "parse_dest (cfg_dest cfg) = Inr dst"
    and "Prune sdk cfg policy opts tr = ((e, res), tr')"
  shows "\<exists>cs. tr' = tr @ cs
    \<and> list_all (scoped_call (d_bucket dst) (scope_prefix dst (drv_engine d) (drv_cluster d) (drv_database d))) cs
    \<and> (\<forall>d' key. (drv_engine d', drv_cluster d', drv_database d') \<noteq> (drv_engine d, drv_cluster d, drv_database d)
         \<and> has_prefix key (scope_prefix dst (drv_engine d') (drv_cluster d') (drv_database d'))
         \<longrightarrow> key \<notin> deleted_keys cs)"
proof -
  let ?s = "scope_prefix dst (drv_engine d) (drv_cluster d) (drv_database d)"
  have rel: "relative_prefix dst" using parse_dest_relative [OF assms(2)] by simp
  have "\<exists>cs. tr' = tr @ cs \<and> list_all (scoped_call (d_bucket dst) ?s) cs"
  proof (cases "tr' = tr")
    case False
    then obtain api where "prune_with api (d_bucket dst) ?s
        (Some \<lparr>so_engine = drv_engine d, so_cluster = drv_cluster d, so_database = drv_database d\<rparr>) policy opts tr
        = ((e, res), tr')"
      using assms by (auto simp: Prune_def backup_scope_def split: option.splits if_splits sum.splits)
    then show ?thesis
      by (rule prune_with_calls) (use scoped_reading in \<open>auto simp: list_all_append intro!: exI\<close>)
  qed simp
  then obtain cs where cs: "tr' = tr @ cs" "list_all (scoped_call (d_bucket dst) ?s) cs" by blast
  have "has_prefix key ?s" if "key \<in> deleted_keys cs" for key
    using scoped_deletes [OF cs(2) that] by (simp add: scoped_key_def)
  then show ?thesis using cs drv.scopes_apart [OF rel] unfolding drv.scope_of_def by blast
qed

theorem prune_tenant_safety_witness:
  "list_all (scoped_call ''b'' ''p/mysql/h/d/'')
     (snd (Prune (\<lambda>_. Inr (fake_api dangling_store)) sample_config sample_policy wet_run []))"
proof -
  obtain e res tr' where p: "Prune (\<lambda>_. Inr (fake_api dangling_store)) sample_config sample_policy wet_run []
      = ((e, res), tr')" by (metis prod.exhaust)
  have "scope_prefix sample_dest (drv_engine (MySQLDriver sample_source)) (drv_cluster (MySQLDriver sample_source))
      (drv_database (MySQLDriver sample_source)) = ''p/mysql/h/d/''" by code_simp
  moreover have "d_bucket sample_dest = ''b''" by (simp add: sample_dest_def)
  ultimately show ?thesis
    using prune_tenant_safety [OF sample_driver sample_dest_parsed p] p by auto
qed



text \<open>A pass that must not run does nothing: an invalid policy, or a scope other than the one the
  caller pinned, is refused before a single call is made, the latter with the sentinel error
  that callers test for.\<close>

theorem prune_refuses_untouched:
  "(validate_policy policy = Some e \<longrightarrow> Prune sdk cfg policy opts tr = ((Some e, no_result), tr))
   \<and> (validate_policy policy = None \<and> backup_scope cfg = Inr (scope, dst, owner)
        \<and> po_require_scope opts \<noteq> [] \<and> po_require_scope opts \<noteq> scope \<longrightarrow>
      (\<exists>e. Prune sdk cfg policy opts tr = ((Some e, no_result), tr) \<and> is_sentinel err_scope_mismatch e
         \<and> kind_of e = KindUnknown))"
  by (auto simp: Prune_def err_scope_mismatch_def kind_of_def)

theorem prune_refuses_untouched_witness:
  "\<forall>sdk. \<exists>e. Prune sdk sample_config sample_policy \<lparr>po_dry_run = False, po_require_scope = ''p/mysql/h/other/''\<rparr> []
     = ((Some e, no_result), []) \<and> is_sentinel err_scope_mismatch e"
proof
  fix sdk
  show "\<exists>e. Prune sdk sample_config sample_policy \<lparr>po_dry_run = False, po_require_scope = ''p/mysql/h/other/''\<rparr> []
     = ((Some e, no_result), []) \<and> is_sentinel err_scope_mismatch e"
    using prune_refuses_untouched [of sample_policy _ sdk sample_config
        "\<lparr>po_dry_run = False, po_require_scope = ''p/mysql/h/other/''\<rparr>" "[]" "''p/mysql/h/d/''"]
      sample_scope sample_validated by auto
qed

text \<open>Deleting given backups: unless every one of them is a validated backup of this very
  database and all their keys are artifacts in its scope, nothing is deleted; and whatever is
  deleted belongs to one of them.\<close>

theorem delete_backups_guarded:
  assumes "backup_scope cfg = Inr (scope, dst, owner)" "DeleteBackups sdk cfg backups tr = (r, tr')"
  shows "\<exists>cs. tr' = tr @ cs \<and> list_all (scoped_call (d_bucket dst) scope) cs
    \<and> (cs \<noteq> [] \<or> r = None \<longrightarrow> list_all (deletable_backup (Some owner)) backups
         \<and> guard_keys scope ciphertext_suffix (map bi_key backups) = None
         \<and> guard_keys scope manifest_suffix (map bi_manifest_key backups) = None)
    \<and> deleted_keys cs \<subseteq> bi_key ` set backups \<union> bi_manifest_key ` set backups"
proof (cases "list_all (deletable_backup (Some owner)) backups \<and> (\<exists>api. new_s3_client sdk cfg = Inr api)")
  case False
  then have "r \<noteq> None \<and> tr' = tr"
    using assms by (auto simp: DeleteBackups_def list_all_iff filter_empty_conv split: sum.splits list.splits)
  then show ?thesis by (intro exI [of _ "[]"]) auto
next
  case True
  then obtain api where "new_s3_client sdk cfg = Inr api" by blast
  with True have "delete_backups api (d_bucket dst) scope backups tr = (r, tr')"
    using assms by (simp add: DeleteBackups_def list_all_iff split: list.splits)
  then obtain n m where nm:
    "tr' = tr @ take n (batch_calls (d_bucket dst) (map bi_key backups))
       @ take m (batch_calls (d_bucket dst) (map bi_manifest_key backups))"
    "n > 0 \<or> m > 0 \<or> r = None \<Longrightarrow> guard_keys scope ciphertext_suffix (map bi_key backups) = None
       \<and> guard_keys scope manifest_suffix (map bi_manifest_key backups) = None"
    by (rule delete_backups_calls) blast
  let ?cs = "take n (batch_calls (d_bucket dst) (map bi_key backups))
    @ take m (batch_calls (d_bucket dst) (map bi_manifest_key backups))"
  have "n > 0 \<Longrightarrow> \<forall>k \<in> set (map bi_key backups). scoped_key scope k"
    "m > 0 \<Longrightarrow> \<forall>k \<in> set (map bi_manifest_key backups). scoped_key scope k"
    using nm(2) guard_scoped [of scope ciphertext_suffix] guard_scoped [of scope manifest_suffix] by blast+
  then have "list_all (scoped_call (d_bucket dst) scope) ?cs" by (simp add: scoped_batches)
  moreover have "?cs \<noteq> [] \<Longrightarrow> n > 0 \<or> m > 0" by (cases n; cases m) auto
  moreover have "deleted_keys ?cs \<subseteq> bi_key ` set backups \<union> bi_manifest_key ` set backups"
    using deleted_take_batches [of n "d_bucket dst" "map bi_key backups"]
      deleted_take_batches [of m "d_bucket dst" "map bi_manifest_key backups"] by auto
  ultimately show ?thesis using nm True by (intro exI [of _ ?cs]) blast
qed

theorem delete_backups_guarded_witness:
  "\<exists>r. DeleteBackups (\<lambda>_. Inr (fake_api two_backups)) sample_config [old_backup] [] = (Some r, [])"
proof -
  let ?owner = "\<lparr>so_engine = ''mysql'', so_cluster = ''h'', so_database = ''d''\<rparr>"
  obtain r tr' where d: "DeleteBackups (\<lambda>_. Inr (fake_api two_backups)) sample_config [old_backup] [] = (r, tr')"
    by fastforce
  have "\<not> deletable_backup (Some ?owner) old_backup"
    by (simp add: deletable_backup_def old_backup_def sample_info_def owner_matches_def zero_manifest_def)
  then show ?thesis using delete_backups_guarded [OF sample_scope d] d by (cases r) auto
qed

end
