(* ===== verification/Bucket.thy ===== *)
theory Bucket
  imports Prune
begin

section \<open>The contract of a bucket and what a pass leaves in it\<close>

text \<open>
  The laws that listing and retention rely on, as the locale \<open>s3_bucket\<close>: a bucket nobody else
  writes to, whose keys at any time are a function of the calls made. A listing that
  succeeds returns the keys with the prefix; reading changes nothing; a delete call removes at
  most the keys it names, and all of them when it is acknowledged. Within it: an interrupted
  pass never leaves an orphan, and a pass that succeeds leaves exactly what it should. The
  store of \<open>pipeline/list_test.go\<close> is the interpretation, failures included.
\<close>

locale s3_bucket =
  fixes api :: object_api and bucket :: string and keys :: "trace \<Rightarrow> string set"
  assumes list_law: "\<forall>p \<in> set (api_list api tr bucket scope). \<exists>objs. p = Inr objs \<Longrightarrow>
      page_keys (api_list api tr bucket scope) = {k \<in> keys tr. has_prefix k scope}"
    and read_law: "reading bucket c \<Longrightarrow> keys (tr @ [c]) = keys tr"
    and delete_only: "keys (tr @ [DeleteCall bucket ks]) \<subseteq> keys tr"
    and delete_named: "keys tr - set ks \<subseteq> keys (tr @ [DeleteCall bucket ks])"
    and delete_acknowledged:
      "api_delete api tr bucket ks = Inr [] \<Longrightarrow> keys (tr @ [DeleteCall bucket ks]) \<inter> set ks = {}"
begin

lemma keys_reads: "list_all (reading bucket) cs \<Longrightarrow> keys (tr @ cs) = keys tr"
proof (induction cs arbitrary: tr)
  case (Cons c cs)
  then show ?case using Cons.IH [of "tr @ [c]"] read_law by simp
qed simp

lemma keys_batches:
  "keys (tr @ map (DeleteCall bucket) bs) \<subseteq> keys tr
   \<and> keys tr - \<Union> (set ` set bs) \<subseteq> keys (tr @ map (DeleteCall bucket) bs)"
proof (induction bs arbitrary: tr)
  case (Cons ks bs)
  then show ?case
    using Cons.IH [of "tr @ [DeleteCall bucket ks]"] delete_only [of tr ks] delete_named [of tr ks] by auto
qed simp

lemma keys_acknowledged:
  "acknowledged api bucket tr bs \<Longrightarrow> keys (tr @ map (DeleteCall bucket) bs) = keys tr - \<Union> (set ` set bs)"
proof (induction bs arbitrary: tr)
  case (Cons ks bs)
  have "api_delete api tr bucket ks = Inr []"
    using Cons.prems by (auto simp: acknowledged_def dest: spec [of _ 0])
  then have k: "keys (tr @ [DeleteCall bucket ks]) = keys tr - set ks"
    using delete_only [of tr ks] delete_named [of tr ks] delete_acknowledged [of tr ks] by blast
  have "acknowledged api bucket (tr @ [DeleteCall bucket ks]) bs"
    using Cons.prems by (auto simp: acknowledged_def dest: spec [of _ "Suc _"])
  from Cons.IH [OF this] k show ?case by auto
qed simp

lemma keys_batch_calls:
  "keys (tr @ take n (batch_calls bucket ks)) \<subseteq> keys tr"
  "keys tr - set ks \<subseteq> keys (tr @ take n (batch_calls bucket ks))"
  "acknowledged api bucket tr (chunks delete_batch_size ks) \<Longrightarrow> keys (tr @ batch_calls bucket ks) = keys tr - set ks"
proof -
  have t: "take n (batch_calls bucket ks) = map (DeleteCall bucket) (take n (chunks delete_batch_size ks))"
    by (simp add: batch_calls_def take_map)
  have "\<Union> (set ` set (take n (chunks delete_batch_size ks))) \<subseteq> set ks"
    using set_chunks [of delete_batch_size ks] set_take_subset [of n "chunks delete_batch_size ks"] by auto
  then show "keys (tr @ take n (batch_calls bucket ks)) \<subseteq> keys tr"
    "keys tr - set ks \<subseteq> keys (tr @ take n (batch_calls bucket ks))"
    using keys_batches [of tr "take n (chunks delete_batch_size ks)"] unfolding t by blast+
  show "acknowledged api bucket tr (chunks delete_batch_size ks) \<Longrightarrow> keys (tr @ batch_calls bucket ks) = keys tr - set ks"
    using keys_acknowledged set_chunks [of delete_batch_size ks] by (simp add: batch_calls_def)
qed

text \<open>A pass over given backups that succeeds removes their artifacts and nothing else.\<close>

lemma delete_backups_removes:
  assumes "delete_backups api bucket scope bs tr = (None, tr')"
  shows "keys tr' = keys tr - bi_key ` set bs - bi_manifest_key ` set bs"
proof -
  let ?c = "batch_calls bucket (map bi_key bs)" and ?m = "batch_calls bucket (map bi_manifest_key bs)"
  have "tr' = tr @ ?c @ ?m" "acknowledged api bucket tr (chunks delete_batch_size (map bi_key bs))"
    "acknowledged api bucket (tr @ ?c) (chunks delete_batch_size (map bi_manifest_key bs))"
    using assms by (auto elim!: delete_backups_calls)
  then show ?thesis
    using keys_batch_calls(3) [of tr "map bi_key bs"] keys_batch_calls(3) [of "tr @ ?c" "map bi_manifest_key bs"]
    by simp
qed

text \<open>
  A crash: only a prefix of the calls has happened. The manifest of a backup is gone only if
  its ciphertext is, so that what is left of the backup is a dangling manifest at worst.
\<close>

lemma crash_leaves_no_orphan:
  assumes "delete_backups api bucket scope bs tr = (r, tr @ cs)" "b \<in> set bs"
    and "bi_manifest_key b \<in> keys tr" "bi_manifest_key b \<notin> keys (tr @ take i cs)"
  shows "bi_key b \<notin> keys (tr @ take i cs)"
  using assms(1)
proof (rule delete_backups_calls)
  fix n m
  let ?c = "batch_calls bucket (map bi_key bs)" and ?m = "batch_calls bucket (map bi_manifest_key bs)"
  assume cs: "tr @ cs = tr @ take n ?c @ take m ?m"
    and guard: "n > 0 \<or> m > 0 \<or> r = None \<Longrightarrow> guard_keys scope ciphertext_suffix (map bi_key bs) = None
       \<and> guard_keys scope manifest_suffix (map bi_manifest_key bs) = None"
    and order: "m > 0 \<or> r = None \<Longrightarrow> take n ?c = ?c \<and> acknowledged api bucket tr (chunks delete_batch_size (map bi_key bs))"
  show "bi_key b \<notin> keys (tr @ take i cs)"
  proof (cases "i \<le> length (take n ?c) \<or> m = 0")
    case True
    then have t: "take i cs = take (min i n) ?c" using cs by auto
    have "bi_manifest_key b \<in> bi_key ` set bs"
      using assms(3,4) keys_batch_calls(2) [of tr "map bi_key bs" "min i n"] unfolding t by auto
    moreover have "n > 0" using assms(3,4) t by (cases n) auto
    ultimately have False
      using guard assms(2) by (force simp: guard_keys_ok has_suffix_append_iff)
    then show ?thesis ..
  next
    case False
    then have o: "take n ?c = ?c" "acknowledged api bucket tr (chunks delete_batch_size (map bi_key bs))"
      using order by auto
    have "take i cs = ?c @ take (min (i - length ?c) m) ?m" using cs o(1) False by auto
    then have "keys (tr @ take i cs) \<subseteq> keys (tr @ ?c)"
      using keys_batch_calls(1) [of "tr @ ?c" "min (i - length ?c) m" "map bi_manifest_key bs"] by simp
    moreover have "bi_key b \<notin> keys (tr @ ?c)" using keys_batch_calls(3) [OF o(2)] assms(2) by simp
    ultimately show ?thesis by blast
  qed
qed

text \<open>A listing that succeeds sees the keys of the scope.\<close>

lemma listed_keys:
  assumes "list_backups api bucket scope owner tr = (Inr l, t)"
  shows "page_keys (api_list api tr bucket scope) = {k \<in> keys tr. has_prefix k scope}"
proof (rule list_law)
  have "collect_pages bucket scope pages ps = Inr qs \<Longrightarrow> \<forall>p \<in> set pages. \<exists>objs. p = Inr objs" for pages ps qs
    by (induction bucket scope pages ps rule: collect_pages.induct) auto
  then show "\<forall>p \<in> set (api_list api tr bucket scope). \<exists>objs. p = Inr objs"
    using assms by (auto simp: list_backups_def Let_def split: sum.splits)
qed

text \<open>What a successful pass leaves: all but the artifacts of the dropped backups and the dangling
  manifests it reports.\<close>

lemma prune_leaves:
  assumes "prune_with api bucket scope owner policy opts tr = ((None, res), tr')"
  shows "keys tr' = (if po_dry_run opts then keys tr
    else keys tr - bi_key ` set (pr_deleted res) - bi_manifest_key ` set (pr_deleted res)
         - set (pr_dangling_deleted res))"
proof -
  obtain l t1 where l: "list_backups api bucket scope owner tr = (Inr l, t1)"
    using assms by (auto simp: prune_with_def split: prod.splits sum.splits)
  obtain kept gone where s: "select_retention (ls_backups l) policy = (kept, gone)" by fastforce
  let ?dk = "map bi_manifest_key (filter (\<lambda>b. bi_state b = BackupDanglingManifest) (ls_backups l))"
  obtain dang t2 where d: "deletable_dangling api bucket owner ?dk t1 = (Inr dang, t2)"
    using assms l by (auto simp: prune_with_def Let_def split: prod.splits sum.splits)
  have k2: "keys t2 = keys tr"
    using list_backups_reads [of bucket tr api scope owner] deletable_dangling_reads [of bucket t1 api owner ?dk]
      l d keys_reads by (auto simp: read_only_def)
  show ?thesis
  proof (cases "po_dry_run opts")
    case True
    then show ?thesis using assms l s d k2 by (simp add: prune_with_def Let_def)
  next
    case False
    then obtain t3 where b: "delete_backups api bucket scope gone t2 = (None, t3)"
      and k: "delete_keys api bucket scope manifest_suffix dang t3 = (None, tr')"
      and res: "pr_deleted res = gone" "pr_dangling_deleted res = dang"
      using assms l s d by (auto simp: prune_with_def Let_def split: prod.splits option.splits)
    from k have "tr' = t3 @ batch_calls bucket dang" "acknowledged api bucket t3 (chunks delete_batch_size dang)"
      by (auto elim!: delete_keys_calls)
    then show ?thesis
      using keys_batch_calls(3) [of t3 dang] delete_backups_removes [OF b] k2 res False by simp
  qed
qed

end

subsection \<open>The store of the tests is a bucket\<close>

lemma fake_live_snoc_read: "reading bucket c \<Longrightarrow> fake_live f (tr @ [c]) = fake_live f tr"
  by (cases c) (simp_all add: fake_live_def reading_def)

lemma fake_keys_pages:
  "page_keys (fake_list f tr bucket scope) = {k \<in> fst ` set (fake_live f tr). has_prefix k scope}"
proof -
  let ?objs = "sort_slice (\<lambda>a b. fst a < fst b) (filter (\<lambda>(k, _). has_prefix k scope) (fake_live f tr))"
  have "page_keys (map (\<lambda>os. Inr (map (\<lambda>(k, v). \<lparr>lo_key = k, lo_size = int (length v)\<rparr>) os)) cs)
      = (\<Union>c \<in> set cs. fst ` set c)" for cs :: "(string \<times> string) list list"
    by (force simp: page_keys_def)
  moreover have "(\<Union>c \<in> set (chunks n ?objs). fst ` set c) = fst ` set ?objs" for n
    using set_chunks [of n ?objs] by blast
  moreover have "page_keys [Inr []] = fst ` set ?objs" if "?objs = []"
    using that by (simp add: page_keys_def)
  ultimately have "page_keys (fake_list f tr bucket scope) = fst ` set ?objs"
    by (cases "?objs = []") (simp_all only: fake_list_def Let_def if_True if_False list.map simp_thms)
  then show ?thesis by force
qed

definition fake_keys :: "fake_store \<Rightarrow> trace \<Rightarrow> string set" where
  "fake_keys f tr = fst ` set (fake_live f tr)"

interpretation fake: s3_bucket "fake_api f" bucket "fake_keys f" for f bucket
proof
  fix tr scope c ks
  show "page_keys (api_list (fake_api f) tr bucket scope) = {k \<in> fake_keys f tr. has_prefix k scope}"
    by (simp add: fake_api_def fake_keys_pages fake_keys_def)
  show "fake_keys f (tr @ [c]) = fake_keys f tr" if "reading bucket c"
    using that by (simp add: fake_keys_def fake_live_snoc_read)
  show "fake_keys f (tr @ [DeleteCall bucket ks]) \<subseteq> fake_keys f tr"
    "fake_keys f tr - set ks \<subseteq> fake_keys f (tr @ [DeleteCall bucket ks])"
    by (force simp: fake_keys_def fake_live_def)+
  show "fake_keys f (tr @ [DeleteCall bucket ks]) \<inter> set ks = {}"
    if "api_delete (fake_api f) tr bucket ks = Inr []"
    using that by (auto simp: fake_keys_def fake_live_def fake_api_def fake_delete_def split: option.splits)
qed

subsection \<open>Properties\<close>

text \<open>Ciphertext before manifest: against any store, however it answers, in any prefix of the
  calls that delete backups a manifest key occurs only after every ciphertext was sent in a
  delete call that the store acknowledged.\<close>

theorem manifests_deleted_last:
  assumes "delete_backups api bucket scope bs tr = (r, tr @ cs)" "b \<in> set bs"
    and "bi_manifest_key b \<in> deleted_keys (take i cs)"
  shows "bi_key ` set bs \<subseteq> deleted_keys (take i cs)
    \<and> acknowledged api bucket tr (chunks delete_batch_size (map bi_key bs))"
  using assms(1)
proof (rule delete_backups_calls)
  fix n m
  let ?c = "batch_calls bucket (map bi_key bs)" and ?m = "batch_calls bucket (map bi_manifest_key bs)"
  assume cs: "tr @ cs = tr @ take n ?c @ take m ?m"
    and guard: "n > 0 \<or> m > 0 \<or> r = None \<Longrightarrow> guard_keys scope ciphertext_suffix (map bi_key bs) = None
       \<and> guard_keys scope manifest_suffix (map bi_manifest_key bs) = None"
    and order: "m > 0 \<or> r = None \<Longrightarrow> take n ?c = ?c \<and> acknowledged api bucket tr (chunks delete_batch_size (map bi_key bs))"
  show ?thesis
  proof (cases "i \<le> length (take n ?c) \<or> m = 0")
    case True
    then have t: "take i cs = take (min i n) ?c" using cs by auto
    then have "bi_manifest_key b \<in> bi_key ` set bs" "n > 0"
      using assms(3) deleted_take_batches [of "min i n" bucket "map bi_key bs"] by (auto intro: gr0I)
    then have False using guard assms(2) by (force simp: guard_keys_ok has_suffix_append_iff)
    then show ?thesis ..
  next
    case False
    then have o: "take n ?c = ?c" "acknowledged api bucket tr (chunks delete_batch_size (map bi_key bs))"
      using order by auto
    have "take i cs = ?c @ take (i - length ?c) (take m ?m)" using cs o(1) False by auto
    then show ?thesis using o(2) by simp
  qed
qed

theorem manifests_deleted_last_witness:
  "''p/x.dump.zst.age'' \<in> deleted_keys [DeleteCall ''b'' [''p/x.dump.zst.age''], DeleteCall ''b'' [''p/x.manifest.json'']]
   \<and> acknowledged (fake_api two_backups) ''b'' [] (chunks delete_batch_size [bi_key old_backup])"
proof -
  have "bi_key old_backup = ''p/x.dump.zst.age''" "bi_manifest_key old_backup = ''p/x.manifest.json''"
    by code_simp+
  then show ?thesis
    using manifests_deleted_last [OF two_deleted [of "[]"], of old_backup 2] by simp
qed



text \<open>C31: what a pass that reports success leaves in the store of the tests: nothing is gone in a
  dry run; otherwise exactly the two artifacts of every backup it reports as deleted and the
  dangling manifests it reports are gone.\<close>

theorem prune_reports_what_it_did:
  assumes "prune_with (fake_api f) bucket scope owner policy opts tr = ((None, res), tr')"
  shows "fake_keys f tr' = (if po_dry_run opts then fake_keys f tr
    else fake_keys f tr - bi_key ` set (pr_deleted res) - bi_manifest_key ` set (pr_deleted res)
         - set (pr_dangling_deleted res))"
  by (rule fake.prune_leaves [OF assms])

theorem prune_reports_what_it_did_witness:
  "fake_keys two_backups (snd (prune_with (fake_api two_backups) ''b'' ''p/'' None sample_policy wet_run []))
     = {''p/y.dump.zst.age'', ''p/y.manifest.json''}"
proof -
  have k: "bi_key old_backup = ''p/x.dump.zst.age''" "bi_manifest_key old_backup = ''p/x.manifest.json''"
    by code_simp+
  have "fake_keys two_backups [] - {''p/x.dump.zst.age''} - {''p/x.manifest.json''} = {''p/y.dump.zst.age'', ''p/y.manifest.json''}"
    by (auto simp: fake_keys_def fake_live_def two_backups_def)
  then show ?thesis
    using prune_reports_what_it_did [OF two_pruned] k two_pruned by (simp add: wet_run_def)
qed

end
