(* ===== verification/GoFlag.thy ===== *)
theory GoFlag
  imports GoJson
begin

section \<open>Package flag: parsing of command lines\<close>

text \<open>
  \<open>flag.FlagSet.Parse\<close> with \<open>ContinueOnError\<close> for flags that hold a string, a boolean or an
  integer. The result of parsing lists the flags that were set, in order, with the texts of their
  values, and the arguments that are left. Of the output of the package the message of an error
  is modelled; the text of the usage, which the package derives from the definitions, is not.
\<close>

datatype flag_kind = StringFlag | BoolFlag | IntFlag

text \<open>A flag with its name, kind and default.\<close>

type_synonym flag_spec = "string \<times> flag_kind \<times> string"

subsection \<open>Values\<close>

definition parse_bool :: "string \<Rightarrow> bool option" where
  "parse_bool s =
     (if s \<in> {''1'', ''t'', ''T'', ''true'', ''TRUE'', ''True''} then Some True
      else if s \<in> {''0'', ''f'', ''F'', ''false'', ''FALSE'', ''False''} then Some False
      else None)"

text \<open>\<open>strconv.ParseInt\<close> with base 0 and 64 bits: a prefix gives the base, and an underscore may
  stand between digits, or behind a prefix.\<close>

definition digit_in :: "nat \<Rightarrow> char \<Rightarrow> nat option" where
  "digit_in base c =
     (let v = (if is_digit c then Some (of_char c - 48)
               else if CHR ''a'' \<le> c \<and> c \<le> CHR ''z'' then Some (of_char c - 87)
               else if CHR ''A'' \<le> c \<and> c \<le> CHR ''Z'' then Some (of_char c - 55) else None)
      in case v of Some n \<Rightarrow> if n < base then Some n else None | None \<Rightarrow> None)"

fun digits_in :: "nat \<Rightarrow> nat \<Rightarrow> string \<Rightarrow> nat option" where
  "digits_in base acc [] = Some acc"
| "digits_in base acc (c # cs) =
     (case digit_in base c of None \<Rightarrow> None | Some n \<Rightarrow> digits_in base (base * acc + n) cs)"

text \<open>The base, the digits, and whether a prefix counts as a digit for an underscore behind it.\<close>

definition base_prefix :: "string \<Rightarrow> nat \<times> string \<times> bool" where
  "base_prefix s =
     (case s of
        z # b # r \<Rightarrow>
          if z = CHR ''0'' \<and> r \<noteq> [] \<and> lower_char b = CHR ''b'' then (2, r, True)
          else if z = CHR ''0'' \<and> r \<noteq> [] \<and> lower_char b = CHR ''o'' then (8, r, True)
          else if z = CHR ''0'' \<and> r \<noteq> [] \<and> lower_char b = CHR ''x'' then (16, r, True)
          else if z = CHR ''0'' then (8, b # r, True)
          else (10, s, False)
      | _ \<Rightarrow> (10, s, False))"

fun underscores_ok :: "bool \<Rightarrow> string \<Rightarrow> bool" where
  "underscores_ok after_digit [] = True"
| "underscores_ok after_digit (c # cs) =
     (if c = CHR ''_'' then after_digit \<and> cs \<noteq> [] \<and> hd cs \<noteq> CHR ''_'' \<and> underscores_ok False cs
      else underscores_ok True cs)"

definition parse_int0 :: "string \<Rightarrow> int option" where
  "parse_int0 s =
     (let neg = has_prefix s ''-'';
          t = (if neg \<or> has_prefix s ''+'' then drop 1 s else s);
          (base, ds, pre) = base_prefix t;
          digits = filter (\<lambda>c. c \<noteq> CHR ''_'') ds in
      if t = [] \<or> digits = [] \<or> \<not> underscores_ok pre ds then None
      else case digits_in base 0 digits of
        None \<Rightarrow> None
      | Some n \<Rightarrow>
          if neg then (if int n \<le> 2 ^ 63 then Some (- int n) else None)
          else (if int n < 2 ^ 63 then Some (int n) else None))"

definition value_accepted :: "flag_kind \<Rightarrow> string \<Rightarrow> bool" where
  "value_accepted k v =
     (case k of StringFlag \<Rightarrow> True | BoolFlag \<Rightarrow> parse_bool v \<noteq> None | IntFlag \<Rightarrow> parse_int0 v \<noteq> None)"

subsection \<open>Parsing\<close>

datatype flag_error = HelpAsked | FlagFailed string

text \<open>One flag: none is left (and the arguments are these), an error, or a flag set.\<close>

datatype flag_step = NoFlag "string list" | BadFlag flag_error | SetFlag string string "string list"

definition parse_one :: "flag_spec list \<Rightarrow> string \<Rightarrow> string list \<Rightarrow> flag_step" where
  "parse_one specs s args =
     (if length s < 2 \<or> hd s \<noteq> CHR ''-'' then NoFlag (s # args)
      else if s = ''--'' then NoFlag args
      else let body = (if has_prefix s ''--'' then drop 2 s else drop 1 s) in
        if body = [] \<or> hd body = CHR ''-'' \<or> hd body = CHR ''=''
        then BadFlag (FlagFailed (''bad flag syntax: '' @ s))
        else let (name, given) = (case cut ''='' body of None \<Rightarrow> (body, None) | Some (n, v) \<Rightarrow> (n, Some v)) in
          case map_of specs name of
            None \<Rightarrow>
              if name = ''help'' \<or> name = ''h'' then BadFlag HelpAsked
              else BadFlag (FlagFailed (''flag provided but not defined: -'' @ name))
          | Some (k, _) \<Rightarrow>
              if k = BoolFlag then
                (let v = (case given of None \<Rightarrow> ''true'' | Some v \<Rightarrow> v) in
                 if value_accepted k v then SetFlag name v args
                 else BadFlag (FlagFailed (''invalid boolean value '' @ go_quote v @ '' for -'' @ name @ '': parse error'')))
              else (case (given, args) of
                  (None, []) \<Rightarrow> BadFlag (FlagFailed (''flag needs an argument: -'' @ name))
                | (None, v # rest) \<Rightarrow>
                    if value_accepted k v then SetFlag name v rest
                    else BadFlag (FlagFailed (''invalid value '' @ go_quote v @ '' for flag -'' @ name))
                | (Some v, _) \<Rightarrow>
                    if value_accepted k v then SetFlag name v args
                    else BadFlag (FlagFailed (''invalid value '' @ go_quote v @ '' for flag -'' @ name))))"

lemma parse_one_shorter: "parse_one specs s args = SetFlag n v rest \<Longrightarrow> length rest \<le> length args"
  by (auto simp: parse_one_def Let_def split: if_splits option.splits list.splits prod.splits)

function parse_args :: "flag_spec list \<Rightarrow> string list \<Rightarrow> flag_error + ((string \<times> string) list \<times> string list)" where
  "parse_args specs [] = Inr ([], [])"
| "parse_args specs (s # args) =
     (case parse_one specs s args of
        NoFlag rest \<Rightarrow> Inr ([], rest)
      | BadFlag e \<Rightarrow> Inl e
      | SetFlag n v rest \<Rightarrow>
          (case parse_args specs rest of
             Inl e \<Rightarrow> Inl e
           | Inr (vs, left) \<Rightarrow> Inr ((n, v) # vs, left)))"
  by pat_completeness auto
termination by (relation "measure (\<lambda>(specs, args). length args)") (auto dest: parse_one_shorter)

text \<open>The value of a flag is the last one set, or its default.\<close>

definition flag_value :: "flag_spec list \<Rightarrow> (string \<times> string) list \<Rightarrow> string \<Rightarrow> string" where
  "flag_value specs vs name =
     (case map_of (rev vs) name of
        Some v \<Rightarrow> v
      | None \<Rightarrow> (case map_of specs name of Some (_, d) \<Rightarrow> d | None \<Rightarrow> []))"

definition flag_bool :: "flag_spec list \<Rightarrow> (string \<times> string) list \<Rightarrow> string \<Rightarrow> bool" where
  "flag_bool specs vs name = (parse_bool (flag_value specs vs name) = Some True)"

definition flag_int :: "flag_spec list \<Rightarrow> (string \<times> string) list \<Rightarrow> string \<Rightarrow> int" where
  "flag_int specs vs name = (case parse_int0 (flag_value specs vs name) of Some i \<Rightarrow> i | None \<Rightarrow> 0)"

lemma parse_args_example:
  "parse_args [(''config'', StringFlag, []), (''yes'', BoolFlag, ''false''), (''n'', IntFlag, ''0'')]
     [''--yes'', ''-config=a'', ''-n'', ''0x1_0'', ''rest'']
   = Inr ([(''yes'', ''true''), (''config'', ''a''), (''n'', ''0x1_0'')], [''rest''])"
  "map parse_int0 [''0x1_0'', ''-12'', ''1__0'', ''010'', ''_1''] = [Some 16, Some (- 12), None, Some 8, None]"
  by code_simp+

end
