(* ===== verification/Secrets.thy ===== *)
theory Secrets
  imports Errors
begin

section \<open>References to secrets, and the keychain\<close>

text \<open>
  The file \<open>config/secret.go\<close>. The configuration holds only references; a value is resolved from
  the environment or the keychain of the operating system. The keychain is a library: its
  operations are the record \<open>keyring\<close> over a store of values, and its documented laws are the
  locale \<open>keyring_laws\<close>, under which a rollback is exact. The keyring with injected failures of
  \<open>config/secret_rollback_test.go\<close> is its interpretation.
\<close>

record secret_ref =
  sr_keyring :: string
  sr_env :: string

definition keyring_service :: string where
  "keyring_service = ''dbferry''"

definition ref_empty :: "secret_ref \<Rightarrow> bool" where
  "ref_empty r \<longleftrightarrow> sr_keyring r = [] \<and> sr_env r = []"

definition ref_string :: "secret_ref \<Rightarrow> string" where
  "ref_string r =
     (if sr_keyring r \<noteq> [] then ''keyring:'' @ sr_keyring r
      else if sr_env r \<noteq> [] then ''env:'' @ sr_env r else ''(unset)'')"

definition ref_marshal :: "secret_ref \<Rightarrow> goerr + string" where
  "ref_marshal r = (if ref_empty r then Inl (Errorf ''empty secret reference'' [] None) else Inr (ref_string r))"

text \<open>\<open>UnmarshalText\<close> on the value \<open>r\<close> of the receiver.\<close>

definition ref_unmarshal :: "secret_ref \<Rightarrow> string \<Rightarrow> goerr + secret_ref" where
  "ref_unmarshal r b =
     (let s = trim_space b;
          checked = (\<lambda>r'. if ref_empty r' then Inl (Errorf ''empty secret reference name in %q'' [s] None) else Inr r') in
      if has_prefix s ''keyring:'' then checked (r\<lparr>sr_keyring := trim_prefix s ''keyring:''\<rparr>)
      else if has_prefix s ''env:'' then checked (r\<lparr>sr_env := trim_prefix s ''env:''\<rparr>)
      else Inl (Errorf (''secret reference must be '' @ [CHR 0x22] @ ''keyring:NAME'' @ [CHR 0x22] @ '' or '' @ [CHR 0x22]
                @ ''env:NAME'' @ [CHR 0x22] @ '', got %q'') [s] None))"

subsection \<open>The keychain\<close>

type_synonym keychain = "string \<rightharpoonup> string"

text \<open>\<open>keyring.ErrNotFound\<close>, or another error.\<close>

datatype keyring_error = NotFound | KeyringError goerr

record keyring =
  kr_get :: "keychain \<Rightarrow> string \<Rightarrow> keyring_error + string"
  kr_set :: "keychain \<Rightarrow> string \<Rightarrow> string \<Rightarrow> goerr option \<times> keychain"
  kr_delete :: "keychain \<Rightarrow> string \<Rightarrow> keyring_error option \<times> keychain"

definition ref_resolve :: "(string \<Rightarrow> string) \<Rightarrow> keyring \<Rightarrow> keychain \<Rightarrow> secret_ref \<Rightarrow> goerr + string" where
  "ref_resolve getenv kr K r =
     (if sr_env r \<noteq> [] then
        (if getenv (sr_env r) = [] then Inl (Errorf ''secret env var $%s is not set'' [sr_env r] None)
         else Inr (getenv (sr_env r)))
      else if sr_keyring r \<noteq> [] then
        (case kr_get kr K (sr_keyring r) of
           Inr v \<Rightarrow> Inr v
         | Inl NotFound \<Rightarrow>
             Inl (Errorf ''secret %q not found in the OS keychain (re-run `dbferry init` or use an env reference)''
               [sr_keyring r] None)
         | Inl (KeyringError e) \<Rightarrow>
             Inl (Errorf ''read secret %q from the OS keychain: %w (on a headless machine use an env reference instead)''
               [sr_keyring r] (Some e)))
      else Inl (Errorf ''empty secret reference'' [] None))"

definition ref_store :: "keyring \<Rightarrow> secret_ref \<Rightarrow> string \<Rightarrow> keychain \<Rightarrow> goerr option \<times> keychain" where
  "ref_store kr r v K =
     (if sr_keyring r = []
      then (Some (Errorf ''can only store keyring-backed secrets (env references are user-managed)'' [] None), K)
      else (case kr_set kr K (sr_keyring r) v of
              (Some e, K') \<Rightarrow> (Some (Errorf ''store secret %q in the OS keychain: %w'' [sr_keyring r] (Some e)), K')
            | (None, K') \<Rightarrow> (None, K')))"

definition ref_delete :: "keyring \<Rightarrow> secret_ref \<Rightarrow> keychain \<Rightarrow> goerr option \<times> keychain" where
  "ref_delete kr r K =
     (if sr_keyring r = [] then (None, K)
      else (case kr_delete kr K (sr_keyring r) of
              (Some (KeyringError e), K') \<Rightarrow>
                (Some (Errorf ''delete secret %q from the OS keychain: %w'' [sr_keyring r] (Some e)), K')
            | (_, K') \<Rightarrow> (None, K')))"

text \<open>The closures that \<open>StoreWithRollback\<close> returns.\<close>

definition restore_previous :: "keyring \<Rightarrow> secret_ref \<Rightarrow> string \<Rightarrow> keychain \<Rightarrow> goerr option \<times> keychain" where
  "restore_previous kr r prev K =
     (case kr_set kr K (sr_keyring r) prev of
        (Some e, K') \<Rightarrow> (Some (Errorf ''restore previous secret %q in the OS keychain: %w'' [sr_keyring r] (Some e)), K')
      | (None, K') \<Rightarrow> (None, K'))"

definition store_with_rollback :: "keyring \<Rightarrow> secret_ref \<Rightarrow> string \<Rightarrow> keychain
    \<Rightarrow> (goerr + (keychain \<Rightarrow> goerr option \<times> keychain)) \<times> keychain" where
  "store_with_rollback kr r v K =
     (case kr_get kr K (sr_keyring r) of
        Inl (KeyringError e) \<Rightarrow>
          (Inl (Errorf ''read current secret %q from the OS keychain: %w (not overwriting a value that cannot be restored)''
             [sr_keyring r] (Some e)), K)
      | got \<Rightarrow>
          (case ref_store kr r v K of
             (Some e, K') \<Rightarrow> (Inl e, K')
           | (None, K') \<Rightarrow>
               (case got of
                  Inr prev \<Rightarrow> (Inr (restore_previous kr r prev), K')
                | Inl _ \<Rightarrow> (Inr (ref_delete kr r), K'))))"

subsection \<open>The laws of a keychain\<close>

locale keyring_laws =
  fixes kr :: keyring
  assumes get_value: "kr_get kr K k = Inr v \<Longrightarrow> K k = Some v"
    and get_missing: "kr_get kr K k = Inl NotFound \<Longrightarrow> K k = None"
    and set_value: "kr_set kr K k v = (None, K') \<Longrightarrow> K' = K(k \<mapsto> v)"
    and set_failed: "kr_set kr K k v = (Some e, K') \<Longrightarrow> K' = K"
    and delete_value: "kr_delete kr K k = (None, K') \<Longrightarrow> K' = K(k := None)"
    and delete_missing: "kr_delete kr K k = (Some NotFound, K') \<Longrightarrow> K' = K \<and> K k = None"
    and delete_failed: "kr_delete kr K k = (Some (KeyringError e), K') \<Longrightarrow> K' = K"
begin

lemma store_ok: "ref_store kr r v K = (None, K') \<Longrightarrow> sr_keyring r \<noteq> [] \<and> K' = K(sr_keyring r \<mapsto> v)"
  using set_value by (auto simp: ref_store_def split: if_splits prod.splits option.splits)

lemma store_error: "ref_store kr r v K = (Some e, K') \<Longrightarrow> K' = K"
  using set_failed by (auto simp: ref_store_def split: if_splits prod.splits option.splits)

lemma delete_ok: "ref_delete kr r K = (None, K') \<Longrightarrow> sr_keyring r \<noteq> [] \<Longrightarrow> K' = K(sr_keyring r := None)"
  using delete_value delete_missing
  by (auto simp: ref_delete_def fun_upd_idem split: if_splits prod.splits option.splits keyring_error.splits)

lemma delete_error: "ref_delete kr r K = (Some e, K') \<Longrightarrow> K' = K"
  using delete_failed by (auto simp: ref_delete_def split: if_splits prod.splits option.splits keyring_error.splits)

lemma restore_ok: "restore_previous kr r prev K = (None, K') \<Longrightarrow> K' = K(sr_keyring r \<mapsto> prev)"
  using set_value by (auto simp: restore_previous_def split: prod.splits option.splits)

lemma restore_error: "restore_previous kr r prev K = (Some e, K') \<Longrightarrow> K' = K"
  using set_failed by (auto simp: restore_previous_def split: prod.splits option.splits)

lemma refused_untouched: "store_with_rollback kr r v K = (Inl e, K') \<Longrightarrow> K' = K"
  using store_error
  by (auto simp: store_with_rollback_def split: sum.splits keyring_error.splits prod.splits option.splits)

lemma rollback_exact:
  assumes "store_with_rollback kr r v K = (Inr undo, K')"
  shows "K' = K(sr_keyring r \<mapsto> v)" "undo K' = (None, K'') \<Longrightarrow> K'' = K" "undo K' = (Some e, K'') \<Longrightarrow> K'' = K'"
proof -
  consider (new) "kr_get kr K (sr_keyring r) = Inl NotFound" "ref_store kr r v K = (None, K')" "undo = ref_delete kr r"
    | (old) prev where "kr_get kr K (sr_keyring r) = Inr prev" "ref_store kr r v K = (None, K')" "undo = restore_previous kr r prev"
    using assms by (auto simp: store_with_rollback_def split: sum.splits keyring_error.splits prod.splits option.splits)
  then have "K' = K(sr_keyring r \<mapsto> v) \<and> (undo K' = (None, K'') \<longrightarrow> K'' = K) \<and> (undo K' = (Some e, K'') \<longrightarrow> K'' = K')"
  proof cases
    case new
    then show ?thesis using get_missing store_ok delete_ok delete_error by (metis fun_upd_triv fun_upd_upd)
  next
    case old
    then show ?thesis using get_value store_ok restore_ok restore_error by (metis fun_upd_triv fun_upd_upd)
  qed
  then show "K' = K(sr_keyring r \<mapsto> v)" "undo K' = (None, K'') \<Longrightarrow> K'' = K" "undo K' = (Some e, K'') \<Longrightarrow> K'' = K'" by auto
qed

end

subsection \<open>The keychain of the tests\<close>

text \<open>A keychain in memory, with an error for the operations that are switched to fail.\<close>

definition mock_keyring :: "goerr option \<Rightarrow> goerr option \<Rightarrow> goerr option \<Rightarrow> keyring" where
  "mock_keyring on_get on_set on_delete =
     \<lparr>kr_get = (\<lambda>K k. case on_get of Some e \<Rightarrow> Inl (KeyringError e)
                     | None \<Rightarrow> (case K k of None \<Rightarrow> Inl NotFound | Some v \<Rightarrow> Inr v)),
      kr_set = (\<lambda>K k v. case on_set of Some e \<Rightarrow> (Some e, K) | None \<Rightarrow> (None, K(k \<mapsto> v))),
      kr_delete = (\<lambda>K k. case on_delete of Some e \<Rightarrow> (Some (KeyringError e), K)
                     | None \<Rightarrow> (case K k of None \<Rightarrow> (Some NotFound, K) | Some v \<Rightarrow> (None, K(k := None))))\<rparr>"

interpretation mock: keyring_laws "mock_keyring g s d" for g s d
  by unfold_locales (auto simp: mock_keyring_def split: option.splits)

subsection \<open>Properties\<close>

text \<open>Storing a password never loses one: with a keychain that keeps its documented laws, a
  store that is refused leaves every entry as it was, one that succeeds changes the one entry,
  and its rollback puts the keychain back exactly as it was, deleting an entry only if there
  was none before, or reports an error while the new value is still there.\<close>

theorem rollback_restores:
  assumes "keyring_laws kr" "store_with_rollback kr r v K = (res, K')"
  shows "case res of
      Inl e \<Rightarrow> K' = K
    | Inr undo \<Rightarrow> K' = K(sr_keyring r \<mapsto> v)
        \<and> (case undo K' of (None, K'') \<Rightarrow> K'' = K | (Some e, K'') \<Rightarrow> K'' = K')"
proof (cases res)
  case (Inl e)
  then show ?thesis using keyring_laws.refused_untouched [OF assms(1)] assms(2) by simp
next
  case (Inr undo)
  then show ?thesis using keyring_laws.rollback_exact [OF assms(1)] assms(2) by (auto split: prod.split option.split)
qed

theorem rollback_restores_witness:
  "\<exists>undo. store_with_rollback (mock_keyring None None None) \<lparr>sr_keyring = ''dbferry/app'', sr_env = []\<rparr> ''new''
       [''dbferry/app'' \<mapsto> ''old''] = (Inr undo, [''dbferry/app'' \<mapsto> ''new''])
     \<and> undo [''dbferry/app'' \<mapsto> ''new''] = (None, [''dbferry/app'' \<mapsto> ''old''])"
proof -
  let ?kr = "mock_keyring None None None" and ?r = "\<lparr>sr_keyring = ''dbferry/app'', sr_env = []\<rparr>"
  have s: "store_with_rollback ?kr ?r ''new'' [''dbferry/app'' \<mapsto> ''old'']
      = (Inr (restore_previous ?kr ?r ''old''), [''dbferry/app'' \<mapsto> ''new''])"
    by (simp add: store_with_rollback_def ref_store_def mock_keyring_def)
  have "restore_previous ?kr ?r ''old'' K = (None, K(''dbferry/app'' \<mapsto> ''old''))" for K
    by (simp add: restore_previous_def mock_keyring_def)
  then show ?thesis using rollback_restores [OF mock.keyring_laws_axioms s] s by auto
qed

text \<open>A reference in the configuration file is read back as it was written: its text names the
  place of the secret and never holds the secret.\<close>

theorem ref_text_roundtrip:
  assumes "ref_marshal r = Inr t" "sr_keyring r = [] \<or> sr_env r = []"
    "last (sr_keyring r @ sr_env r) \<notin> white"
  shows "ref_unmarshal \<lparr>sr_keyring = [], sr_env = []\<rparr> t = Inr r"
proof -
  have t: "t = ref_string r" "\<not> ref_empty r" using assms(1) by (auto simp: ref_marshal_def split: if_splits)
  have name: "trim_space (word @ n) = word @ n" if "word \<noteq> []" "hd word \<notin> white" "n \<noteq> []" "last n \<notin> white" for word n
    by (rule trim_space_id) (use that in auto)
  show ?thesis
  proof (cases "sr_keyring r = []")
    case True
    then have "sr_env r \<noteq> []" "last (sr_env r) \<notin> white" using t(2) assms(3) by (auto simp: ref_empty_def)
    then show ?thesis
      using True t name [of "''env:''" "sr_env r"]
      by (cases r) (simp add: ref_string_def ref_unmarshal_def ref_empty_def trim_prefix_def white_def)
  next
    case False
    then have "sr_env r = []" "last (sr_keyring r) \<notin> white" using assms(2,3) by auto
    then show ?thesis
      using False t name [of "''keyring:''" "sr_keyring r"]
      by (cases r) (simp add: ref_string_def ref_unmarshal_def ref_empty_def trim_prefix_def white_def)
  qed
qed

theorem ref_text_roundtrip_witness:
  "ref_unmarshal \<lparr>sr_keyring = [], sr_env = []\<rparr> ''keyring:dbferry/app'' = Inr \<lparr>sr_keyring = ''dbferry/app'', sr_env = []\<rparr>"
  by (rule ref_text_roundtrip) (simp_all add: ref_marshal_def ref_empty_def ref_string_def white_def)

end
