(* ===== verification/ConfigStore.thy ===== *)
theory ConfigStore
  imports Secrets GoSort GoPath
begin

section \<open>The configuration file\<close>

text \<open>
  The files \<open>config/config.go\<close> (the data), \<open>config/store.go\<close> and \<open>config/store_unix.go\<close>: named
  connections and destinations in one file, which is trusted only if it is private, and written
  atomically under a lock. A file system is a map from paths to files; a save is the sequence of
  file systems that a crash could leave. The TOML library is the record \<open>toml\<close>; a map of Go is an
  association list with distinct names.
\<close>

record connection =
  cn_engine :: string
  cn_dsn :: string
  cn_password :: secret_ref
  cn_default_database :: string
  cn_destination :: string
  cn_age_recipient :: string

record destination =
  ds_bucket :: string
  ds_prefix :: string
  ds_endpoint :: string
  ds_region :: string
  ds_profile :: string
  ds_access_key :: "secret_ref option"
  ds_secret_key :: "secret_ref option"
  ds_session_token :: "secret_ref option"

record config_file =
  cf_connections :: "(string \<times> connection) list"
  cf_destinations :: "(string \<times> destination) list"

definition empty_config :: config_file where
  "empty_config = \<lparr>cf_connections = [], cf_destinations = []\<rparr>"

text \<open>The lookups of \<open>config.go\<close>; entries are never nil once a file is loaded.\<close>

definition find_connection :: "config_file \<Rightarrow> string \<Rightarrow> goerr + connection" where
  "find_connection c name =
     (case map_of (cf_connections c) name of
        None \<Rightarrow> Inl (Errorf ''no connection named %q (see `dbferry connections list`)'' [name] None)
      | Some conn \<Rightarrow> Inr conn)"

definition find_destination :: "config_file \<Rightarrow> string \<Rightarrow> goerr + destination" where
  "find_destination c name =
     (case map_of (cf_destinations c) name of
        None \<Rightarrow> Inl (Errorf ''no destination named %q (see `dbferry destinations list`)'' [name] None)
      | Some dst \<Rightarrow> Inr dst)"

definition sorted_keys :: "(string \<times> 'v) list \<Rightarrow> string list" where
  "sorted_keys m = sort_slice (\<lambda>a b :: string. a < b) (map fst m)"

subsection \<open>Files\<close>

record file_entry =
  fl_symlink :: bool
  fl_regular :: bool
  fl_perm :: nat
  fl_uid :: int
  fl_content :: string

type_synonym files = "string \<rightharpoonup> file_entry"

fun octal :: "nat \<Rightarrow> string" where
  "octal n = (if n < 8 then [digit_char n] else octal (n div 8) @ [digit_char (n mod 8)])"

declare octal.simps [simp del]

text \<open>\<open>perm&0o077\<close> are the six low bits; \<open>%#o\<close> writes a leading zero.\<close>

definition require_private :: "string \<Rightarrow> string \<Rightarrow> file_entry \<Rightarrow> goerr option" where
  "require_private what path f =
     (if fl_perm f mod 64 \<noteq> 0
      then Some (Errorf ''%s %s has insecure permissions %#o; want 0600 (chmod 600 %s)''
             [what, path, CHR ''0'' # octal (fl_perm f), path] None)
      else None)"

definition check_owner :: "int \<Rightarrow> string \<Rightarrow> file_entry \<Rightarrow> goerr option" where
  "check_owner uid path f =
     (if fl_uid f \<noteq> uid
      then Some (Errorf ''config %s is owned by uid %d, not you (uid %d); refusing to use it''
             [path, itoa (fl_uid f), itoa uid] None)
      else None)"

text \<open>The TOML library, on the texts of files.\<close>

record toml =
  tm_unmarshal :: "string \<Rightarrow> goerr + config_file"
  tm_marshal :: "config_file \<Rightarrow> goerr + string"

definition without_password :: "config_file \<Rightarrow> (string \<times> connection) option" where
  "without_password c = find (\<lambda>nc. ref_empty (cn_password (snd nc))) (cf_connections c)"

text \<open>\<open>read_error\<close> is an error of \<open>Lstat\<close> on an entry that exists, or of reading it.\<close>

definition Load :: "toml \<Rightarrow> int \<Rightarrow> goerr option \<Rightarrow> goerr option \<Rightarrow> files \<Rightarrow> string \<Rightarrow> goerr + config_file" where
  "Load tm uid stat_error read_error fs path =
     (case stat_error of
        Some e \<Rightarrow> Inl e
      | None \<Rightarrow>
          (case fs path of
             None \<Rightarrow> Inr empty_config
           | Some f \<Rightarrow>
               if fl_symlink f then Inl (Errorf ''config %s is a symlink; refusing to follow it'' [path] None)
               else if \<not> fl_regular f then Inl (Errorf ''config %s is not a regular file'' [path] None)
               else (case require_private ''config'' path f of
                 Some e \<Rightarrow> Inl e
               | None \<Rightarrow>
                   (case check_owner uid path f of
                      Some e \<Rightarrow> Inl e
                    | None \<Rightarrow>
                        (case read_error of
                           Some e \<Rightarrow> Inl e
                         | None \<Rightarrow>
                             (case tm_unmarshal tm (fl_content f) of
                                Inl e \<Rightarrow> Inl (Errorf ''parse config %s: %w'' [path] (Some e))
                              | Inr c \<Rightarrow>
                                  (case without_password c of
                                     Some (name, conn) \<Rightarrow>
                                       Inl (Errorf (''config %s: connection %q has no password reference; add password = ''
                                              @ [CHR 0x22] @ ''keyring:NAME'' @ [CHR 0x22] @ '' or '' @ [CHR 0x22] @ ''env:VAR''
                                              @ [CHR 0x22]) [path, name] None)
                                   | None \<Rightarrow> Inr c)))))))"

subsection \<open>Saving\<close>

text \<open>How the steps of a save turn out: the error of each, the name \<open>CreateTemp\<close> chose, and the
  bytes that a failing write left.\<close>

record save_env =
  sv_mkdir :: "goerr option"
  sv_create :: "goerr + string"
  sv_chmod :: "goerr option"
  sv_write :: "(goerr \<times> string) option"
  sv_sync :: "goerr option"
  sv_close :: "goerr option"
  sv_rename :: "goerr option"

definition new_file :: "int \<Rightarrow> string \<Rightarrow> file_entry" where
  "new_file uid content = \<lparr>fl_symlink = False, fl_regular = True, fl_perm = 384, fl_uid = uid, fl_content = content\<rparr>"

fun first_failure :: "goerr option list \<Rightarrow> goerr option" where
  "first_failure [] = None"
| "first_failure (Some e # es) = Some e"
| "first_failure (None # es) = first_failure es"

text \<open>The steps after the temporary file was created, with the file systems they pass through; the
  deferred removal is the last step of every path.\<close>

definition fill_temp :: "save_env \<Rightarrow> int \<Rightarrow> string \<Rightarrow> string \<Rightarrow> string \<Rightarrow> files \<Rightarrow> goerr option \<times> files list" where
  "fill_temp V uid tmp path b fs =
     (let empty = fs(tmp \<mapsto> new_file uid []); full = fs(tmp \<mapsto> new_file uid b);
          removed = (\<lambda>s :: files. s(tmp := None)) in
      case sv_chmod V of
        Some e \<Rightarrow> (Some e, [empty, removed empty])
      | None \<Rightarrow>
          (case sv_write V of
             Some (e, part) \<Rightarrow> (Some e, [empty, fs(tmp \<mapsto> new_file uid part), removed (fs(tmp \<mapsto> new_file uid part))])
           | None \<Rightarrow>
               (case first_failure [sv_sync V, sv_close V, sv_rename V] of
                  Some e \<Rightarrow> (Some e, [empty, full, removed full])
                | None \<Rightarrow>
                    (let moved = (full(tmp := None))(path \<mapsto> new_file uid b) in
                     (None, [empty, full, moved, removed moved])))))"

definition SaveLocked :: "toml \<Rightarrow> save_env \<Rightarrow> int \<Rightarrow> config_file \<Rightarrow> string \<Rightarrow> files \<Rightarrow> goerr option \<times> files list" where
  "SaveLocked tm V uid c path fs =
     (case sv_mkdir V of
        Some e \<Rightarrow> (Some e, [])
      | None \<Rightarrow>
          (case tm_marshal tm c of
             Inl e \<Rightarrow> (Some (Errorf ''encode config: %w'' [] (Some e)), [])
           | Inr b \<Rightarrow>
               (case sv_create V of
                  Inl e \<Rightarrow> (Some e, [])
                | Inr tmp \<Rightarrow> fill_temp V uid tmp path b fs)))"

definition files_after :: "files \<Rightarrow> files list \<Rightarrow> files" where
  "files_after fs states = last (fs # states)"

text \<open>Taking the lock: the directory, the lock file, and whether another process holds it.\<close>

definition lock_config :: "goerr option \<Rightarrow> goerr + bool \<Rightarrow> string \<Rightarrow> goerr option" where
  "lock_config mkdir try path =
     (case mkdir of
        Some e \<Rightarrow> Some e
      | None \<Rightarrow>
          (case try of
             Inl e \<Rightarrow> Some (Errorf ''lock config: %w'' [] (Some e))
           | Inr locked \<Rightarrow>
               if \<not> locked then Some (Errorf ''config %s is locked by another dbferry process; retry shortly'' [path] None)
               else None))"

definition Save :: "toml \<Rightarrow> goerr option \<Rightarrow> goerr + bool \<Rightarrow> save_env \<Rightarrow> int \<Rightarrow> config_file \<Rightarrow> string \<Rightarrow> files
    \<Rightarrow> goerr option \<times> files list" where
  "Save tm mkdir try V uid c path fs =
     (case lock_config mkdir try path of Some e \<Rightarrow> (Some e, []) | None \<Rightarrow> SaveLocked tm V uid c path fs)"

subsection \<open>Read, change and write under the lock\<close>

text \<open>Processes that change the configuration: each takes the lock, loads, saves the changed value and
  releases the lock; one that does not get the lock gives up. \<open>change\<close> is what process \<open>p\<close> does.\<close>

datatype 'c rmw_pc = Idle | Locked | Holding 'c | Written | Finished | GaveUp

record 'c rmw_state =
  rm_file :: 'c
  rm_holder :: "nat option"
  rm_pc :: "nat \<Rightarrow> 'c rmw_pc"
  rm_log :: "nat list"

inductive rmw_step :: "(nat \<Rightarrow> 'c \<Rightarrow> 'c) \<Rightarrow> 'c rmw_state \<Rightarrow> 'c rmw_state \<Rightarrow> bool" for change where
  take_lock: "rm_pc s p = Idle \<Longrightarrow> rm_holder s = None \<Longrightarrow>
    rmw_step change s (s\<lparr>rm_holder := Some p, rm_pc := (rm_pc s)(p := Locked)\<rparr>)"
| refused: "rm_pc s p = Idle \<Longrightarrow> rm_holder s \<noteq> None \<Longrightarrow> rmw_step change s (s\<lparr>rm_pc := (rm_pc s)(p := GaveUp)\<rparr>)"
| load: "rm_pc s p = Locked \<Longrightarrow> rmw_step change s (s\<lparr>rm_pc := (rm_pc s)(p := Holding (rm_file s))\<rparr>)"
| save: "rm_pc s p = Holding c \<Longrightarrow>
    rmw_step change s (s\<lparr>rm_file := change p c, rm_pc := (rm_pc s)(p := Written), rm_log := rm_log s @ [p]\<rparr>)"
| abandon: "rm_pc s p = Locked \<or> rm_pc s p = Holding c \<Longrightarrow>
    rmw_step change s (s\<lparr>rm_holder := None, rm_pc := (rm_pc s)(p := GaveUp)\<rparr>)"
| release: "rm_pc s p = Written \<Longrightarrow>
    rmw_step change s (s\<lparr>rm_holder := None, rm_pc := (rm_pc s)(p := Finished)\<rparr>)"

definition rmw_init :: "'c \<Rightarrow> 'c rmw_state" where
  "rmw_init c = \<lparr>rm_file = c, rm_holder = None, rm_pc = (\<lambda>p. Idle), rm_log = []\<rparr>"

definition in_lock :: "'c rmw_pc \<Rightarrow> bool" where
  "in_lock pc = (case pc of Locked \<Rightarrow> True | Holding c \<Rightarrow> True | Written \<Rightarrow> True | _ \<Rightarrow> False)"

definition rmw_inv :: "(nat \<Rightarrow> 'c \<Rightarrow> 'c) \<Rightarrow> 'c \<Rightarrow> 'c rmw_state \<Rightarrow> bool" where
  "rmw_inv change c0 s \<longleftrightarrow>
     (\<forall>p. in_lock (rm_pc s p) \<longleftrightarrow> rm_holder s = Some p)
     \<and> (\<forall>p c. rm_pc s p = Holding c \<longrightarrow> c = rm_file s)
     \<and> rm_file s = fold change (rm_log s) c0
     \<and> distinct (rm_log s) \<and> (\<forall>p. p \<in> set (rm_log s) \<longleftrightarrow> rm_pc s p \<in> {Written, Finished})"

lemma in_lock_simps [simp]:
  "in_lock Locked" "in_lock (Holding c)" "in_lock Written" "\<not> in_lock Idle" "\<not> in_lock Finished" "\<not> in_lock GaveUp"
  by (simp_all add: in_lock_def)

lemma rmw_step_inv: "rmw_step change s t \<Longrightarrow> rmw_inv change c0 s \<Longrightarrow> rmw_inv change c0 t"
proof (induction rule: rmw_step.induct)
  case (take_lock s p)
  then show ?case unfolding rmw_inv_def by (auto split: if_splits)
next
  case (refused s p)
  then have "rm_holder s \<noteq> Some p" unfolding rmw_inv_def by (metis in_lock_simps(4))
  with refused show ?case unfolding rmw_inv_def by (auto split: if_splits)
next
  case (load s p)
  then show ?case unfolding rmw_inv_def by (auto split: if_splits)
next
  case (save s p c)
  let ?t = "s\<lparr>rm_file := change p c, rm_pc := (rm_pc s)(p := Written), rm_log := rm_log s @ [p]\<rparr>"
  from save.prems have inv: "\<And>q. in_lock (rm_pc s q) \<longleftrightarrow> rm_holder s = Some q" "\<And>q d. rm_pc s q = Holding d \<Longrightarrow> d = rm_file s"
    "rm_file s = fold change (rm_log s) c0" "distinct (rm_log s)"
    "\<And>q. q \<in> set (rm_log s) \<longleftrightarrow> rm_pc s q \<in> {Written, Finished}" unfolding rmw_inv_def by blast+
  have p: "rm_holder s = Some p" "c = rm_file s" "p \<notin> set (rm_log s)"
    using save.hyps inv(1) [of p] inv(2) [of p c] inv(5) [of p] by simp_all
  have "in_lock (rm_pc ?t q) \<longleftrightarrow> rm_holder ?t = Some q" for q using inv(1) [of q] p(1) by simp
  moreover have "d = rm_file ?t" if "rm_pc ?t q = Holding d" for q d
    using that inv(1) [of q] p(1) by (cases "q = p") auto
  moreover have "rm_file ?t = fold change (rm_log ?t) c0" using inv(3) p(2) by simp
  moreover have "distinct (rm_log ?t)" using inv(4) p(3) by simp
  moreover have "q \<in> set (rm_log ?t) \<longleftrightarrow> rm_pc ?t q \<in> {Written, Finished}" for q using inv(5) [of q] by auto
  ultimately show ?case unfolding rmw_inv_def by blast
next
  case (abandon s p c)
  then have "rm_holder s = Some p" unfolding rmw_inv_def by (metis in_lock_simps(1,2))
  with abandon show ?case unfolding rmw_inv_def by (auto split: if_splits)
next
  case (release s p)
  then have "rm_holder s = Some p" unfolding rmw_inv_def by (metis in_lock_simps(3))
  with release show ?case unfolding rmw_inv_def by (auto split: if_splits)
qed

lemma rmw_reachable: "(rmw_step change)\<^sup>*\<^sup>* (rmw_init c0) s \<Longrightarrow> rmw_inv change c0 s"
proof (induction rule: rtranclp_induct)
  case base
  then show ?case by (simp add: rmw_inv_def rmw_init_def)
next
  case (step s t)
  then show ?case using rmw_step_inv by metis
qed

subsection \<open>Properties\<close>


lemma sample_updates:
  "(rmw_step (\<lambda>p c. c @ [p]))\<^sup>*\<^sup>* (rmw_init [])
     \<lparr>rm_file = [1], rm_holder = Some 1, rm_pc = (\<lambda>p. Idle)(1 := Written, 2 := GaveUp), rm_log = [1]\<rparr>"
proof -
  let ?c = "\<lambda>p c :: nat list. c @ [p]"
  have "rmw_step ?c (rmw_init []) \<lparr>rm_file = [], rm_holder = Some 1, rm_pc = (\<lambda>p. Idle)(1 := Locked), rm_log = []\<rparr>"
    using rmw_step.take_lock [of "rmw_init []" 1 ?c] by (simp add: rmw_init_def)
  moreover have "rmw_step ?c \<lparr>rm_file = [], rm_holder = Some 1, rm_pc = (\<lambda>p. Idle)(1 := Locked), rm_log = []\<rparr>
      \<lparr>rm_file = [], rm_holder = Some 1, rm_pc = (\<lambda>p. Idle)(1 := Locked, 2 := GaveUp), rm_log = []\<rparr>"
    using rmw_step.refused [of "\<lparr>rm_file = [], rm_holder = Some 1, rm_pc = (\<lambda>p. Idle)(1 := Locked), rm_log = []\<rparr>" 2 ?c] by simp
  moreover have "rmw_step ?c \<lparr>rm_file = [], rm_holder = Some 1, rm_pc = (\<lambda>p. Idle)(1 := Locked, 2 := GaveUp), rm_log = []\<rparr>
      \<lparr>rm_file = [], rm_holder = Some 1, rm_pc = (\<lambda>p. Idle)(1 := Holding [], 2 := GaveUp), rm_log = []\<rparr>"
    using rmw_step.load [of "\<lparr>rm_file = [], rm_holder = Some 1, rm_pc = (\<lambda>p. Idle)(1 := Locked, 2 := GaveUp), rm_log = []\<rparr>" 1 ?c]
    by (simp add: fun_upd_twist)
  moreover have "rmw_step ?c \<lparr>rm_file = [], rm_holder = Some 1, rm_pc = (\<lambda>p. Idle)(1 := Holding [], 2 := GaveUp), rm_log = []\<rparr>
      \<lparr>rm_file = [1], rm_holder = Some 1, rm_pc = (\<lambda>p. Idle)(1 := Written, 2 := GaveUp), rm_log = [1]\<rparr>"
    using rmw_step.save [of "\<lparr>rm_file = [], rm_holder = Some 1, rm_pc = (\<lambda>p. Idle)(1 := Holding [], 2 := GaveUp), rm_log = []\<rparr>" 1 "[]" ?c]
    by (simp add: fun_upd_twist)
  ultimately show ?thesis by (meson rtranclp.rtrancl_into_rtrancl rtranclp.rtrancl_refl)
qed


text \<open>The files of a save.\<close>

lemma fill_temp_states:
  assumes "fill_temp V uid tmp path b fs = (r, states)" "fs tmp = None" "tmp \<noteq> path"
  shows "\<forall>s \<in> set states. s path = fs path \<or> s path = Some (new_file uid b)"
    "files_after fs states = (if r = None then fs(path \<mapsto> new_file uid b) else fs)"
proof -
  have tmp: "(fs(tmp \<mapsto> x))(tmp := None) = fs" for x using assms(2) by auto
  consider (failed) e s1 s2 s3 where "r = Some e" "states = [s1, s2] \<or> states = [s1, s3, s2]"
      "s1 path = fs path" "s2 = fs" "s3 path = fs path"
    | (moved) s1 s2 where "r = None" "s1 path = fs path" "s2 path = fs path"
      "states = [s1, s2, fs(path \<mapsto> new_file uid b), fs(path \<mapsto> new_file uid b)]"
  proof (cases r)
    case None
    have "(fs(path \<mapsto> new_file uid b))(tmp := None) = fs(path \<mapsto> new_file uid b)" using assms(2,3) by auto
    then show thesis
      using moved [of "fs(tmp \<mapsto> new_file uid [])" "fs(tmp \<mapsto> new_file uid b)"] None assms(1,3) tmp
      by (auto simp: fill_temp_def Let_def split: option.splits prod.splits)
  next
    case (Some e)
    then show thesis
      using failed [of e "fs(tmp \<mapsto> new_file uid [])" fs] assms(1,3) tmp
      by (auto simp: fill_temp_def Let_def split: option.splits prod.splits)
  qed
  then have "(\<forall>s \<in> set states. s path = fs path \<or> s path = Some (new_file uid b))
    \<and> files_after fs states = (if r = None then fs(path \<mapsto> new_file uid b) else fs)"
    by cases (auto simp: files_after_def)
  then show "\<forall>s \<in> set states. s path = fs path \<or> s path = Some (new_file uid b)"
    "files_after fs states = (if r = None then fs(path \<mapsto> new_file uid b) else fs)" by blast+
qed

text \<open>C16: the configuration file is never seen half written: whatever step of a save fails and
  wherever the machine stops, the file at the path is the old one or the complete new one; in
  the end a failed save has changed nothing at all, and a successful one has replaced exactly
  this file, by one that only its owner can read and that loads as the configuration saved.\<close>

theorem save_is_atomic:
  assumes "SaveLocked tm V uid c path fs = (r, states)" "\<forall>tmp. sv_create V = Inr tmp \<longrightarrow> fs tmp = None \<and> tmp \<noteq> path"
    and "\<forall>b. tm_marshal tm c = Inr b \<longrightarrow> tm_unmarshal tm b = Inr c" "without_password c = None"
  shows "(\<forall>s \<in> set states. s path = fs path
            \<or> (\<exists>b. tm_marshal tm c = Inr b \<and> s path = Some (new_file uid b)))
    \<and> (case r of
         Some e \<Rightarrow> files_after fs states = fs
       | None \<Rightarrow> (\<forall>p. p \<noteq> path \<longrightarrow> files_after fs states p = fs p)
           \<and> Load tm uid None None (files_after fs states) path = Inr c)"
proof (cases "sv_mkdir V = None \<and> (\<exists>b tmp. tm_marshal tm c = Inr b \<and> sv_create V = Inr tmp)")
  case False
  then have "states = []" "\<exists>e. r = Some e"
    using assms(1) by (cases "sv_mkdir V"; auto simp: SaveLocked_def split: sum.splits)+
  then show ?thesis by (auto simp: files_after_def)
next
  case True
  then obtain b tmp where bt: "tm_marshal tm c = Inr b" "sv_create V = Inr tmp" "sv_mkdir V = None" by blast
  then have f: "fill_temp V uid tmp path b fs = (r, states)" using assms(1) by (simp add: SaveLocked_def)
  have t: "fs tmp = None" "tmp \<noteq> path" using assms(2) bt(2) by blast+
  have "Load tm uid None None (fs(path \<mapsto> new_file uid b)) path = Inr c"
    using assms(3,4) bt(1) by (simp add: Load_def new_file_def require_private_def check_owner_def)
  then show ?thesis using fill_temp_states [OF f t] bt(1) by (auto split: option.split)
qed

text \<open>C17: a configuration that others could have read or written is not used: a load succeeds only if
  there is no file, or the file is a regular one, not a link, owned by the caller, closed to
  group and others, and every connection in it has a reference to its password.\<close>

theorem load_refuses_unsafe:
  "(\<exists>c. Load tm uid stat_error read_error fs path = Inr c) \<longleftrightarrow>
     stat_error = None
     \<and> (case fs path of
          None \<Rightarrow> True
        | Some f \<Rightarrow> \<not> fl_symlink f \<and> fl_regular f \<and> fl_perm f mod 64 = 0 \<and> fl_uid f = uid \<and> read_error = None
            \<and> (\<exists>c. tm_unmarshal tm (fl_content f) = Inr c
                 \<and> list_all (\<lambda>nc. \<not> ref_empty (cn_password (snd nc))) (cf_connections c)))"
  by (auto simp: Load_def require_private_def check_owner_def without_password_def find_None_iff find_Some_iff list_all_iff
      split: option.splits sum.splits if_splits prod.splits)

definition sample_toml :: toml where
  "sample_toml = \<lparr>tm_unmarshal = (\<lambda>s. Inr empty_config), tm_marshal = (\<lambda>c. Inr [])\<rparr>"

definition crash_env :: save_env where
  "crash_env = \<lparr>sv_mkdir = None, sv_create = Inr ''.config-1.tmp'', sv_chmod = None, sv_write = None, sv_sync = None,
     sv_close = None, sv_rename = Some (Foreign ''read-only file system'')\<rparr>"

theorem save_is_atomic_witness:
  "files_after (\<lambda>p. None) (snd (SaveLocked sample_toml crash_env 501 empty_config ''config.toml'' (\<lambda>p. None))) = (\<lambda>p. None)"
proof -
  have s: "\<exists>states. SaveLocked sample_toml crash_env 501 empty_config ''config.toml'' (\<lambda>p. None)
      = (Some (Foreign ''read-only file system''), states)"
    by (simp add: SaveLocked_def sample_toml_def crash_env_def fill_temp_def Let_def)
  then obtain states where st: "SaveLocked sample_toml crash_env 501 empty_config ''config.toml'' (\<lambda>p. None)
      = (Some (Foreign ''read-only file system''), states)" by blast
  have "\<forall>tmp. sv_create crash_env = Inr tmp \<longrightarrow> (\<lambda>p :: string. None :: file_entry option) tmp = None \<and> tmp \<noteq> ''config.toml''"
    "\<forall>b. tm_marshal sample_toml empty_config = Inr b \<longrightarrow> tm_unmarshal sample_toml b = Inr empty_config"
    "without_password empty_config = None"
    by (simp_all add: crash_env_def sample_toml_def without_password_def empty_config_def)
  then show ?thesis using save_is_atomic [OF st] st by simp
qed

definition private_file :: files where
  "private_file = [''config.toml'' \<mapsto> new_file 501 []]"

theorem load_refuses_unsafe_witness:
  "(\<exists>c. Load sample_toml 501 None None private_file ''config.toml'' = Inr c)
   \<and> \<not> (\<exists>c. Load sample_toml 502 None None private_file ''config.toml'' = Inr c)"
  unfolding load_refuses_unsafe by (simp add: private_file_def new_file_def sample_toml_def empty_config_def)

end
