(* ===== verification/UrlRoundtrip.thy ===== *)
theory UrlRoundtrip
  imports ObjectKey
begin

section \<open>A URL that is rendered parses back\<close>

text \<open>
  The lemmas on \<open>net/url\<close> behind the handling of DSNs: escaping is undone by unescaping and leaves
  no byte that ends a part of a URL, so that the text of a URL with an authority parses to the
  same scheme, user, password, host, path and query, whatever bytes user, password and path hold.
\<close>

subsection \<open>Escaping\<close>

lemma is_hex_upper_hex [simp]: "n < 16 \<Longrightarrow> is_hex (upper_hex n)"
  by (simp add: is_hex_def upper_hex_def is_digit_def less_eq_char_def)

lemma upper_hex_alnum: "n < 16 \<Longrightarrow> is_digit (upper_hex n) \<or> is_alpha (upper_hex n)"
  by (simp add: is_alpha_def upper_hex_def is_digit_def less_eq_char_def)

lemma char_nibbles [simp]: "(of_char c :: nat) div 16 < 16"
  using nat_of_char_less_256 [of c] by (simp add: less_mult_imp_div_less)

definition plain_mode :: "enc_mode \<Rightarrow> bool" where
  "plain_mode mode \<longleftrightarrow> mode = EncodePath \<or> mode = EncodeUserPassword \<or> mode = EncodeFragment"

lemma unescape_percent:
  assumes "plain_mode mode"
  shows "unescape mode (percent c @ r) = map_option (\<lambda>t. c # t) (unescape mode r)"
proof -
  have "(of_char c :: nat) div 16 * 16 + of_char c mod 16 = of_char c" by simp
  then have "char_of ((of_char c :: nat) div 16 * 16 + of_char c mod 16) = c" by simp
  then show ?thesis using assms by (cases mode) (simp_all add: percent_def plain_mode_def)
qed

lemma percent_escaped: "plain_mode mode \<Longrightarrow> should_escape mode CHR ''%''"
  by (auto simp: plain_mode_def should_escape_def is_alpha_def is_digit_def less_eq_char_def)

lemma escape_Nil [simp]: "escape mode [] = []"
  by (simp add: escape_def)

lemma escape_Cons:
  "mode \<noteq> EncodeQuery \<Longrightarrow>
   escape mode (c # s) = (if should_escape mode c then percent c else [c]) @ escape mode s"
  by (simp add: escape_def)

lemma plain_mode_cases: "plain_mode mode \<Longrightarrow> mode \<noteq> EncodeQuery \<and> mode \<noteq> EncodeHost \<and> mode \<noteq> EncodeZone"
  by (auto simp: plain_mode_def)

lemma unescape_escape: "plain_mode mode \<Longrightarrow> unescape mode (escape mode s) = Some s"
proof (induction s)
  case (Cons c s)
  show ?case
  proof (cases "should_escape mode c")
    case True
    then show ?thesis
      using unescape_percent [OF Cons.prems] Cons plain_mode_cases [OF Cons.prems] by (simp add: escape_Cons)
  next
    case False
    then have "c \<noteq> CHR ''%''" using percent_escaped [OF Cons.prems] by auto
    then show ?thesis using False Cons plain_mode_cases [OF Cons.prems] by (simp add: escape_Cons)
  qed
qed simp

lemma percent_chars: "d \<in> set (percent c) \<Longrightarrow> d = CHR ''%'' \<or> is_digit d \<or> is_alpha d"
  using upper_hex_alnum [OF char_nibbles [of c]] upper_hex_alnum [of "of_char c mod 16"]
  unfolding percent_def by fastforce

lemma alnum_plain: "is_digit c \<or> is_alpha c \<Longrightarrow> \<not> should_escape mode c"
  by (auto simp: should_escape_def)

lemma escape_chars:
  "mode \<noteq> EncodeQuery \<Longrightarrow> c \<in> set (escape mode s) \<Longrightarrow> c = CHR ''%'' \<or> \<not> should_escape mode c"
proof (induction s)
  case (Cons d s)
  then show ?case using percent_chars [of c d] alnum_plain [of c mode]
    by (auto simp: escape_Cons split: if_splits)
qed simp

text \<open>The bytes that a part of a URL must not hold.\<close>

lemma ends_escaped: "should_escape EncodePath CHR ''?''" "should_escape EncodePath CHR ''#''"
  "should_escape EncodeUserPassword CHR ''?''" "should_escape EncodeUserPassword CHR ''#''"
  "should_escape EncodeUserPassword CHR ''/''" "should_escape EncodeUserPassword CHR ''@''"
  "should_escape EncodeUserPassword CHR '':''"
  "should_escape EncodeHost CHR ''?''" "should_escape EncodeHost CHR ''#''"
  "should_escape EncodeHost CHR ''/''" "should_escape EncodeHost CHR ''@''" "should_escape EncodeHost CHR ''%''"
  by (simp_all add: should_escape_def is_alpha_def is_digit_def less_eq_char_def)

lemma odd_escaped:
  assumes "is_ctl c \<or> 128 \<le> (of_char c :: nat)"
  shows "should_escape mode c"
proof -
  have free: "c \<notin> set xs" if "list_all (\<lambda>d. \<not> is_ctl d \<and> (of_char d :: nat) < 128) xs" for xs
    using that assms by (auto simp: list_all_iff)
  have "c \<notin> set ''!$&''" "c \<notin> set ''()*+,;=:[]<>''" "c \<notin> set ''-_.~''" "c \<notin> set ''$&+,/:;=?@''" "c \<notin> set ''!()*''"
    by (rule free, code_simp)+
  moreover have "c \<notin> {CHR 0x27}" "c \<notin> {CHR 0x22}" using free [of "[CHR 0x27]"] free [of "[CHR 0x22]"]
    by (simp_all add: is_ctl_def)
  moreover have "\<not> is_alpha c" "\<not> is_digit c"
    using assms by (auto simp: is_ctl_def is_alpha_def is_digit_def less_eq_char_def)
  ultimately show ?thesis unfolding should_escape_def by (simp only: Un_iff if_False simp_thms if_True)
qed

subsection \<open>Hosts\<close>

text \<open>A host all of whose bytes stand for themselves was written that way.\<close>

definition host_plain :: "string \<Rightarrow> bool" where
  "host_plain h = list_all (\<lambda>c. \<not> should_escape EncodeHost c) h"

lemma escape_plain: "host_plain h \<Longrightarrow> escape EncodeHost h = h"
  by (induction h) (simp_all add: host_plain_def escape_Cons)

lemma percent_code [simp]: "char_of (unhex CHR ''2'' * 16 + unhex CHR ''5'') = CHR ''%''"
  by code_simp

lemma unhex_less: "is_hex c \<Longrightarrow> unhex c < 16"
  by (auto simp: is_hex_def unhex_def is_digit_def less_eq_char_def)

lemma unescape_plain: "unescape EncodeHost s = Some h \<Longrightarrow> host_plain h \<Longrightarrow> s = h"
proof (induction EncodeHost s arbitrary: h rule: unescape.induct)
  case (2 c cs)
  show ?case
  proof (cases "c = CHR ''%''")
    case True
    then obtain x y r t where cs: "cs = x # y # r" and hex: "is_hex x" "is_hex y"
      and v: "8 \<le> unhex x \<or> x = CHR ''2'' \<and> y = CHR ''5''" and h: "h = char_of (unhex x * 16 + unhex y) # t"
      using "2.prems"(1) by (auto split: list.splits if_splits)
    have "unhex x * 16 + unhex y < 256" using unhex_less [OF hex(1)] unhex_less [OF hex(2)] by simp
    then have code: "(of_char (char_of (unhex x * 16 + unhex y) :: char) :: nat) = unhex x * 16 + unhex y" by simp
    have "should_escape EncodeHost (char_of (unhex x * 16 + unhex y))"
      using v
    proof
      assume "8 \<le> unhex x"
      then show ?thesis using odd_escaped [of "char_of (unhex x * 16 + unhex y)"] code by simp
    next
      assume "x = CHR ''2'' \<and> y = CHR ''5''"
      then show ?thesis using ends_escaped by simp
    qed
    then show ?thesis using "2.prems"(2) h by (simp add: host_plain_def)
  next
    case False
    then obtain t where t: "unescape EncodeHost cs = Some t" "h = c # t"
      using "2.prems"(1) by (auto split: if_splits)
    moreover have "host_plain t" using t "2.prems"(2) by (simp add: host_plain_def)
    ultimately show ?thesis using "2.hyps" False "2.prems"(1) by (auto split: if_splits)
  qed
qed simp

lemma parse_host_plain:
  assumes "parse_host s = Some h" "host_plain h"
  shows "s = h"
proof (rule ccontr)
  assume ne: "s \<noteq> h"
  have "unescape EncodeHost s \<noteq> Some h" using unescape_plain assms(2) ne by blast
  then obtain a z r zone where "h = a @ z @ r" and z: "unescape EncodeZone (''%25'' @ zone) = Some z"
    using assms(1)
    by (auto simp: parse_host_def simp del: unescape.simps append.simps split: if_splits option.splits prod.splits bind_splits)
  moreover have "\<exists>t. z = CHR ''%'' # t"
    using z by (auto split: if_splits)
  ultimately show False using assms(2) ends_escaped by (auto simp: host_plain_def)
qed

subsection \<open>The parts of a URL\<close>

lemma cut_last_append: "d \<notin> set b \<Longrightarrow> cut_last d (a @ d # b) = Some (a, b)"
  by (simp add: cut_last_def takeWhile_append dropWhile_append)

definition userinfo_byte :: "char \<Rightarrow> bool" where
  "userinfo_byte c \<longleftrightarrow> is_alpha c \<or> is_digit c \<or> c \<in> set ''-._:~!$&'' \<union> {CHR 0x27} \<union> set ''()*+,;=%@''"

lemma user_plain:
  assumes "\<not> should_escape EncodeUserPassword c"
  shows "userinfo_byte c"
proof -
  have "is_alpha c \<or> is_digit c \<or> c \<in> set ''-_.~'' \<or> c \<in> set ''$&+,/:;=?@'' \<and> c \<notin> set ''@/?:''"
    using assms unfolding should_escape_def
    by (simp only: enc_mode.distinct enc_mode.case simp_thms if_True if_False split: if_splits) blast
  then have "is_alpha c \<or> is_digit c \<or> c \<in> set (''-_.~'' @ filter (\<lambda>d. d \<notin> set ''@/?:'') ''$&+,/:;=?@'')"
    by (simp only: set_append set_filter Un_iff mem_Collect_eq)
  moreover have "list_all userinfo_byte (''-_.~'' @ filter (\<lambda>d. d \<notin> set ''@/?:'') ''$&+,/:;=?@'')" by code_simp
  ultimately show ?thesis unfolding list_all_iff by (auto simp only: userinfo_byte_def)
qed

lemma valid_userinfo_escape: "valid_userinfo (escape EncodeUserPassword s)"
proof -
  have "userinfo_byte c" if "c \<in> set (escape EncodeUserPassword s)" for c
  proof -
    have "userinfo_byte CHR ''%''" by code_simp
    moreover have "c = CHR ''%'' \<or> \<not> should_escape EncodeUserPassword c" by (rule escape_chars [OF _ that]) simp
    ultimately show ?thesis using user_plain [of c] by blast
  qed
  then show ?thesis unfolding valid_userinfo_def list_all_iff userinfo_byte_def by blast
qed

text \<open>What an escaped text does not hold.\<close>

lemma escaped_without:
  assumes "mode \<noteq> EncodeQuery" "should_escape mode c" "c \<noteq> CHR ''%''"
  shows "c \<notin> set (escape mode s)"
  using escape_chars [OF assms(1), of c s] assms(2,3) by blast

definition user_shown :: "(string \<times> string option) option \<Rightarrow> bool" where
  "user_shown ui = (case ui of None \<Rightarrow> True | Some (n, p) \<Rightarrow> n \<noteq> [] \<or> (p \<noteq> None \<and> p \<noteq> Some []))"

definition authority_text :: "(string \<times> string option) option \<Rightarrow> string \<Rightarrow> string" where
  "authority_text ui h = (case ui of None \<Rightarrow> [] | Some np \<Rightarrow> userinfo_string np @ ''@'') @ h"

lemma plain_without: "host_plain h \<Longrightarrow> should_escape EncodeHost c \<Longrightarrow> c \<notin> set h"
  by (auto simp: host_plain_def list_all_iff)

lemma parse_authority_text:
  assumes "host_plain h" "parse_host h = Some h" "user_shown ui"
  shows "parse_authority (authority_text ui h) = Some (ui, h)"
proof -
  have at: "CHR ''@'' \<notin> set h" using plain_without [OF assms(1)] ends_escaped by blast
  have colon: "CHR '':'' \<notin> set (escape EncodeUserPassword s)" for s
    by (rule escaped_without) (simp_all add: ends_escaped)
  have dec: "unescape EncodeUserPassword (escape EncodeUserPassword s) = Some s" for s
    by (rule unescape_escape) (simp add: plain_mode_def)
  consider "ui = None" | n where "ui = Some (n, None)" "n \<noteq> []" | n p where "ui = Some (n, Some p)" "n \<noteq> [] \<or> p \<noteq> []"
    using assms(3) unfolding user_shown_def by (cases ui) (auto, metis not_Some_eq)
  then show ?thesis
  proof cases
    case 1
    then show ?thesis using at assms(2) by (simp add: authority_text_def parse_authority_def cut_last_def)
  next
    case 2
    then have "authority_text ui h = escape EncodeUserPassword n @ CHR ''@'' # h"
      by (simp add: authority_text_def userinfo_string_def)
    then show ?thesis
      using 2 at assms(2) colon dec by (simp add: parse_authority_def cut_last_append cut_char_None valid_userinfo_escape)
  next
    case 3
    then have "authority_text ui h = (escape EncodeUserPassword n @ CHR '':'' # escape EncodeUserPassword p) @ CHR ''@'' # h"
      by (auto simp: authority_text_def userinfo_string_def)
    then have "cut_last CHR ''@'' (authority_text ui h)
        = Some (escape EncodeUserPassword n @ CHR '':'' # escape EncodeUserPassword p, h)"
      by (simp only: cut_last_append [OF at])
    moreover have "valid_userinfo (escape EncodeUserPassword n @ CHR '':'' # escape EncodeUserPassword p)"
      using valid_userinfo_escape [of n] valid_userinfo_escape [of p] by (simp add: valid_userinfo_def)
    ultimately show ?thesis
      using 3 assms(2) colon dec by (simp add: parse_authority_def)
  qed
qed

subsection \<open>Schemes\<close>

definition scheme_byte :: "char \<Rightarrow> bool" where
  "scheme_byte c \<longleftrightarrow> is_alpha c \<or> is_digit c \<or> c \<in> set ''+-.''"

definition scheme_ok :: "string \<Rightarrow> bool" where
  "scheme_ok s \<longleftrightarrow> s \<noteq> [] \<and> is_alpha (hd s) \<and> list_all scheme_byte s \<and> to_lower s = s"

lemma alpha_not_digit: "is_alpha c \<Longrightarrow> \<not> is_digit c"
  by (auto simp: is_alpha_def is_digit_def less_eq_char_def)

lemma scheme_byte_not_colon: "scheme_byte c \<Longrightarrow> c \<noteq> CHR '':''"
  by (auto simp: scheme_byte_def is_alpha_def is_digit_def less_eq_char_def)

lemma get_scheme_from_append:
  "list_all scheme_byte s \<Longrightarrow> get_scheme_from False raw acc (s @ CHR '':'' # r) = Some (rev acc @ s, r)"
proof (induction s arbitrary: acc)
  case Nil
  then show ?case by (simp add: is_alpha_def is_digit_def less_eq_char_def)
next
  case (Cons c s)
  then show ?case by (auto simp: scheme_byte_def)
qed

lemma get_scheme_append:
  assumes "scheme_ok s"
  shows "get_scheme (s @ CHR '':'' # r) = Some (s, r)"
proof -
  obtain c t where s: "s = c # t" "is_alpha c" "list_all scheme_byte t"
    using assms by (cases s) (auto simp: scheme_ok_def)
  then show ?thesis using get_scheme_from_append [of t _ "[c]"] by (simp add: get_scheme_def)
qed

lemma get_scheme_from_result:
  "get_scheme_from first raw acc s = Some (sch, r) \<Longrightarrow>
     sch = [] \<or> (\<exists>t. s = t @ CHR '':'' # r \<and> sch = rev acc @ t \<and> list_all scheme_byte t
       \<and> (if first then t \<noteq> [] \<and> is_alpha (hd t) else True))"
proof (induction first raw acc s rule: get_scheme_from.induct)
  case (2 first raw acc c cs)
  show ?case
  proof (cases "get_scheme_from False raw (c # acc) cs = Some (sch, r) \<and> (is_alpha c \<or> scheme_byte c \<and> \<not> first)")
    case True
    then have rec: "get_scheme_from False raw (c # acc) cs = Some (sch, r)" by simp
    have "sch = [] \<or> (\<exists>t. cs = t @ CHR '':'' # r \<and> sch = rev (c # acc) @ t \<and> list_all scheme_byte t)"
    proof (cases "is_alpha c")
      case alpha: True
      show ?thesis using "2.IH"(1) [OF alpha rec] by (simp only: if_False simp_thms)
    next
      case alpha: False
      then have mid: "is_digit c \<or> c \<in> set ''+-.''" "\<not> first" using True by (simp_all only: scheme_byte_def simp_thms)
      show ?thesis using "2.IH"(2) [OF alpha mid rec] by (simp only: if_False simp_thms)
    qed
    then show ?thesis
    proof
      assume "\<exists>t. cs = t @ CHR '':'' # r \<and> sch = rev (c # acc) @ t \<and> list_all scheme_byte t"
      then obtain t where "cs = t @ CHR '':'' # r" "sch = rev (c # acc) @ t" "list_all scheme_byte t" by blast
      then have "c # cs = (c # t) @ CHR '':'' # r" "sch = rev acc @ (c # t)" "list_all scheme_byte (c # t)"
        using True by (auto simp: scheme_byte_def)
      then show ?thesis using True by (metis list.distinct(1) list.sel(1))
    qed simp
  next
    case False
    then show ?thesis using "2.prems" by (auto simp: scheme_byte_def split: if_splits)
  qed
qed simp

lemma lower_ascii: "list_all (\<lambda>c. (of_char c :: nat) < 128) s \<Longrightarrow> to_lower s = map lower_char s"
  by (induction s rule: to_lower.induct) (auto simp: has_prefix_def)

lemma lower_char_byte: "(of_char c :: nat) < 128 \<Longrightarrow> (of_char (lower_char c) :: nat) < 128"
  by (auto simp: lower_char_def less_eq_char_def)

lemma lower_char_twice: "lower_char (lower_char c) = lower_char c"
  by (auto simp: lower_char_def less_eq_char_def)

lemma alpha_lower: "is_alpha c \<Longrightarrow> is_alpha (lower_char c)"
  by (auto simp: is_alpha_def lower_char_def less_eq_char_def)

lemma scheme_byte_ascii: "scheme_byte c \<Longrightarrow> (of_char c :: nat) < 128"
  by (auto simp: scheme_byte_def is_alpha_def is_digit_def less_eq_char_def)

lemma scheme_byte_lower: "scheme_byte c \<Longrightarrow> scheme_byte (lower_char c)"
  using alpha_lower [of c] by (auto simp: scheme_byte_def is_digit_def lower_char_def less_eq_char_def)

lemma scheme_ok_lower:
  assumes "t \<noteq> []" "is_alpha (hd t)" "list_all scheme_byte t"
  shows "scheme_ok (to_lower t)"
proof -
  have a: "list_all (\<lambda>c. (of_char c :: nat) < 128) t" using assms(3) scheme_byte_ascii by (auto simp: list_all_iff)
  have l: "to_lower t = map lower_char t" by (rule lower_ascii [OF a])
  have "list_all (\<lambda>c. (of_char c :: nat) < 128) (map lower_char t)" using a lower_char_byte by (auto simp: list_all_iff)
  then have "to_lower (map lower_char t) = map lower_char t" by (simp add: lower_ascii lower_char_twice)
  then show ?thesis
    using assms l alpha_lower scheme_byte_lower by (auto simp: scheme_ok_def list_all_iff hd_map)
qed

subsection \<open>Whole URLs\<close>

text \<open>The URLs of interest: absolute, with a host that needs no escapes, as parsing yields them.\<close>

definition rooted :: "string \<Rightarrow> bool" where
  "rooted p \<longleftrightarrow> p = [] \<or> hd p = CHR ''/''"

definition text_byte :: "char \<Rightarrow> bool" where
  "text_byte c \<longleftrightarrow> \<not> is_ctl c \<and> c \<noteq> CHR ''#''"

definition dsn_url :: "url \<Rightarrow> bool" where
  "dsn_url u \<longleftrightarrow> scheme_ok (url_scheme u) \<and> url_opaque u = [] \<and> url_host u \<noteq> []
     \<and> host_plain (url_host u) \<and> parse_host (url_host u) = Some (url_host u)
     \<and> rooted (url_path u) \<and> rooted (url_rawpath u) \<and> list_all text_byte (url_rawquery u)
     \<and> unescape EncodeFragment (escaped_fragment u) = Some (url_fragment u)"

lemma rooted_cases: "rooted p \<Longrightarrow> p = [] \<or> (\<exists>t. p = CHR ''/'' # t)"
  by (cases p) (auto simp: rooted_def)

lemma fragment_unescapes: "unescape EncodeFragment (escaped_fragment u) = Some (url_fragment u)"
  using unescape_escape [of EncodeFragment] by (simp add: escaped_fragment_def plain_mode_def)

lemma set_pathE:
  assumes "set_path p v = Some u"
  obtains path where "unescape EncodePath p = Some path"
    "u = v\<lparr>url_path := path, url_rawpath := (if p = escape EncodePath path then [] else p)\<rparr>"
  using assms by (auto simp: set_path_def)

lemma rooted_unescape: "unescape EncodePath p = Some path \<Longrightarrow> rooted p \<Longrightarrow> rooted path"
  by (drule rooted_cases) (auto simp: rooted_def)

lemma parse_rest_parts:
  assumes "parse_rest v rest = Some u" "url_host u \<noteq> []" "url_host v = []" "url_opaque v = []"
  shows "url_opaque u = [] \<and> rooted (url_path u) \<and> rooted (url_rawpath u)
    \<and> url_scheme u = url_scheme v \<and> url_rawquery u = url_rawquery v
    \<and> (\<exists>auth. parse_authority auth = Some (url_user u, url_host u))"
proof -
  let ?a = "drop 2 rest"
  let ?p = "dropWhile (\<lambda>c. c \<noteq> CHR ''/'') ?a"
  have root: "rooted ?p"
    using hd_dropWhile [of "\<lambda>c. c \<noteq> CHR ''/''" ?a] by (auto simp: rooted_def)
  have plain: "url_host w = url_host v" if "set_path rest v' = Some w" "url_host v' = url_host v" for v' w
    using that by (auto elim!: set_pathE)
  obtain user host where auth: "parse_authority (takeWhile (\<lambda>c. c \<noteq> CHR ''/'') ?a) = Some (user, host)"
    and path: "set_path ?p (v\<lparr>url_user := user, url_host := host\<rparr>) = Some u"
    using assms(1-3) plain [of v u] plain [of "v\<lparr>url_omit_host := True\<rparr>" u]
    by (auto simp: parse_rest_def Let_def split: if_splits bind_splits)
  obtain pth where un: "unescape EncodePath ?p = Some pth"
    and u: "u = v\<lparr>url_user := user, url_host := host, url_path := pth,
               url_rawpath := (if ?p = escape EncodePath pth then [] else ?p)\<rparr>"
    using path by (rule set_pathE) simp
  have "rooted pth" by (rule rooted_unescape [OF un root])
  moreover have "rooted (if ?p = escape EncodePath pth then [] else ?p)" using root by (simp add: rooted_def)
  ultimately show ?thesis using auth u assms(4) by auto
qed

lemma parse_authority_host:
  assumes "parse_authority auth = Some (user, h)"
  shows "\<exists>t. parse_host t = Some h"
proof (cases "cut_last CHR ''@'' auth")
  case None
  then show ?thesis using assms by (auto simp: parse_authority_def)
next
  case (Some ab)
  then have "parse_host (snd ab) = Some h"
    using assms by (auto simp: parse_authority_def split: option.splits bind_splits if_splits prod.splits)
  then show ?thesis ..
qed

lemma get_scheme_result:
  assumes "get_scheme raw = Some (sch, r)"
  shows "sch = [] \<or> (\<exists>t. raw = t @ CHR '':'' # r) \<and> scheme_ok (to_lower sch)"
proof -
  have "sch = [] \<or> (\<exists>t. raw = t @ CHR '':'' # r \<and> sch = t \<and> list_all scheme_byte t \<and> t \<noteq> [] \<and> is_alpha (hd t))"
    using get_scheme_from_result [of True raw "[]" raw sch r] assms by (auto simp: get_scheme_def)
  then show ?thesis using scheme_ok_lower by blast
qed

lemma parse_no_fragment_dsn:
  assumes "parse_no_fragment raw = Some u" "url_scheme u \<noteq> []" "url_host u \<noteq> []" "host_plain (url_host u)"
    and "CHR ''#'' \<notin> set raw"
  shows "dsn_url u"
proof -
  have raw: "list_all text_byte raw" using assms(1,5)
    by (auto simp: parse_no_fragment_def text_byte_def list_all_iff list_ex_iff split: if_splits)
  obtain sch rest where gs: "get_scheme raw = Some (sch, rest)"
    using assms(1,2) by (auto simp: parse_no_fragment_def empty_url_def split: if_splits bind_splits)
  define v where "v = empty_url\<lparr>url_scheme := to_lower sch\<rparr>"
  obtain v' r where v': "parse_rest v' r = Some u" "url_scheme v' = to_lower sch" "url_host v' = []" "url_opaque v' = []"
    and q: "url_rawquery v' = [] \<or> (\<exists>a. rest = a @ CHR ''?'' # url_rawquery v')"
  proof (cases "has_suffix rest ''?'' \<and> count_list rest CHR ''?'' = 1")
    case True
    then show ?thesis using that [of "v\<lparr>url_force_query := True\<rparr>" "butlast rest"] assms(1,2) gs
      by (auto simp: parse_no_fragment_def v_def empty_url_def split: if_splits)
  next
    case False
    show ?thesis
    proof (cases "cut ''?'' rest")
      case None
      then show ?thesis using that [of v rest] False assms(1,2) gs
        by (auto simp: parse_no_fragment_def v_def empty_url_def split: if_splits)
    next
      case (Some ab)
      then obtain a b where ab: "cut ''?'' rest = Some (a, b)" by (cases ab) auto
      then have "rest = a @ CHR ''?'' # b" using cut_Some_append [of "''?''"] by simp
      then show ?thesis using that [of "v\<lparr>url_rawquery := b\<rparr>" a] ab False assms(1,2) gs
        by (auto simp: parse_no_fragment_def v_def empty_url_def split: if_splits)
    qed
  qed
  have parts: "url_opaque u = [] \<and> rooted (url_path u) \<and> rooted (url_rawpath u)
    \<and> url_scheme u = url_scheme v' \<and> url_rawquery u = url_rawquery v'
    \<and> (\<exists>auth. parse_authority auth = Some (url_user u, url_host u))"
    by (rule parse_rest_parts [OF v'(1) assms(3) v'(3,4)])
  then obtain h0 where "parse_host h0 = Some (url_host u)" using parse_authority_host by blast
  then have host: "parse_host (url_host u) = Some (url_host u)" using parse_host_plain assms(4) by metis
  have sch: "sch \<noteq> []" using assms(2) parts v'(2) by auto
  then have ok: "scheme_ok (to_lower sch)" "\<exists>t. raw = t @ CHR '':'' # rest" using get_scheme_result [OF gs] by auto
  have "list_all text_byte (url_rawquery v')" using q ok(2) raw by auto
  then show ?thesis unfolding dsn_url_def using parts host ok(1) v'(2) assms(3,4) fragment_unescapes by simp
qed

lemma parsed_dsn_url:
  assumes "url_parse raw = Some u" "url_scheme u \<noteq> []" "url_host u \<noteq> []" "host_plain (url_host u)"
  shows "dsn_url u"
proof (cases "cut ''#'' raw")
  case None
  then have "CHR ''#'' \<notin> set raw"
    using cut_char_append by (metis option.distinct(1) split_list_first)
  then show ?thesis using parse_no_fragment_dsn assms None by (simp add: url_parse_def)
next
  case (Some ab)
  then obtain a b where ab: "cut ''#'' raw = Some (a, b)" by (cases ab) auto
  have a: "CHR ''#'' \<notin> set a"
  proof -
    have "CHR ''#'' \<in> set raw" using cut_Some_append [OF ab] by simp
    then obtain x y where "raw = x @ CHR ''#'' # y" "CHR ''#'' \<notin> set x" by (metis split_list_first)
    then show ?thesis using ab by simp
  qed
  obtain r where r: "parse_no_fragment a = Some r" using assms(1) ab by (auto simp: url_parse_def split: bind_splits)
  have same: "url_scheme u = url_scheme r \<and> url_host u = url_host r \<and> url_opaque u = url_opaque r
      \<and> url_path u = url_path r \<and> url_rawpath u = url_rawpath r \<and> url_rawquery u = url_rawquery r"
    using assms(1) ab r by (auto simp: url_parse_def split: if_splits)
  then have "dsn_url r" using parse_no_fragment_dsn [OF r _ _ _ a] assms(2-4) by simp
  then show ?thesis using same fragment_unescapes by (simp add: dsn_url_def)
qed

subsection \<open>Rendering and parsing\<close>

lemma path_byte:
  assumes "dsn_url u" "c \<in> set (escaped_path u)"
  shows "text_byte c \<and> c \<noteq> CHR ''?''"
proof -
  have esc: "c = CHR ''%'' \<or> \<not> should_escape EncodePath c" if "c \<in> set (escape EncodePath s)" for s
    using escape_chars [OF _ that] by simp
  have raw: "c \<in> set ''!$&'' \<union> {CHR 0x27} \<union> set ''()*+,;=:@[]%'' \<or> \<not> should_escape EncodePath c"
    if "valid_encoded EncodePath p" "c \<in> set p" for p
    using that by (simp only: valid_encoded_def list_all_iff)
  have star: "\<not> should_escape EncodePath CHR ''*'' \<or> c \<in> set ''()*+,;=:@[]%''" if "c = CHR ''*''" using that by simp
  have "c \<in> set (''!$&'' @ [CHR 0x27] @ ''()*+,;=:@[]%'') \<or> \<not> should_escape EncodePath c"
    using assms(2) esc [of "url_path u"] raw [of "url_rawpath u"] unfolding escaped_path_def by (auto split: if_splits)
  moreover have "list_all (\<lambda>d. text_byte d \<and> d \<noteq> CHR ''?'') (''!$&'' @ [CHR 0x27] @ ''()*+,;=:@[]%'')" by code_simp
  ultimately show ?thesis
    unfolding list_all_iff using odd_escaped [of c EncodePath] ends_escaped by (auto simp only: text_byte_def)
qed

lemma rooted_escaped_path: "dsn_url u \<Longrightarrow> rooted (escaped_path u) \<and> unescape EncodePath (escaped_path u) = Some (url_path u)"
proof -
  assume u: "dsn_url u"
  have "rooted (escape EncodePath p)" if "rooted p" for p
    using rooted_cases [OF that] by (auto simp: escape_Cons rooted_def should_escape_def is_alpha_def is_digit_def less_eq_char_def)
  moreover have "url_path u \<noteq> ''*''" using u by (auto simp: dsn_url_def rooted_def)
  ultimately show ?thesis using u unescape_escape [of EncodePath] by (simp add: escaped_path_def dsn_url_def plain_mode_def)
qed

lemma userinfo_text_byte:
  assumes "c \<in> set (authority_text ui h)" "host_plain h"
  shows "text_byte c \<and> c \<noteq> CHR ''?'' \<and> c \<noteq> CHR ''/''"
proof -
  have "c \<in> set h \<or> c = CHR ''@'' \<or> c = CHR '':'' \<or> (\<exists>s. c \<in> set (escape EncodeUserPassword s))"
    using assms(1) by (auto simp: authority_text_def userinfo_string_def split: option.splits if_splits)
  moreover have plain: "text_byte c \<and> c \<noteq> CHR ''?'' \<and> c \<noteq> CHR ''/''"
    if "\<not> should_escape mode c" "mode = EncodeHost \<or> mode = EncodeUserPassword" for mode
    using that odd_escaped [of c mode] ends_escaped unfolding text_byte_def by blast
  moreover have "text_byte CHR ''@''" "text_byte CHR '':''" "text_byte CHR ''%''" by (simp_all add: text_byte_def is_ctl_def)
  ultimately show ?thesis
  proof (elim disjE exE)
    fix s assume "c \<in> set (escape EncodeUserPassword s)"
    then have "c = CHR ''%'' \<or> \<not> should_escape EncodeUserPassword c" by (rule escape_chars [rotated]) simp
    then show ?thesis using plain \<open>text_byte CHR ''%''\<close> by auto
  next
    assume "c \<in> set h"
    then show ?thesis using plain [of EncodeHost] assms(2) by (simp add: host_plain_def list_all_iff)
  qed simp_all
qed

lemma parse_rest_text:
  assumes "url_scheme v \<noteq> []" "\<forall>c \<in> set auth. c \<noteq> CHR ''/''" "rooted p"
    and "parse_authority auth = Some (user, host)"
  shows "parse_rest v (''//'' @ auth @ p) = set_path p (v\<lparr>url_user := user, url_host := host\<rparr>)"
proof -
  have "takeWhile (\<lambda>c. c \<noteq> CHR ''/'') (auth @ p) = auth \<and> dropWhile (\<lambda>c. c \<noteq> CHR ''/'') (auth @ p) = p"
    using rooted_cases [OF assms(3)] assms(2) by (elim disjE exE) (simp_all add: takeWhile_append2 dropWhile_append2)
  then show ?thesis using assms(1,4) by (simp add: parse_rest_def Let_def)
qed

text \<open>The query, present, empty or absent.\<close>

definition query_text :: "url \<Rightarrow> string" where
  "query_text u = (if url_force_query u \<or> url_rawquery u \<noteq> [] then CHR ''?'' # url_rawquery u else [])"

lemma parse_scheme_rest:
  assumes "scheme_ok s" "CHR ''?'' \<notin> set body" "list_all text_byte (body @ query_text u)"
  shows "\<exists>v. parse_no_fragment (s @ CHR '':'' # body @ query_text u) = parse_rest v body
    \<and> url_scheme v = s \<and> url_rawquery v = url_rawquery u \<and> url_fragment v = []"
proof -
  let ?raw = "s @ CHR '':'' # body @ query_text u"
  have lower: "to_lower s = s" and sb: "list_all scheme_byte s" using assms(1) by (auto simp: scheme_ok_def)
  have "\<not> is_ctl c" if "scheme_byte c" for c
    using that by (auto simp: scheme_byte_def is_ctl_def is_alpha_def is_digit_def less_eq_char_def)
  then have ctl: "\<not> list_ex is_ctl ?raw"
    using assms(3) sb by (auto simp: list_ex_iff list_all_iff text_byte_def is_ctl_def)
  have star: "?raw \<noteq> ''*''" by (cases s) auto
  let ?v = "empty_url\<lparr>url_scheme := s\<rparr>"
  consider "query_text u = []" | "query_text u = ''?''" | "query_text u = CHR ''?'' # url_rawquery u" "url_rawquery u \<noteq> []"
    by (cases "url_rawquery u = []"; cases "url_force_query u") (auto simp: query_text_def)
  then show ?thesis
  proof cases
    case 1
    then have "\<not> has_suffix body ''?''" "cut ''?'' body = None" "url_rawquery u = []"
      using assms(2) by (auto simp: cut_char_None query_text_def elim!: has_suffixE split: if_splits)
    then show ?thesis using 1 ctl star get_scheme_append [OF assms(1)] lower
      by (auto simp: parse_no_fragment_def empty_url_def intro!: exI [of _ ?v])
  next
    case 2
    then have "has_suffix (body @ ''?'') ''?''" "count_list (body @ ''?'') CHR ''?'' = 1" "url_rawquery u = []"
      using assms(2) by (auto simp: count_list_append count_notin query_text_def split: if_splits)
    then show ?thesis using 2 ctl star get_scheme_append [OF assms(1)] lower
      by (auto simp: parse_no_fragment_def empty_url_def butlast_append intro!: exI [of _ "?v\<lparr>url_force_query := True\<rparr>"])
  next
    case 3
    have "\<not> (has_suffix (body @ query_text u) ''?'' \<and> count_list (body @ query_text u) CHR ''?'' = 1)"
    proof
      assume a: "has_suffix (body @ query_text u) ''?'' \<and> count_list (body @ query_text u) CHR ''?'' = 1"
      then obtain t where "body @ query_text u = t @ ''?''" by (auto elim: has_suffixE)
      then have "last (body @ query_text u) = CHR ''?''" by simp
      then have "CHR ''?'' \<in> set (url_rawquery u)" using 3 by (metis last_appendR last_ConsR last_in_set list.distinct(1))
      then have "0 < count_list (url_rawquery u) CHR ''?''" by (simp add: count_list_0_iff zero_less_iff_neq_zero)
      then show False using a 3(1) by (simp add: count_list_append)
    qed
    moreover have "cut ''?'' (body @ query_text u) = Some (body, url_rawquery u)" using assms(2) 3(1) by simp
    ultimately show ?thesis using ctl star get_scheme_append [OF assms(1)] lower
      by (auto simp: parse_no_fragment_def empty_url_def intro!: exI [of _ "?v\<lparr>url_rawquery := url_rawquery u\<rparr>"])
  qed
qed

lemma url_string_text:
  assumes "dsn_url u"
  shows "url_string u = url_scheme u @ CHR '':'' # (''//'' @ authority_text (url_user u) (url_host u) @ escaped_path u) @ query_text u
    @ (if url_fragment u \<noteq> [] then CHR ''#'' # escaped_fragment u else [])"
proof -
  have h: "url_scheme u \<noteq> []" "url_host u \<noteq> []" "url_opaque u = []" "escape EncodeHost (url_host u) = url_host u"
    using assms escape_plain by (auto simp: dsn_url_def scheme_ok_def)
  have "path_string u False = escaped_path u"
    using rooted_escaped_path [OF assms] by (auto simp: path_string_def rooted_def Let_def)
  then show ?thesis using h
    by (simp add: url_string_def Let_def authority_string_def authority_text_def query_text_def split: option.splits)
qed

lemma url_string_parses:
  assumes "dsn_url u" "user_shown (url_user u)"
  obtains v where "url_parse (url_string u) = Some v" "url_scheme v = url_scheme u" "url_user v = url_user u"
    "url_host v = url_host u" "url_path v = url_path u" "url_rawquery v = url_rawquery u" "url_fragment v = url_fragment u"
proof -
  let ?auth = "authority_text (url_user u) (url_host u)"
  let ?body = "''//'' @ ?auth @ escaped_path u"
  have h: "scheme_ok (url_scheme u)" "host_plain (url_host u)" "parse_host (url_host u) = Some (url_host u)"
    "list_all text_byte (url_rawquery u)"
    using assms(1) by (auto simp: dsn_url_def)
  have ab: "\<forall>c \<in> set ?auth. text_byte c \<and> c \<noteq> CHR ''?'' \<and> c \<noteq> CHR ''/''" using userinfo_text_byte h(2) by blast
  have pb: "\<forall>c \<in> set (escaped_path u). text_byte c \<and> c \<noteq> CHR ''?''" using path_byte [OF assms(1)] by blast
  have slash: "text_byte CHR ''/''" "text_byte CHR ''?''" by (simp_all add: text_byte_def is_ctl_def)
  have noq: "CHR ''?'' \<notin> set ?body" using ab pb by auto
  have bytes: "list_all text_byte (?body @ query_text u)" using ab pb h(4) slash by (auto simp: list_all_iff query_text_def)
  obtain v where v: "parse_no_fragment (url_scheme u @ CHR '':'' # ?body @ query_text u) = parse_rest v ?body"
    "url_scheme v = url_scheme u" "url_rawquery v = url_rawquery u" "url_fragment v = []"
    using parse_scheme_rest [OF h(1) noq bytes] by blast
  have sv: "url_scheme v \<noteq> []" using v(2) h(1) by (simp add: scheme_ok_def)
  have "parse_rest v ?body = set_path (escaped_path u) (v\<lparr>url_user := url_user u, url_host := url_host u\<rparr>)"
    using parse_rest_text [OF sv _ _ parse_authority_text [OF h(2,3) assms(2)]] ab rooted_escaped_path [OF assms(1)] by simp
  then obtain w where w: "parse_no_fragment (url_scheme u @ CHR '':'' # ?body @ query_text u) = Some w"
    "url_scheme w = url_scheme u" "url_user w = url_user u" "url_host w = url_host u" "url_path w = url_path u"
    "url_rawquery w = url_rawquery u" "url_fragment w = []"
    using v rooted_escaped_path [OF assms(1)] by (simp add: set_path_def)
  have "CHR ''#'' \<noteq> c" if "scheme_byte c" for c
    using that by (auto simp: scheme_byte_def is_alpha_def is_digit_def less_eq_char_def)
  then have nofrag: "CHR ''#'' \<notin> set (url_scheme u @ CHR '':'' # ?body @ query_text u)"
    using h(1) bytes by (auto simp: scheme_ok_def list_all_iff text_byte_def)
  show ?thesis
  proof (cases "url_fragment u = []")
    case True
    then have "url_parse (url_string u) = Some w"
      using w(1) nofrag by (simp add: url_string_text [OF assms(1)] url_parse_def cut_char_None)
    then show ?thesis using that w True by simp
  next
    case False
    have "cut ''#'' (url_string u) = Some (url_scheme u @ CHR '':'' # ?body @ query_text u, escaped_fragment u)"
      using False cut_char_append [OF nofrag] by (simp add: url_string_text [OF assms(1)])
    moreover have "escaped_fragment u \<noteq> []" using fragment_unescapes [of u] False by auto
    ultimately obtain w' where "url_parse (url_string u) = Some w'" "url_scheme w' = url_scheme w" "url_user w' = url_user w"
      "url_host w' = url_host w" "url_path w' = url_path w" "url_rawquery w' = url_rawquery w" "url_fragment w' = url_fragment u"
      using w(1) fragment_unescapes [of u] by (simp add: url_parse_def)
    then show ?thesis using that w by simp
  qed
qed

end
