(* ===== verification/Redaction.thy ===== *)
theory Redaction
  imports Prelude
begin

section \<open>Redaction of secrets\<close>

text \<open>
  The file \<open>config/redact.go\<close>: every secret that was resolved is replaced in every output. The
  lemmas follow each byte of the output back: a byte is original text or part of a placeholder,
  and no run of original bytes holds a registered secret, in whatever order the secrets were
  registered and however they overlap.
\<close>

type_synonym redactor = "string list"

definition redactor_add :: "redactor \<Rightarrow> string list \<Rightarrow> redactor" where
  "redactor_add r secrets = r @ filter (\<lambda>s. s \<noteq> []) secrets"

definition redacted_mark :: string where
  "redacted_mark = ''[redacted]''"

definition redact :: "redactor \<Rightarrow> string \<Rightarrow> string" where
  "redact r s = fold (\<lambda>sec s. replace_all sec redacted_mark s) r s"

subsection \<open>Where the bytes come from\<close>

text \<open>A tagged text: each byte with whether it was in the input.\<close>

type_synonym tagged = "(char \<times> bool) list"

function replace_tagged :: "string \<Rightarrow> tagged \<Rightarrow> tagged" where
  "replace_tagged old t =
     (if old = [] then t
      else if has_prefix (map fst t) old
      then map (\<lambda>c. (c, False)) redacted_mark @ replace_tagged old (drop (length old) t)
      else (case t of [] \<Rightarrow> [] | c # cs \<Rightarrow> c # replace_tagged old cs))"
  by pat_completeness auto
termination
  by (relation "measure (\<lambda>(old, t). length t)") (auto simp: has_prefix_def prefix_def map_eq_append_conv)

declare replace_tagged.simps [simp del]

definition redact_tagged :: "redactor \<Rightarrow> string \<Rightarrow> tagged" where
  "redact_tagged r s = fold replace_tagged r (map (\<lambda>c. (c, True)) s)"

lemma replace_eqs:
  assumes "old \<noteq> []"
  shows "replace_all old new [] = []"
    "has_prefix s old \<Longrightarrow> replace_all old new s = new @ replace_all old new (drop (length old) s)"
    "\<not> has_prefix (c # cs) old \<Longrightarrow> replace_all old new (c # cs) = c # replace_all old new cs"
proof -
  have nil: "\<not> has_prefix [] old" using assms by (cases old) simp_all
  show "replace_all old new [] = []" using assms nil by (simp add: replace_all.simps [of old new "[]"])
  show "has_prefix s old \<Longrightarrow> replace_all old new s = new @ replace_all old new (drop (length old) s)"
    using assms by (subst replace_all.simps) (simp only: if_True if_False)
  show "\<not> has_prefix (c # cs) old \<Longrightarrow> replace_all old new (c # cs) = c # replace_all old new cs"
    using assms by (subst replace_all.simps) (simp only: if_True if_False list.case)
qed

lemma tagged_eqs:
  assumes "old \<noteq> []"
  shows "replace_tagged old [] = []"
    "has_prefix (map fst t) old \<Longrightarrow> replace_tagged old t = map (\<lambda>c. (c, False)) redacted_mark @ replace_tagged old (drop (length old) t)"
    "\<not> has_prefix (map fst (x # xs)) old \<Longrightarrow> replace_tagged old (x # xs) = x # replace_tagged old xs"
proof -
  have nil: "\<not> has_prefix [] old" using assms by (cases old) simp_all
  show "replace_tagged old [] = []" using assms nil by (simp add: replace_tagged.simps [of old "[]"])
  show "has_prefix (map fst t) old \<Longrightarrow> replace_tagged old t = map (\<lambda>c. (c, False)) redacted_mark @ replace_tagged old (drop (length old) t)"
    using assms by (subst replace_tagged.simps) (simp only: if_True if_False)
  show "\<not> has_prefix (map fst (x # xs)) old \<Longrightarrow> replace_tagged old (x # xs) = x # replace_tagged old xs"
    using assms by (subst replace_tagged.simps) (simp only: if_True if_False list.case)
qed

lemma tagged_induct [case_names no_hyps empty match skip]:
  assumes "old \<noteq> []" "P []"
    and "\<And>t. has_prefix (map fst t) old \<Longrightarrow> P (drop (length old) t) \<Longrightarrow> P t"
    and "\<And>c cs. \<not> has_prefix (map fst (c # cs)) old \<Longrightarrow> P cs \<Longrightarrow> P (c # cs)"
  shows "P t"
proof (induction t rule: length_induct)
  case (1 t)
  show ?case
  proof (cases "has_prefix (map fst t) old")
    case True
    then have "t \<noteq> []" using assms(1) by (cases old) auto
    then show ?thesis using 1 True assms(1,3) by simp
  next
    case False
    then show ?thesis using 1 assms(2,4) by (cases t) auto
  qed
qed

lemma fst_replace_tagged:
  assumes "old \<noteq> []"
  shows "map fst (replace_tagged old t) = replace_all old redacted_mark (map fst t)"
proof (induction t rule: tagged_induct [OF assms])
  case (2 t)
  then show ?case using assms by (simp add: tagged_eqs replace_eqs drop_map comp_def)
next
  case (3 c cs)
  then have "replace_all old redacted_mark (fst c # map fst cs) = fst c # replace_all old redacted_mark (map fst cs)"
    using replace_eqs(3) [OF assms] by simp
  then show ?case using 3 assms by (simp add: tagged_eqs)
qed (use assms in \<open>simp add: tagged_eqs replace_eqs\<close>)

lemma has_prefix_longer: "has_prefix s p \<Longrightarrow> has_prefix (s @ t) p"
  by (auto elim!: has_prefixE)

lemma orig_in_mark: "map (\<lambda>c. (c, False)) redacted_mark @ x = u @ v \<Longrightarrow> list_all snd u \<Longrightarrow> u = []"
  by (cases u) (auto simp: redacted_mark_def)

text \<open>A run of original bytes was there before, and does not hold the secret.\<close>

lemma replaced_run:
  assumes "old \<noteq> []" "replace_tagged old t = u @ v" "list_all snd u"
  shows "(\<exists>w. t = u @ w) \<and> \<not> contains (map fst u) old"
  using assms(2,3)
proof (induction t arbitrary: u v rule: tagged_induct [OF assms(1)])
  case 1
  then show ?case using assms(1) by (simp add: tagged_eqs)
next
  case (2 t)
  then have "u = []" using orig_in_mark tagged_eqs(2) [OF assms(1)] by metis
  then show ?case using assms(1) by simp
next
  case (3 c cs)
  show ?case
  proof (cases u)
    case Nil
    then show ?thesis using assms(1) by simp
  next
    case (Cons x u')
    then have x: "x = c" "replace_tagged old cs = u' @ v" "list_all snd u'"
      using 3 assms(1) by (simp_all add: tagged_eqs)
    with 3(2) obtain w where w: "cs = u' @ w" "\<not> contains (map fst u') old" by blast
    have "\<not> has_prefix (map fst u) old"
      using 3(1) x(1) w(1) Cons has_prefix_longer [of "map fst u" old "map fst w"] by auto
    then show ?thesis using w x(1) Cons by simp
  qed
qed

lemma replaced_middle:
  assumes "old \<noteq> []" "replace_tagged old t = a @ u @ v" "list_all snd u"
  shows "(\<exists>b w. t = b @ u @ w) \<and> \<not> contains (map fst u) old"
  using assms(2)
proof (induction t arbitrary: a rule: tagged_induct [OF assms(1)])
  case 1
  then show ?case using assms(1) by (simp add: tagged_eqs)
next
  case (2 t)
  let ?m = "map (\<lambda>c. (c, False)) redacted_mark"
  from 2 have eq: "?m @ replace_tagged old (drop (length old) t) = a @ u @ v"
    using assms(1) by (simp add: tagged_eqs)
  then consider r where "a = ?m @ r" "replace_tagged old (drop (length old) t) = r @ u @ v"
    | r where "?m = a @ r" "r @ replace_tagged old (drop (length old) t) = u @ v"
    by (auto simp: append_eq_append_conv2)
  then show ?case
  proof cases
    case 1
    with 2(2) obtain b w where "drop (length old) t = b @ u @ w" "\<not> contains (map fst u) old" by blast
    then have "t = (take (length old) t @ b) @ u @ w" by (metis append_assoc append_take_drop_id)
    then show ?thesis using \<open>\<not> contains (map fst u) old\<close> by blast
  next
    case (2 r)
    have "\<forall>x \<in> set r. \<not> snd x"
    proof -
      have "set r \<subseteq> set ?m" using 2(1) by simp
      then show ?thesis by auto
    qed
    show ?thesis
    proof (cases "u = []")
      case False
      then have "r = []" using 2(2) assms(3) \<open>\<forall>x \<in> set r. \<not> snd x\<close> by (cases r; cases u) auto
      then obtain w where "drop (length old) t = u @ w" "\<not> contains (map fst u) old"
        using replaced_run [OF assms(1), of "drop (length old) t" u v] 2(2) assms(3) by auto
      then show ?thesis by (metis append_take_drop_id)
    qed (use assms(1) in auto)
  qed
next
  case (3 c cs)
  show ?case
  proof (cases a)
    case Nil
    then obtain w where "c # cs = [] @ u @ w" "\<not> contains (map fst u) old"
      using replaced_run [OF assms(1), of "c # cs" u v] 3(3) assms(3) by auto
    then show ?thesis by blast
  next
    case (Cons x a')
    then have "replace_tagged old cs = a' @ u @ v" using 3 assms(1) by (simp add: tagged_eqs)
    with 3(2) obtain b w where "cs = b @ u @ w" "\<not> contains (map fst u) old" by blast
    then show ?thesis by (metis append_Cons)
  qed
qed

subsection \<open>Properties\<close>

lemma redact_tagged_snoc: "redact_tagged (r @ [sec]) s = replace_tagged sec (redact_tagged r s)"
  by (simp add: redact_tagged_def)

lemma fst_redact_tagged: "[] \<notin> set r \<Longrightarrow> map fst (redact_tagged r s) = redact r s"
proof (induction r rule: rev_induct)
  case (snoc sec r)
  then have "sec \<noteq> []" "map fst (redact_tagged r s) = redact r s" by auto
  then show ?case by (simp add: redact_tagged_snoc fst_replace_tagged) (simp add: redact_def)
qed (simp add: redact_tagged_def redact_def comp_def)

lemma redacted_runs:
  assumes "[] \<notin> set r" "redact_tagged r s = a @ u @ v" "list_all snd u"
  shows "(\<exists>x y. s = x @ map fst u @ y) \<and> (\<forall>sec \<in> set r. \<not> contains (map fst u) sec)"
  using assms
proof (induction r arbitrary: a v rule: rev_induct)
  case Nil
  then have "map (\<lambda>c. (c, True)) s = a @ u @ v" by (simp add: redact_tagged_def)
  then have "map fst (map (\<lambda>c. (c, True)) s) = map fst a @ map fst u @ map fst v" by (simp only: map_append)
  then have "s = map fst a @ map fst u @ map fst v" by (simp add: comp_def)
  then show ?case by auto
next
  case (snoc sec r)
  then have "replace_tagged sec (redact_tagged r s) = a @ u @ v" "sec \<noteq> []" by (auto simp: redact_tagged_snoc)
  then obtain b w where "redact_tagged r s = b @ u @ w" "\<not> contains (map fst u) sec"
    using replaced_middle snoc.prems(3) by metis
  then show ?case using snoc by simp
qed

lemma placeholder_bytes: "x \<in> set (redact_tagged r s) \<Longrightarrow> \<not> snd x \<Longrightarrow> fst x \<in> set redacted_mark"
proof (induction r arbitrary: x rule: rev_induct)
  case (snoc sec r)
  have new: "x \<in> set (replace_tagged sec t) \<Longrightarrow> x \<in> set t \<or> fst x \<in> set redacted_mark" if "sec \<noteq> []" for t
    by (induction t rule: tagged_induct [OF that]) (use that in \<open>auto simp: tagged_eqs dest: in_set_dropD\<close>)
  show ?case
  proof (cases "sec = []")
    case True
    then show ?thesis using snoc by (simp add: redact_tagged_snoc replace_tagged.simps [of "[]"])
  next
    case False
    then show ?thesis using snoc new unfolding redact_tagged_snoc by blast
  qed
qed (auto simp: redact_tagged_def)

lemma added_secrets: "foldl redactor_add r batches = r @ filter (\<lambda>s. s \<noteq> []) (concat batches)"
  by (induction batches arbitrary: r) (simp_all add: redactor_add_def)

text \<open>The stretches of original bytes of a tagged text.\<close>

fun orig_runs :: "tagged \<Rightarrow> string list" where
  "orig_runs [] = [[]]"
| "orig_runs ((c, b) # t) =
     (if b then (case orig_runs t of r # rs \<Rightarrow> (c # r) # rs | [] \<Rightarrow> [[c]]) else [] # orig_runs t)"

lemma orig_runs_first: "orig_runs t = r # rs \<Longrightarrow> \<exists>u v. t = u @ v \<and> list_all snd u \<and> r = map fst u"
proof (induction t arbitrary: r rs rule: orig_runs.induct)
  case (2 c b t)
  show ?case
  proof (cases b)
    case True
    then obtain r' rs' where r: "orig_runs t = r' # rs'" "r = c # r'" using 2 by (cases "orig_runs t") (auto, cases t, auto split: list.splits if_splits)
    then obtain u v where "t = u @ v" "list_all snd u" "r' = map fst u" using 2 True by metis
    then have "(c, b) # t = ((c, b) # u) @ v \<and> list_all snd ((c, b) # u) \<and> r = map fst ((c, b) # u)" using True r by simp
    then show ?thesis by blast
  qed (use 2 in auto)
qed auto

lemma orig_runs_all: "r \<in> set (orig_runs t) \<Longrightarrow> \<exists>a u v. t = a @ u @ v \<and> list_all snd u \<and> r = map fst u"
proof (induction t arbitrary: r rule: orig_runs.induct)
  case (2 c b t)
  obtain r1 rs where rs: "orig_runs ((c, b) # t) = r1 # rs" by (cases "orig_runs ((c, b) # t)") (auto split: if_splits list.splits)
  show ?case
  proof (cases "r = r1")
    case True
    then show ?thesis using orig_runs_first [OF rs] by (metis append_Nil)
  next
    case False
    then have "r \<in> set (orig_runs t)" using 2(3) rs by (auto split: if_splits list.splits)
    then obtain a u v where "t = a @ u @ v" "list_all snd u" "r = map fst u" using "2.IH" by (cases b) blast+
    then show ?thesis by (metis append_Cons)
  qed
qed auto


end
