(* ===== verification/CliConfig.thy ===== *)
theory CliConfig
  imports GoFlag ConfigDsn
begin

section \<open>Commands on the configuration\<close>

text \<open>
  The file \<open>cmd/dbferry/config_cmds.go\<close>, with the flag handling of \<open>output.go\<close>: listing, showing,
  adding and removing connections and destinations. A command maps its arguments and a state (the
  files, the keychain, what was printed) to an exit code and a new state; what the system answers
  is the record \<open>cli_env\<close>. The theory \<open>CliChanges\<close> proves what the commands keep.
\<close>

datatype printed = Out string | Err string | FlagUsage string

record cli =
  cl_files :: files
  cl_chain :: keychain
  cl_output :: "printed list"

text \<open>The environment of one command: how the steps on the system turn out, what the user answers to
  a confirmation, if there is a terminal, and the line read as a secret.\<close>

record cli_env =
  ce_getenv :: "string \<Rightarrow> string"
  ce_keyring :: keyring
  ce_toml :: toml
  ce_uid :: int
  ce_default_path :: string
  ce_stat_error :: "goerr option"
  ce_read_error :: "goerr option"
  ce_mkdir :: "goerr option"
  ce_try_lock :: "goerr + bool"
  ce_save :: save_env
  ce_confirm :: "bool option"
  ce_secret :: string

definition right_arrow :: string where
  "right_arrow = [CHR 0xE2, CHR 0x86, CHR 0x92]"

definition out_line :: "string \<Rightarrow> cli \<Rightarrow> cli" where
  "out_line t s = s\<lparr>cl_output := cl_output s @ [Out (t @ [CHR 0x0A])]\<rparr>"

definition err_text :: "string \<Rightarrow> cli \<Rightarrow> cli" where
  "err_text t s = s\<lparr>cl_output := cl_output s @ [Err t]\<rparr>"

definition err_line :: "string \<Rightarrow> cli \<Rightarrow> cli" where
  "err_line t s = err_text (t @ [CHR 0x0A]) s"

definition fail_line :: "goerr \<Rightarrow> cli \<Rightarrow> nat \<times> cli" where
  "fail_line e s = (1, err_line (''dbferry: '' @ error_text e) s)"

text \<open>The width of a text is its number of runes.\<close>

fun rune_count :: "nat \<Rightarrow> string \<Rightarrow> nat" where
  "rune_count k [] = 0"
| "rune_count (Suc k) (c # s) = rune_count k s"
| "rune_count 0 (c # s) = 1 + rune_count (case utf8_more c s of Some k \<Rightarrow> k | None \<Rightarrow> 0) s"

definition pad_right :: "nat \<Rightarrow> string \<Rightarrow> string" where
  "pad_right n s = s @ replicate (n - rune_count 0 s) CHR '' ''"

subsection \<open>Flags\<close>

type_synonym flags = "string \<Rightarrow> string"

definition parse_flags :: "string \<Rightarrow> flag_spec list \<Rightarrow> string list \<Rightarrow> cli \<Rightarrow> (nat + (string \<times> string) list) \<times> cli" where
  "parse_flags name specs args s =
     (case parse_args specs args of
        Inl HelpAsked \<Rightarrow> (Inl 0, s\<lparr>cl_output := cl_output s @ [FlagUsage name]\<rparr>)
      | Inl (FlagFailed m) \<Rightarrow> (Inl 1, s\<lparr>cl_output := cl_output s @ [Err (m @ [CHR 0x0A]), FlagUsage name]\<rparr>)
      | Inr (vs, []) \<Rightarrow> (Inr vs, s)
      | Inr (vs, a # rest) \<Rightarrow> (Inl 1, err_line (''dbferry '' @ name @ '': unexpected argument '' @ go_quote a) s))"

definition split_name :: "string \<Rightarrow> flag_spec list \<Rightarrow> string list \<Rightarrow> cli \<Rightarrow> (nat + string \<times> (string \<times> string) list) \<times> cli" where
  "split_name name specs args s =
     (case args of
        [] \<Rightarrow> (Inl 1, s)
      | a # rest \<Rightarrow>
          if has_prefix a ''-'' then
            (case parse_flags name specs args s of (Inl c, s') \<Rightarrow> (Inl c, s') | (Inr _, s') \<Rightarrow> (Inl 1, s'))
          else
            (case parse_flags name specs rest s of (Inl c, s') \<Rightarrow> (Inl c, s') | (Inr vs, s') \<Rightarrow> (Inr (a, vs), s')))"

text \<open>How every command starts: its flags, or its name and flags and otherwise its usage line.\<close>

definition with_flags :: "string \<Rightarrow> flag_spec list \<Rightarrow> string list \<Rightarrow> cli \<Rightarrow> ((string \<times> string) list \<Rightarrow> cli \<Rightarrow> nat \<times> cli) \<Rightarrow> nat \<times> cli" where
  "with_flags name specs args s k =
     (case parse_flags name specs args s of (Inl c, s') \<Rightarrow> (c, s') | (Inr vs, s') \<Rightarrow> k vs s')"

definition with_name :: "string \<Rightarrow> string \<Rightarrow> flag_spec list \<Rightarrow> string list \<Rightarrow> cli
    \<Rightarrow> (string \<Rightarrow> (string \<times> string) list \<Rightarrow> cli \<Rightarrow> nat \<times> cli) \<Rightarrow> nat \<times> cli" where
  "with_name usage name specs args s k =
     (case split_name name specs args s of
        (Inl c, s') \<Rightarrow> (c, if c = 1 then err_line usage s' else s')
      | (Inr (n, vs), s') \<Rightarrow> k n vs s')"

definition config_flag :: "flag_spec list" where
  "config_flag = [(''config'', StringFlag, [])]"

definition config_path :: "cli_env \<Rightarrow> string \<Rightarrow> string" where
  "config_path E override = (if override \<noteq> [] then override else ce_default_path E)"

subsection \<open>The configuration of a command\<close>

definition load_config :: "cli_env \<Rightarrow> cli \<Rightarrow> string \<Rightarrow> goerr + config_file" where
  "load_config E s path = Load (ce_toml E) (ce_uid E) (ce_stat_error E) (ce_read_error E) (cl_files s) path"

definition take_lock :: "cli_env \<Rightarrow> string \<Rightarrow> goerr option" where
  "take_lock E path = lock_config (ce_mkdir E) (ce_try_lock E) path"

definition save_config :: "cli_env \<Rightarrow> config_file \<Rightarrow> string \<Rightarrow> cli \<Rightarrow> goerr option \<times> cli" where
  "save_config E c path s =
     (case SaveLocked (ce_toml E) (ce_save E) (ce_uid E) c path (cl_files s) of
        (r, states) \<Rightarrow> (r, s\<lparr>cl_files := files_after (cl_files s) states\<rparr>))"

text \<open>What the commands that change the configuration share: take the lock and load, and write the
  changed configuration before anything else happens.\<close>

definition with_config :: "cli_env \<Rightarrow> string \<Rightarrow> (config_file \<Rightarrow> cli \<Rightarrow> nat \<times> cli) \<Rightarrow> cli \<Rightarrow> nat \<times> cli" where
  "with_config E path k s =
     (case take_lock E path of
        Some e \<Rightarrow> fail_line e s
      | None \<Rightarrow> (case load_config E s path of Inl e \<Rightarrow> fail_line e s | Inr cfg \<Rightarrow> k cfg s))"

definition save_then :: "cli_env \<Rightarrow> config_file \<Rightarrow> string \<Rightarrow> (cli \<Rightarrow> cli) \<Rightarrow> cli \<Rightarrow> nat \<times> cli" where
  "save_then E cfg path k s =
     (case save_config E cfg path s of (Some e, s') \<Rightarrow> fail_line e s' | (None, s') \<Rightarrow> (0, k s'))"

text \<open>A map of Go under assignment and \<open>delete\<close>.\<close>

definition put_entry :: "string \<Rightarrow> 'v \<Rightarrow> (string \<times> 'v) list \<Rightarrow> (string \<times> 'v) list" where
  "put_entry k v m = (k, v) # filter (\<lambda>(k', _). k' \<noteq> k) m"

definition drop_entry :: "string \<Rightarrow> (string \<times> 'v) list \<Rightarrow> (string \<times> 'v) list" where
  "drop_entry k m = filter (\<lambda>(k', _). k' \<noteq> k) m"

definition upsert_connection :: "cli_env \<Rightarrow> string \<Rightarrow> string \<Rightarrow> connection \<Rightarrow> cli \<Rightarrow> goerr option \<times> cli" where
  "upsert_connection E path name conn s =
     (case take_lock E path of
        Some e \<Rightarrow> (Some e, s)
      | None \<Rightarrow>
          (case load_config E s path of
             Inl e \<Rightarrow> (Some e, s)
           | Inr cfg \<Rightarrow>
               save_config E (cfg\<lparr>cf_connections := put_entry name conn (cf_connections cfg)\<rparr>) path s))"

definition destination_refs :: "destination \<Rightarrow> secret_ref list" where
  "destination_refs d =
     concat (map (\<lambda>r. case r of None \<Rightarrow> [] | Some x \<Rightarrow> [x]) [ds_access_key d, ds_secret_key d, ds_session_token d])"

definition secret_ref_still_used :: "config_file \<Rightarrow> secret_ref \<Rightarrow> bool" where
  "secret_ref_still_used cfg ref \<longleftrightarrow>
     list_ex (\<lambda>(_, c). sr_keyring (cn_password c) = sr_keyring ref) (cf_connections cfg)
     \<or> list_ex (\<lambda>(_, d). list_ex (\<lambda>r. sr_keyring r = sr_keyring ref) (destination_refs d)) (cf_destinations cfg)"

text \<open>Deleting the keychain entries that a removed entry of the configuration leaves unused; an
  error is only a warning.\<close>

definition delete_ref :: "cli_env \<Rightarrow> config_file \<Rightarrow> secret_ref \<Rightarrow> cli \<Rightarrow> cli" where
  "delete_ref E cfg r s =
     (if sr_keyring r \<noteq> [] \<and> \<not> secret_ref_still_used cfg r then
        (case ref_delete (ce_keyring E) r (cl_chain s) of
           (None, K) \<Rightarrow> s\<lparr>cl_chain := K\<rparr>
         | (Some e, K) \<Rightarrow> err_line (''dbferry: warning: '' @ error_text e) (s\<lparr>cl_chain := K\<rparr>))
      else s)"

text \<open>The confirmation on a terminal prints its question.\<close>

definition confirm :: "cli_env \<Rightarrow> string \<Rightarrow> cli \<Rightarrow> bool option \<times> cli" where
  "confirm E label s =
     (case ce_confirm E of None \<Rightarrow> (None, s) | Some b \<Rightarrow> (Some b, err_text (label @ '' [y/N]: '') s))"

text \<open>The confirmation unless \<open>--yes\<close> is given; \<open>None\<close> means that the command goes on.\<close>

definition refuse_removal :: "cli_env \<Rightarrow> bool \<Rightarrow> string \<Rightarrow> cli \<Rightarrow> nat option \<times> cli" where
  "refuse_removal E yes label s =
     (if yes then (None, s)
      else (case confirm E label s of
              (None, s') \<Rightarrow> (Some 1, err_line ''dbferry: refusing to remove without confirmation; pass --yes'' s')
            | (Some False, s') \<Rightarrow> (Some 1, err_line ''aborted'' s')
            | (Some True, s') \<Rightarrow> (None, s')))"

definition ref_text :: "secret_ref option \<Rightarrow> string" where
  "ref_text r = (case r of None \<Rightarrow> ''(none '' @ right_arrow @ '' AWS default chain)'' | Some x \<Rightarrow> ref_string x)"

definition split_dsn :: "string \<Rightarrow> goerr + string \<times> string \<times> string" where
  "split_dsn dsn =
     (case url_parse dsn of
        None \<Rightarrow> Inl (Errorf ''invalid DSN URL'' [] None)
      | Some u \<Rightarrow>
          let stripped = (case url_password u of
                            None \<Rightarrow> ([], u)
                          | Some pw \<Rightarrow> (pw, u\<lparr>url_user := Some (url_username u, None)\<rparr>)) in
          if url_scheme u = ''postgres'' \<or> url_scheme u = ''postgresql''
          then Inr (''postgres'', url_string (snd stripped), fst stripped)
          else if url_scheme u = ''mysql'' then Inr (''mysql'', url_string (snd stripped), fst stripped)
          else Inl (Errorf ''DSN scheme %q must be postgres:// or mysql://'' [url_scheme u] None))"

definition read_secret :: "cli_env \<Rightarrow> string \<Rightarrow> cli \<Rightarrow> string \<times> cli" where
  "read_secret E label s = (ce_secret E, err_text label s)"

subsection \<open>Listing and showing\<close>

definition no_connection :: "string \<Rightarrow> string" where
  "no_connection name = ''dbferry: no connection named '' @ go_quote name"

definition no_destination :: "string \<Rightarrow> string" where
  "no_destination name = ''dbferry: no destination named '' @ go_quote name"

definition connections_list :: "cli_env \<Rightarrow> string list \<Rightarrow> cli \<Rightarrow> nat \<times> cli" where
  "connections_list E args s =
     with_flags ''connections list'' config_flag args s (\<lambda>vs s.
       case load_config E s (config_path E (flag_value config_flag vs ''config'')) of
         Inl e \<Rightarrow> fail_line e s
       | Inr cfg \<Rightarrow>
           if cf_connections cfg = [] then (0, out_line ''no connections (run `dbferry init`)'' s)
           else (0, fold (\<lambda>n s. case map_of (cf_connections cfg) n of
                     None \<Rightarrow> s
                   | Some c \<Rightarrow> out_line (''  '' @ pad_right 20 n @ '' '' @ pad_right 9 (cn_engine c) @ '' '' @ right_arrow
                                @ '' '' @ cn_destination c) s)
                 (sorted_keys (cf_connections cfg)) s))"

definition connections_show :: "cli_env \<Rightarrow> string list \<Rightarrow> cli \<Rightarrow> nat \<times> cli" where
  "connections_show E args s =
     with_name ''usage: dbferry connections show <name>'' ''connections show'' config_flag args s (\<lambda>name vs s.
       case load_config E s (config_path E (flag_value config_flag vs ''config'')) of
         Inl e \<Rightarrow> fail_line e s
       | Inr cfg \<Rightarrow>
           (case map_of (cf_connections cfg) name of
              None \<Rightarrow> (1, err_line (no_connection name) s)
            | Some c \<Rightarrow>
                (0, out_line (join_with [CHR 0x0A]
                   [''engine        '' @ cn_engine c, ''dsn           '' @ cn_dsn c,
                    ''password      '' @ ref_string (cn_password c), ''default_database '' @ cn_default_database c,
                    ''destination   '' @ cn_destination c, ''age_recipient '' @ cn_age_recipient c]) s)))"

definition destinations_list :: "cli_env \<Rightarrow> string list \<Rightarrow> cli \<Rightarrow> nat \<times> cli" where
  "destinations_list E args s =
     with_flags ''destinations list'' config_flag args s (\<lambda>vs s.
       case load_config E s (config_path E (flag_value config_flag vs ''config'')) of
         Inl e \<Rightarrow> fail_line e s
       | Inr cfg \<Rightarrow>
           if cf_destinations cfg = [] then (0, out_line ''no destinations'' s)
           else (0, fold (\<lambda>n s. case map_of (cf_destinations cfg) n of
                     None \<Rightarrow> s
                   | Some d \<Rightarrow> out_line (''  '' @ pad_right 20 n @ '' '' @ DestURL d) s)
                 (sorted_keys (cf_destinations cfg)) s))"

definition destinations_show :: "cli_env \<Rightarrow> string list \<Rightarrow> cli \<Rightarrow> nat \<times> cli" where
  "destinations_show E args s =
     with_name ''usage: dbferry destinations show <name>'' ''destinations show'' config_flag args s (\<lambda>name vs s.
       case load_config E s (config_path E (flag_value config_flag vs ''config'')) of
         Inl e \<Rightarrow> fail_line e s
       | Inr cfg \<Rightarrow>
           (case map_of (cf_destinations cfg) name of
              None \<Rightarrow> (1, err_line (no_destination name) s)
            | Some d \<Rightarrow>
                (0, out_line (join_with [CHR 0x0A]
                   [''bucket        '' @ ds_bucket d, ''prefix        '' @ ds_prefix d, ''endpoint      '' @ ds_endpoint d,
                    ''region        '' @ ds_region d, ''profile       '' @ ds_profile d,
                    ''access_key    '' @ ref_text (ds_access_key d), ''secret_key    '' @ ref_text (ds_secret_key d),
                    ''session_token '' @ ref_text (ds_session_token d)]) s)))"

subsection \<open>Adding\<close>

definition add_connection_flags :: "flag_spec list" where
  "add_connection_flags =
     [(''config'', StringFlag, []), (''dsn'', StringFlag, []), (''password-env'', StringFlag, []),
      (''password-keyring'', StringFlag, []), (''default-database'', StringFlag, []),
      (''destination'', StringFlag, []), (''age-recipient'', StringFlag, [])]"

definition password_warning :: string where
  "password_warning = ''dbferry: warning: a password on the command line is world-readable (ps, shell history); prefer omitting it from --dsn and entering it at the prompt or via stdin''"

text \<open>The warning of a failed rollback.\<close>

definition rollback_warning :: "goerr \<Rightarrow> string \<Rightarrow> string" where
  "rollback_warning e k = ''dbferry: warning: '' @ error_text e @ '' '' @ em_dash @ '' the keychain entry ''
     @ go_quote k @ '' now holds the NEW password''"

text \<open>The secret first, then the configuration; a configuration that is not written puts the
  keychain back. \<open>connections add\<close> and \<open>init\<close> write this sequence out each, with a report of their own.\<close>

definition store_connection :: "cli_env \<Rightarrow> string \<Rightarrow> string \<Rightarrow> connection \<Rightarrow> string \<Rightarrow> (cli \<Rightarrow> cli) \<Rightarrow> cli \<Rightarrow> nat \<times> cli" where
  "store_connection E path name conn password report s =
     (let key = sr_keyring (cn_password conn);
          (stored, s1) =
            (if key = [] then (Inr (\<lambda>K. (None, K)), s)
             else (case store_with_rollback (ce_keyring E) (cn_password conn) password (cl_chain s) of
                     (r, K) \<Rightarrow> (r, s\<lparr>cl_chain := K\<rparr>)))
      in case stored of
           Inl e \<Rightarrow> fail_line e s1
         | Inr rollback \<Rightarrow>
             (case upsert_connection E path name conn s1 of
                (None, s2) \<Rightarrow> (0, report s2)
              | (Some e, s2) \<Rightarrow>
                  (case rollback (cl_chain s2) of
                     (None, K) \<Rightarrow> fail_line e (s2\<lparr>cl_chain := K\<rparr>)
                   | (Some e', K) \<Rightarrow> fail_line e (err_line (rollback_warning e' key) (s2\<lparr>cl_chain := K\<rparr>)))))"

definition flag_connection :: "(string \<Rightarrow> string) \<Rightarrow> string \<Rightarrow> string \<Rightarrow> connection" where
  "flag_connection v engine template =
     \<lparr>cn_engine = engine, cn_dsn = template,
      cn_password = (if v ''password-env'' = [] then \<lparr>sr_keyring = v ''password-keyring'', sr_env = []\<rparr>
                     else \<lparr>sr_keyring = [], sr_env = v ''password-env''\<rparr>),
      cn_default_database = v ''default-database'', cn_destination = v ''destination'',
      cn_age_recipient = v ''age-recipient''\<rparr>"

definition add_connection :: "cli_env \<Rightarrow> string \<Rightarrow> (string \<Rightarrow> string) \<Rightarrow> cli \<Rightarrow> nat \<times> cli" where
  "add_connection E name v s =
     (if v ''dsn'' = [] then (1, err_line ''dbferry: --dsn is required'' s)
      else if (v ''password-env'' = []) = (v ''password-keyring'' = [])
      then (1, err_line ''dbferry: choose exactly one of --password-keyring or --password-env'' s)
      else (case split_dsn (v ''dsn'') of
         Inl e \<Rightarrow> fail_line e s
       | Inr (engine, template, given) \<Rightarrow>
           let s1 = (if given \<noteq> [] then err_line password_warning s else s);
               keyed = (v ''password-env'' = []);
               (password, s2) = (if keyed \<and> given = [] then read_secret E ''database password: '' s1 else (given, s1));
               conn = flag_connection v engine template in
           if keyed \<and> password = []
           then (1, err_line ''dbferry: no password given (put it in the DSN or type it when prompted)'' s2)
           else (case validate_connection conn of
                   Some e \<Rightarrow> (1, err_line (''dbferry: invalid connection: '' @ error_text e) s2)
                 | None \<Rightarrow> store_connection E (config_path E (v ''config'')) name conn password
                     (out_line (''added connection '' @ go_quote name @ '' ('' @ engine @ '')'')) s2)))"

definition connections_add :: "cli_env \<Rightarrow> string list \<Rightarrow> cli \<Rightarrow> nat \<times> cli" where
  "connections_add E args s =
     with_name ''usage: dbferry connections add <name> --dsn ... (--password-keyring NAME | --password-env VAR)''
       ''connections add'' add_connection_flags args s (\<lambda>name vs. add_connection E name (flag_value add_connection_flags vs))"

definition add_destination_flags :: "flag_spec list" where
  "add_destination_flags =
     [(''config'', StringFlag, []), (''bucket'', StringFlag, []), (''prefix'', StringFlag, []),
      (''endpoint'', StringFlag, []), (''region'', StringFlag, []), (''profile'', StringFlag, []),
      (''access-key-env'', StringFlag, []), (''secret-key-env'', StringFlag, []), (''session-token-env'', StringFlag, [])]"

definition env_ref :: "string \<Rightarrow> secret_ref option" where
  "env_ref n = (if n \<noteq> [] then Some \<lparr>sr_keyring = [], sr_env = n\<rparr> else None)"

definition store_destination :: "cli_env \<Rightarrow> string \<Rightarrow> string \<Rightarrow> destination \<Rightarrow> cli \<Rightarrow> nat \<times> cli" where
  "store_destination E path name dst =
     with_config E path (\<lambda>cfg.
       save_then E (cfg\<lparr>cf_destinations := put_entry name dst (cf_destinations cfg)\<rparr>) path
         (out_line (''added destination '' @ go_quote name @ '' '' @ right_arrow @ '' '' @ DestURL dst)))"

definition flag_destination :: "(string \<Rightarrow> string) \<Rightarrow> destination" where
  "flag_destination v =
     \<lparr>ds_bucket = v ''bucket'', ds_prefix = v ''prefix'', ds_endpoint = v ''endpoint'', ds_region = v ''region'',
      ds_profile = v ''profile'', ds_access_key = env_ref (v ''access-key-env''),
      ds_secret_key = env_ref (v ''secret-key-env''), ds_session_token = env_ref (v ''session-token-env'')\<rparr>"

definition add_destination :: "cli_env \<Rightarrow> string \<Rightarrow> (string \<Rightarrow> string) \<Rightarrow> cli \<Rightarrow> nat \<times> cli" where
  "add_destination E name v s =
     (if v ''bucket'' = [] then (1, err_line ''dbferry: --bucket is required'' s)
      else (case validate_destination (flag_destination v) of
         Some e \<Rightarrow> (1, err_line (''dbferry: invalid destination: '' @ error_text e) s)
       | None \<Rightarrow> store_destination E (config_path E (v ''config'')) name (flag_destination v) s))"

definition destinations_add :: "cli_env \<Rightarrow> string list \<Rightarrow> cli \<Rightarrow> nat \<times> cli" where
  "destinations_add E args s =
     with_name (''usage: dbferry destinations add <name> --bucket ... [--endpoint ... --region ... --access-key-env ... --secret-key-env ...]'')
       ''destinations add'' add_destination_flags args s (\<lambda>name vs. add_destination E name (flag_value add_destination_flags vs))"

subsection \<open>Removing\<close>

definition remove_flags :: "flag_spec list" where
  "remove_flags = [(''config'', StringFlag, []), (''yes'', BoolFlag, ''false'')]"

text \<open>Both removals: lock, load, ask, write the configuration without the entry, and only then delete
  the secrets that nothing refers to any more.\<close>

definition remove_connection :: "cli_env \<Rightarrow> string \<Rightarrow> string \<Rightarrow> bool \<Rightarrow> cli \<Rightarrow> nat \<times> cli" where
  "remove_connection E path name yes =
     with_config E path (\<lambda>cfg s.
       case map_of (cf_connections cfg) name of
         None \<Rightarrow> (1, err_line (no_connection name) s)
       | Some c \<Rightarrow>
           (case refuse_removal E yes (''Remove connection '' @ go_quote name @ '' and its stored password?'') s of
              (Some code, s') \<Rightarrow> (code, s')
            | (None, s') \<Rightarrow>
                let cfg' = cfg\<lparr>cf_connections := drop_entry name (cf_connections cfg)\<rparr> in
                save_then E cfg' path
                  (\<lambda>s. out_line (''removed connection '' @ go_quote name) (delete_ref E cfg' (cn_password c) s)) s'))"

definition connections_rm :: "cli_env \<Rightarrow> string list \<Rightarrow> cli \<Rightarrow> nat \<times> cli" where
  "connections_rm E args s =
     with_name ''usage: dbferry connections rm <name> [--yes]'' ''connections rm'' remove_flags args s (\<lambda>name vs s.
       remove_connection E (config_path E (flag_value remove_flags vs ''config'')) name (flag_bool remove_flags vs ''yes'') s)"

definition remove_destination :: "cli_env \<Rightarrow> string \<Rightarrow> string \<Rightarrow> bool \<Rightarrow> cli \<Rightarrow> nat \<times> cli" where
  "remove_destination E path name yes =
     with_config E path (\<lambda>cfg s.
       case map_of (cf_destinations cfg) name of
         None \<Rightarrow> (1, err_line (no_destination name) s)
       | Some d \<Rightarrow>
           (case refuse_removal E yes (''Remove destination '' @ go_quote name @ '' and its stored credentials?'') s of
              (Some code, s') \<Rightarrow> (code, s')
            | (None, s') \<Rightarrow>
                let cfg' = cfg\<lparr>cf_destinations := drop_entry name (cf_destinations cfg)\<rparr> in
                save_then E cfg' path
                  (\<lambda>s. out_line (''removed destination '' @ go_quote name)
                     (fold (delete_ref E cfg') (destination_refs d) s)) s'))"

definition destinations_rm :: "cli_env \<Rightarrow> string list \<Rightarrow> cli \<Rightarrow> nat \<times> cli" where
  "destinations_rm E args s =
     with_name ''usage: dbferry destinations rm <name> [--yes]'' ''destinations rm'' remove_flags args s (\<lambda>name vs s.
       remove_destination E (config_path E (flag_value remove_flags vs ''config'')) name (flag_bool remove_flags vs ''yes'') s)"

subsection \<open>Dispatch\<close>

definition subcommand :: "string \<Rightarrow> (cli_env \<Rightarrow> string list \<Rightarrow> cli \<Rightarrow> nat \<times> cli) list \<Rightarrow> cli_env \<Rightarrow> string list \<Rightarrow> cli \<Rightarrow> nat \<times> cli" where
  "subcommand what handlers E args s =
     (let usage = ''usage: dbferry '' @ what @ '' <list|show|add|rm> ...'' in
      case args of
        [] \<Rightarrow> (1, err_line usage s)
      | a # rest \<Rightarrow>
          if a = ''list'' then (handlers ! 0) E rest s
          else if a = ''show'' then (handlers ! 1) E rest s
          else if a = ''add'' then (handlers ! 2) E rest s
          else if a = ''rm'' \<or> a = ''remove'' then (handlers ! 3) E rest s
          else if a = ''help'' \<or> a = ''-h'' \<or> a = ''--help'' then (0, out_line usage s)
          else (1, err_line (''dbferry: unknown '' @ what @ '' subcommand '' @ go_quote a) s))"

definition cmd_connections :: "cli_env \<Rightarrow> string list \<Rightarrow> cli \<Rightarrow> nat \<times> cli" where
  "cmd_connections = subcommand ''connections'' [connections_list, connections_show, connections_add, connections_rm]"

definition cmd_destinations :: "cli_env \<Rightarrow> string list \<Rightarrow> cli \<Rightarrow> nat \<times> cli" where
  "cmd_destinations = subcommand ''destinations'' [destinations_list, destinations_show, destinations_add, destinations_rm]"

end
