(* ===== verification/GoIndent.thy ===== *)
theory GoIndent
  imports GoJson
begin

section \<open>Package encoding/json: indented documents\<close>

text \<open>
  \<open>json.MarshalIndent\<close> with an empty prefix and two blanks, for values of any shape: each element
  and member stands on a line of its own. What it writes is read back as the value written.
\<close>

definition newline_at :: "nat \<Rightarrow> string" where
  "newline_at d = CHR 0x0A # replicate (2 * d) CHR '' ''"

function indent_value :: "nat \<Rightarrow> json \<Rightarrow> string"
  and indent_elems :: "nat \<Rightarrow> json list \<Rightarrow> string"
  and indent_members :: "nat \<Rightarrow> (string \<times> json) list \<Rightarrow> string" where
  "indent_value d JNull = ''null''"
| "indent_value d (JBool b) = (if b then ''true'' else ''false'')"
| "indent_value d (JNum s) = s"
| "indent_value d (JStr s) = json_quote s"
| "indent_value d (JArr xs) =
     (if xs = [] then ''[]'' else ''['' @ indent_elems (Suc d) xs @ newline_at d @ '']'')"
| "indent_value d (JObj ms) =
     (if ms = [] then ''{}'' else ''{'' @ indent_members (Suc d) ms @ newline_at d @ ''}'')"
| "indent_elems d [] = []"
| "indent_elems d (x # xs) =
     newline_at d @ indent_value d x @ (if xs = [] then [] else '','' @ indent_elems d xs)"
| "indent_members d [] = []"
| "indent_members d ((k, v) # ms) =
     newline_at d @ json_quote k @ '': '' @ indent_value d v
       @ (if ms = [] then [] else '','' @ indent_members d ms)"
  by pat_completeness auto
termination
  by (relation "measure (\<lambda>x. case x of Inl (d, v) \<Rightarrow> size v
        | Inr (Inl (d, xs)) \<Rightarrow> size_list size xs
        | Inr (Inr (d, ms)) \<Rightarrow> size_list (size_prod (\<lambda>_. 0) size) ms)") auto

definition marshal_indent :: "json \<Rightarrow> string" where
  "marshal_indent v = indent_value 0 v"

subsection \<open>Reading it back\<close>

text \<open>The values whose texts are read back: strings of valid UTF-8, numbers in decimal; and how
  deeply containers nest.\<close>

function value_ok :: "json \<Rightarrow> bool" and elems_ok :: "json list \<Rightarrow> bool" and members_ok :: "(string \<times> json) list \<Rightarrow> bool" where
  "value_ok JNull = False"
| "value_ok (JBool b) = True"
| "value_ok (JNum s) = (\<exists>i. s = itoa i)"
| "value_ok (JStr s) = valid_utf8 0 s"
| "value_ok (JArr xs) = elems_ok xs"
| "value_ok (JObj ms) = members_ok ms"
| "elems_ok [] = True"
| "elems_ok (x # xs) = (value_ok x \<and> elems_ok xs)"
| "members_ok [] = True"
| "members_ok ((k, v) # ms) = (valid_utf8 0 k \<and> value_ok v \<and> members_ok ms)"
  by pat_completeness auto
termination
  by (relation "measure (\<lambda>x. case x of Inl v \<Rightarrow> size v
        | Inr (Inl xs) \<Rightarrow> size_list size xs
        | Inr (Inr ms) \<Rightarrow> size_list (size_prod (\<lambda>_. 0) size) ms)") auto

function value_depth :: "json \<Rightarrow> int" and elems_depth :: "json list \<Rightarrow> int"
  and members_depth :: "(string \<times> json) list \<Rightarrow> int" where
  "value_depth JNull = 0"
| "value_depth (JBool b) = 0"
| "value_depth (JNum s) = 0"
| "value_depth (JStr s) = 0"
| "value_depth (JArr xs) = 1 + elems_depth xs"
| "value_depth (JObj ms) = 1 + members_depth ms"
| "elems_depth [] = 0"
| "elems_depth (x # xs) = max (value_depth x) (elems_depth xs)"
| "members_depth [] = 0"
| "members_depth ((k, v) # ms) = max (value_depth v) (members_depth ms)"
  by pat_completeness auto
termination
  by (relation "measure (\<lambda>x. case x of Inl v \<Rightarrow> size v
        | Inr (Inl xs) \<Rightarrow> size_list size xs
        | Inr (Inr ms) \<Rightarrow> size_list (size_prod (\<lambda>_. 0) size) ms)") auto

lemma tokens_blanks [simp]: "tokens (replicate n CHR '' '' @ r) = tokens r"
  by (induction n) (simp_all add: json_space_def)

lemma tokens_newline [simp]: "tokens (newline_at d @ r) = tokens r"
  by (simp add: newline_at_def json_space_def)

lemma num_end_simps [simp]:
  "num_end (newline_at d @ r)" "num_end (CHR '','' # r)" "num_end (CHR 0x0A # r)" "num_end []"
  by (simp_all add: num_end_def newline_at_def is_digit_def)

lemma tokens_bool: "tokens ((if b then ''true'' else ''false'') @ r)
    = map_option ((#) (TVal (JBool b))) (tokens r)"
  by (simp add: tokens.simps [of "CHR ''t'' # _"] tokens.simps [of "CHR ''f'' # _"] next_token_def
      json_space_def json_punct_def is_digit_def has_prefix_def)

text \<open>A text adds its tokens to those of the text behind it.\<close>

definition reads_as :: "string \<Rightarrow> token list \<Rightarrow> bool" where
  "reads_as s ts \<longleftrightarrow> (\<forall>r. num_end r \<longrightarrow> tokens (s @ r) = map_option ((@) ts) (tokens r))"

lemma reads_asD: "reads_as s ts \<Longrightarrow> num_end r \<Longrightarrow> tokens (s @ r) = map_option ((@) ts) (tokens r)"
  by (simp add: reads_as_def)

lemma append_eta: "(@) (ts @ us) = (\<lambda>x. ts @ us @ x)" "(@) (t # us) = (\<lambda>x. t # us @ x)" "(@) [] = (\<lambda>x. x)"
  by (simp_all add: fun_eq_iff)

lemma complete_simps [simp]:
  "complete v [] = (EndTop v, [])"
  "complete v (ArrFrame vs # st) = (AfterElem, ArrFrame (vs @ [v]) # st)"
  "complete v (ObjFrame ms k # st) = (AfterMember, ObjFrame (ms @ [(k, v)]) [] # st)"
  by (simp_all add: complete_def)

lemma reads_as_append:
  assumes "reads_as s ts" "reads_as t us" "\<And>r. num_end r \<Longrightarrow> num_end (t @ r)"
  shows "reads_as (s @ t) (ts @ us)"
  using assms by (simp add: reads_as_def option.map_comp comp_def append_eta)

lemma reads_as_Cons: "json_punct c \<Longrightarrow> reads_as s ts \<Longrightarrow> reads_as (c # s) (TPunct c # ts)"
  by (simp add: reads_as_def option.map_comp comp_def append_eta)

lemma reads_as_newline: "reads_as s ts \<Longrightarrow> reads_as (newline_at d @ s) ts"
  by (simp add: reads_as_def)

lemma reads_as_close: "json_punct c \<Longrightarrow> reads_as (newline_at d @ [c]) [TPunct c]"
  by (simp add: reads_as_def append_eta)

text \<open>The tokens of a value complete it, those of elements and members extend the open container.\<close>

definition value_tokens :: "json \<Rightarrow> token list \<Rightarrow> bool" where
  "value_tokens v ts \<longleftrightarrow> (\<forall>st rest q. int (length st) + value_depth v \<le> 10000 \<and> q \<in> {BeginValue, BeginValueOrEnd} \<longrightarrow>
     json_run q st (ts @ rest) = json_run (fst (complete v st)) (snd (complete v st)) rest)"

definition elems_tokens :: "json list \<Rightarrow> token list \<Rightarrow> bool" where
  "elems_tokens xs ts \<longleftrightarrow> (\<forall>acc st rest q. int (length st) + 1 + elems_depth xs \<le> 10000 \<and> q \<in> {BeginValue, BeginValueOrEnd} \<longrightarrow>
     json_run q (ArrFrame acc # st) (ts @ rest) = json_run AfterElem (ArrFrame (acc @ xs) # st) rest)"

definition members_tokens :: "(string \<times> json) list \<Rightarrow> token list \<Rightarrow> bool" where
  "members_tokens ms ts \<longleftrightarrow> (\<forall>acc k st rest q. int (length st) + 1 + members_depth ms \<le> 10000 \<and> q \<in> {BeginKey, BeginKeyOrEnd} \<longrightarrow>
     json_run q (ObjFrame acc k # st) (ts @ rest) = json_run AfterMember (ObjFrame (acc @ ms) [] # st) rest)"

lemma scalar_tokens: "v = JStr s \<or> v = JBool b \<or> v = JNum n \<Longrightarrow> value_tokens v [TVal v]"
  by (auto simp: value_tokens_def json_step_def begin_value_def split: prod.splits)

lemma array_tokens:
  assumes "elems_tokens xs ts"
  shows "value_tokens (JArr xs) (TPunct CHR ''['' # ts @ [TPunct CHR '']''])"
proof -
  have "json_run q st (TPunct CHR ''['' # ts @ [TPunct CHR '']''] @ rest)
      = json_run (fst (complete (JArr xs) st)) (snd (complete (JArr xs) st)) rest"
    if "int (length st) + value_depth (JArr xs) \<le> 10000 \<and> q \<in> {BeginValue, BeginValueOrEnd}" for st rest q
  proof -
    have depth: "0 \<le> elems_depth xs" by (induction xs) auto
    have "json_run BeginValueOrEnd (ArrFrame [] # st) (ts @ TPunct CHR '']'' # rest)
        = json_run AfterElem (ArrFrame xs # st) (TPunct CHR '']'' # rest)"
      using assms that unfolding elems_tokens_def by (simp add: algebra_simps)
    then show ?thesis
      using that depth by (auto simp: json_step_def begin_value_def open_frame_def close_frame_def split: prod.splits)
  qed
  then show ?thesis by (simp add: value_tokens_def)
qed

lemma object_tokens:
  assumes "members_tokens ms ts"
  shows "value_tokens (JObj ms) (TPunct CHR ''{'' # ts @ [TPunct CHR ''}''])"
proof -
  have "json_run q st (TPunct CHR ''{'' # ts @ [TPunct CHR ''}''] @ rest)
      = json_run (fst (complete (JObj ms) st)) (snd (complete (JObj ms) st)) rest"
    if "int (length st) + value_depth (JObj ms) \<le> 10000 \<and> q \<in> {BeginValue, BeginValueOrEnd}" for st rest q
  proof -
    have depth: "0 \<le> members_depth ms" by (induction ms) auto
    have "json_run BeginKeyOrEnd (ObjFrame [] [] # st) (ts @ TPunct CHR ''}'' # rest)
        = json_run AfterMember (ObjFrame ms [] # st) (TPunct CHR ''}'' # rest)"
      using assms that unfolding members_tokens_def by (simp add: algebra_simps)
    then show ?thesis
      using that depth by (auto simp: json_step_def begin_value_def open_frame_def close_frame_def split: prod.splits)
  qed
  then show ?thesis by (simp add: value_tokens_def)
qed

lemma elems_tokens_Cons:
  assumes "value_tokens x ts" "xs = [] \<and> us = [] \<or> (\<exists>us'. us = TPunct CHR '','' # us' \<and> elems_tokens xs us')"
  shows "elems_tokens (x # xs) (ts @ us)"
proof -
  have "json_run q (ArrFrame acc # st) ((ts @ us) @ rest) = json_run AfterElem (ArrFrame (acc @ x # xs) # st) rest"
    if "int (length st) + 1 + elems_depth (x # xs) \<le> 10000 \<and> q \<in> {BeginValue, BeginValueOrEnd}" for acc st rest q
  proof -
    have "json_run q (ArrFrame acc # st) (ts @ us @ rest) = json_run AfterElem (ArrFrame (acc @ [x]) # st) (us @ rest)"
      using assms(1) [unfolded value_tokens_def, rule_format, of "ArrFrame acc # st" q "us @ rest"] that by auto
    also have "\<dots> = json_run AfterElem (ArrFrame (acc @ x # xs) # st) rest"
      using assms(2) that by (auto simp: elems_tokens_def json_step_def algebra_simps)
    finally show ?thesis by simp
  qed
  then show ?thesis by (simp add: elems_tokens_def)
qed

lemma members_tokens_Cons:
  assumes "value_tokens v ts" "ms = [] \<and> us = [] \<or> (\<exists>us'. us = TPunct CHR '','' # us' \<and> members_tokens ms us')"
  shows "members_tokens ((k, v) # ms) (TVal (JStr k) # TPunct CHR '':'' # ts @ us)"
proof -
  have "json_run q (ObjFrame acc k0 # st) ((TVal (JStr k) # TPunct CHR '':'' # ts @ us) @ rest)
      = json_run AfterMember (ObjFrame (acc @ (k, v) # ms) [] # st) rest"
    if "int (length st) + 1 + members_depth ((k, v) # ms) \<le> 10000 \<and> q \<in> {BeginKey, BeginKeyOrEnd}" for acc k0 st rest q
  proof -
    have "json_run BeginValue (ObjFrame acc k # st) (ts @ us @ rest) = json_run AfterMember (ObjFrame (acc @ [(k, v)]) [] # st) (us @ rest)"
      using assms(1) [unfolded value_tokens_def, rule_format, of "ObjFrame acc k # st" BeginValue "us @ rest"] that by auto
    also have "\<dots> = json_run AfterMember (ObjFrame (acc @ (k, v) # ms) [] # st) rest"
      using assms(2) that by (auto simp: members_tokens_def json_step_def algebra_simps)
    finally show ?thesis using that by (auto simp: json_step_def begin_key_def)
  qed
  then show ?thesis by (simp add: members_tokens_def)
qed

lemma empty_tokens:
  "value_tokens (JArr []) [TPunct CHR ''['', TPunct CHR '']'']" "value_tokens (JObj []) [TPunct CHR ''{'', TPunct CHR ''}'']"
  by (auto simp: value_tokens_def json_step_def begin_value_def open_frame_def close_frame_def split: prod.splits)

text \<open>Every value, list of elements and list of members reads as tokens that build it.\<close>

lemma indent_reads:
  "value_ok v \<Longrightarrow> \<exists>ts. reads_as (indent_value d v) ts \<and> value_tokens v ts"
  "elems_ok xs \<Longrightarrow> xs \<noteq> [] \<Longrightarrow> \<exists>ts. reads_as (indent_elems d xs) ts \<and> elems_tokens xs ts"
  "members_ok ms \<Longrightarrow> ms \<noteq> [] \<Longrightarrow> \<exists>ts. reads_as (indent_members d ms) ts \<and> members_tokens ms ts"
proof (induction d v and d xs and d ms rule: indent_value_indent_elems_indent_members.induct)
  case (2 d b)
  have "reads_as (indent_value d (JBool b)) [TVal (JBool b)]" by (simp add: reads_as_def tokens_bool append_eta)
  then show ?case using scalar_tokens by blast
next
  case (3 d s)
  then obtain i where "s = itoa i" by auto
  then have "reads_as (indent_value d (JNum s)) [TVal (JNum s)]" by (simp add: reads_as_def append_eta)
  then show ?case using scalar_tokens by blast
next
  case (4 d s)
  then have "reads_as (indent_value d (JStr s)) [TVal (JStr s)]" by (simp add: reads_as_def append_eta)
  then show ?case using scalar_tokens by blast
next
  case (5 d xs)
  show ?case
  proof (cases "xs = []")
    case True
    have "reads_as ''[]'' [TPunct CHR ''['', TPunct CHR '']'']"
      by (simp add: reads_as_def json_punct_def option.map_comp comp_def append_eta)
    then show ?thesis using True empty_tokens by auto
  next
    case False
    then obtain ts where ts: "reads_as (indent_elems (Suc d) xs) ts" "elems_tokens xs ts" using 5 by auto
    have "reads_as (''['' @ indent_elems (Suc d) xs @ newline_at d @ '']'') (TPunct CHR ''['' # ts @ [TPunct CHR '']''])"
      using reads_as_Cons [OF _ reads_as_append [OF ts(1) reads_as_close]] by (simp add: json_punct_def)
    then show ?thesis using array_tokens [OF ts(2)] False by auto
  qed
next
  case (6 d ms)
  show ?case
  proof (cases "ms = []")
    case True
    have "reads_as ''{}'' [TPunct CHR ''{'', TPunct CHR ''}'']"
      by (simp add: reads_as_def json_punct_def option.map_comp comp_def append_eta)
    then show ?thesis using True empty_tokens by auto
  next
    case False
    then obtain ts where ts: "reads_as (indent_members (Suc d) ms) ts" "members_tokens ms ts" using 6 by auto
    have "reads_as (''{'' @ indent_members (Suc d) ms @ newline_at d @ ''}'') (TPunct CHR ''{'' # ts @ [TPunct CHR ''}''])"
      using reads_as_Cons [OF _ reads_as_append [OF ts(1) reads_as_close]] by (simp add: json_punct_def)
    then show ?thesis using object_tokens [OF ts(2)] False by auto
  qed
next
  case (8 d x xs)
  then obtain ts where ts: "reads_as (indent_value d x) ts" "value_tokens x ts" by auto
  show ?case
  proof (cases "xs = []")
    case True
    then show ?thesis using reads_as_newline [OF ts(1), of d] elems_tokens_Cons [OF ts(2), of "[]" "[]"] by auto
  next
    case False
    then obtain us where us: "reads_as (indent_elems d xs) us" "elems_tokens xs us" using 8 by auto
    have "reads_as (newline_at d @ indent_value d x @ '','' @ indent_elems d xs) (ts @ TPunct CHR '','' # us)"
      using reads_as_newline [OF reads_as_append [OF ts(1) reads_as_Cons [OF _ us(1)]], of "CHR '',''"]
      by (simp add: json_punct_def)
    then show ?thesis using elems_tokens_Cons [OF ts(2), of xs "TPunct CHR '','' # us"] us(2) False by auto
  qed
next
  case (10 d k v ms)
  then obtain ts where ts: "reads_as (indent_value d v) ts" "value_tokens v ts" by auto
  have key: "reads_as (newline_at d @ json_quote k @ '': '' @ s) (TVal (JStr k) # TPunct CHR '':'' # us)"
    if "reads_as s us" for s us
    using that 10 by (simp add: reads_as_def json_punct_def json_space_def option.map_comp comp_def append_eta)
  show ?case
  proof (cases "ms = []")
    case True
    then show ?thesis using key [OF ts(1)] members_tokens_Cons [OF ts(2), of "[]" "[]" k] by auto
  next
    case False
    then obtain us where us: "reads_as (indent_members d ms) us" "members_tokens ms us" using 10 by auto
    have "reads_as (indent_value d v @ '','' @ indent_members d ms) (ts @ TPunct CHR '','' # us)"
      using reads_as_append [OF ts(1) reads_as_Cons [OF _ us(1)], of "CHR '',''"] by (simp add: json_punct_def)
    then show ?thesis using key members_tokens_Cons [OF ts(2), of ms "TPunct CHR '','' # us" k] us(2) False by auto
  qed
qed simp_all

text \<open>Hence a document is read back; the sources write it with a line feed behind it.\<close>

lemma parse_marshal_indent:
  assumes "value_ok v" "value_depth v \<le> 10000"
  shows "json_parse (marshal_indent v @ [CHR 0x0A]) = Some v"
proof -
  obtain ts where ts: "reads_as (indent_value 0 v) ts" "value_tokens v ts" using indent_reads(1) [OF assms(1)] by blast
  have "tokens (marshal_indent v @ [CHR 0x0A]) = Some ts"
    using reads_asD [OF ts(1), of "[CHR 0x0A]"] by (simp add: marshal_indent_def json_space_def tokens.simps [of "[]"])
  moreover have "json_run BeginValue [] (ts @ []) = Some v"
    using ts(2) [unfolded value_tokens_def, rule_format, of "[]" BeginValue "[]"] assms(2) by simp
  ultimately show ?thesis by (simp add: json_parse_def)
qed

end
