(* ===== verification/PgClient.thy ===== *)
theory PgClient
  imports Driver
begin

section \<open>The dump clients of PostgreSQL\<close>

text \<open>
  The file \<open>pipeline/pgclient.go\<close> and the version queries of \<open>pipeline/dump.go\<close>: which
  \<open>pg_dump\<close> binaries the host has, which of them dumps a server, and which servers are
  supported. What the host answers (the output of a command, the files of a pattern, the search
  of the path) is the record \<open>host\<close>.
\<close>

record host =
  h_output :: "string \<Rightarrow> string list \<Rightarrow> goerr + string"
  h_glob :: "string \<Rightarrow> string list"
  h_look_path :: "string \<Rightarrow> goerr + string"
  h_environ :: "string list"

definition min_supported_pg_major :: int where "min_supported_pg_major = 14"
definition max_supported_pg_major :: int where "max_supported_pg_major = 18"

record pg_client =
  pgc_path :: string
  pgc_major :: int

text \<open>The leftmost match of the pattern digits, dot, digit; its first group.\<close>

fun find_version :: "string \<Rightarrow> string option" where
  "find_version [] = None"
| "find_version (c # s) =
     (if is_digit c
         \<and> (case dropWhile is_digit (c # s) of d # e # _ \<Rightarrow> d = CHR ''.'' \<and> is_digit e | _ \<Rightarrow> False)
      then Some (takeWhile is_digit (c # s))
      else find_version s)"

definition parse_pg_dump_major :: "string \<Rightarrow> int option" where
  "parse_pg_dump_major version =
     (case find_version version of None \<Rightarrow> None | Some m \<Rightarrow> parse_int64 m)"

text \<open>The closure \<open>add\<close>: the state is the clients found so far and the paths seen.\<close>

definition add_client :: "host \<Rightarrow> string \<Rightarrow> pg_client list \<times> string set \<Rightarrow> pg_client list \<times> string set" where
  "add_client h path st =
     (case st of (clients, seen) \<Rightarrow>
        if path = [] \<or> path \<in> seen then (clients, seen)
        else
          (case h_output h path [''--version''] of
             Inl e \<Rightarrow> (clients, seen)
           | Inr out \<Rightarrow>
               (case parse_pg_dump_major out of
                  Some major \<Rightarrow> (clients @ [\<lparr>pgc_path = path, pgc_major = major\<rparr>], insert path seen)
                | None \<Rightarrow> (clients, seen))))"

definition discover_pg_dump_clients :: "host \<Rightarrow> pg_client list" where
  "discover_pg_dump_clients h =
     (let st = fold (add_client h) (h_glob h ''/usr/lib/postgresql/*/bin/pg_dump'') ([], {}) in
      case h_look_path h ''pg_dump'' of
        Inr p \<Rightarrow> fst (add_client h p st)
      | Inl e \<Rightarrow> fst st)"

fun select_loop :: "pg_client list \<Rightarrow> int \<Rightarrow> pg_client option \<Rightarrow> goerr + pg_client" where
  "select_loop [] server_major cand =
     (case cand of
        Some c \<Rightarrow> Inr c
      | None \<Rightarrow> Inl (Errorf ''no pg_dump client >= server major %d is available (a newer server needs a newer client)''
                   [itoa server_major] None))"
| "select_loop (c # cs) server_major cand =
     (if pgc_major c = server_major then Inr c
      else if pgc_major c > server_major \<and> (case cand of None \<Rightarrow> True | Some n \<Rightarrow> pgc_major c < pgc_major n)
      then select_loop cs server_major (Some c)
      else select_loop cs server_major cand)"

definition select_pg_dump :: "pg_client list \<Rightarrow> int \<Rightarrow> goerr + pg_client" where
  "select_pg_dump clients server_major = select_loop clients server_major None"

definition check_supported_pg_major :: "int \<Rightarrow> goerr option" where
  "check_supported_pg_major major =
     (if major < min_supported_pg_major \<or> major > max_supported_pg_major
      then Some (Errorf (''PostgreSQL server major %d is outside the supported range %d'' @ en_dash @ ''%d'')
             [itoa major, itoa min_supported_pg_major, itoa max_supported_pg_major] None)
      else None)"

definition pg_dump_version_of :: "host \<Rightarrow> string \<Rightarrow> string" where
  "pg_dump_version_of h binary =
     (case h_output h binary [''--version''] of Inl e \<Rightarrow> ''unknown'' | Inr out \<Rightarrow> trim_space out)"

subsection \<open>Discovery\<close>

text \<open>What the closure keeps: the paths seen are those of the clients, each of which answered with
  its version.\<close>

definition clients_inv :: "host \<Rightarrow> pg_client list \<times> string set \<Rightarrow> bool" where
  "clients_inv h st \<longleftrightarrow>
     (case st of (clients, seen) \<Rightarrow>
        distinct (map pgc_path clients) \<and> seen = pgc_path ` set clients
        \<and> (\<forall>c \<in> set clients. pgc_path c \<noteq> []
             \<and> (\<exists>out. h_output h (pgc_path c) [''--version''] = Inr out \<and> parse_pg_dump_major out = Some (pgc_major c))))"

lemma clients_inv_add: "clients_inv h st \<Longrightarrow> clients_inv h (add_client h path st)"
  by (cases st) (auto simp: clients_inv_def add_client_def split: sum.splits option.splits)

lemma clients_inv_fold: "clients_inv h st \<Longrightarrow> clients_inv h (fold (add_client h) paths st)"
  by (induction paths arbitrary: st) (simp_all add: clients_inv_add)

lemma discovered_inv: "\<exists>seen. clients_inv h (discover_pg_dump_clients h, seen)"
proof -
  have "clients_inv h (fold (add_client h) (h_glob h ''/usr/lib/postgresql/*/bin/pg_dump'') ([], {}))"
    by (rule clients_inv_fold) (simp add: clients_inv_def)
  then show ?thesis
    unfolding discover_pg_dump_clients_def Let_def
    by (cases "h_look_path h ''pg_dump''") (auto intro: clients_inv_add simp: prod.collapse, (metis clients_inv_add prod.collapse)+)
qed

subsection \<open>Selection\<close>

text \<open>The best client for a server: none is better than an exact match or the oldest newer one.\<close>

definition best_client :: "pg_client list \<Rightarrow> int \<Rightarrow> pg_client \<Rightarrow> bool" where
  "best_client clients major c \<longleftrightarrow>
     c \<in> set clients \<and> major \<le> pgc_major c \<and> (\<forall>d \<in> set clients. major \<le> pgc_major d \<longrightarrow> pgc_major c \<le> pgc_major d)"

lemma select_loop_best:
  assumes "case cand of Some n \<Rightarrow> major < pgc_major n | None \<Rightarrow> True"
  shows "(\<forall>c. select_loop clients major cand = Inr c \<longrightarrow>
            best_client (clients @ (case cand of Some n \<Rightarrow> [n] | None \<Rightarrow> [])) major c)
       \<and> ((\<exists>e. select_loop clients major cand = Inl e) \<longleftrightarrow>
            cand = None \<and> (\<forall>c \<in> set clients. pgc_major c < major))"
  using assms
proof (induction clients arbitrary: cand)
  case Nil
  then show ?case by (auto simp: best_client_def split: option.splits)
next
  case (Cons a clients)
  consider (exact) "pgc_major a = major"
    | (better) "major < pgc_major a" "case cand of None \<Rightarrow> True | Some n \<Rightarrow> pgc_major a < pgc_major n"
    | (older) "pgc_major a < major"
    | (worse) n where "cand = Some n" "major < pgc_major a" "pgc_major n \<le> pgc_major a"
    by (cases cand) (auto simp: not_less, linarith+)
  then show ?case
  proof cases
    case exact
    then show ?thesis by (auto simp: best_client_def)
  next
    case better
    then show ?thesis using Cons.IH [of "Some a"] by (auto simp: best_client_def split: option.splits)
  next
    case older
    then show ?thesis using Cons.IH [OF Cons.prems] by (auto simp: best_client_def split: option.splits)
  next
    case worse
    then show ?thesis using Cons.IH [OF Cons.prems] Cons.prems by (auto simp: best_client_def split: option.splits)
  qed
qed

lemma selected_client:
  "select_pg_dump (discover_pg_dump_clients h) major = Inr c \<Longrightarrow>
     best_client (discover_pg_dump_clients h) major c \<and> pgc_path c \<noteq> []
     \<and> (\<exists>out. h_output h (pgc_path c) [''--version''] = Inr out \<and> parse_pg_dump_major out = Some (pgc_major c))"
  "(\<exists>e. select_pg_dump (discover_pg_dump_clients h) major = Inl e) \<longleftrightarrow>
     (\<forall>c \<in> set (discover_pg_dump_clients h). pgc_major c < major)"
proof -
  obtain seen where "clients_inv h (discover_pg_dump_clients h, seen)" using discovered_inv by blast
  then show "select_pg_dump (discover_pg_dump_clients h) major = Inr c \<Longrightarrow>
     best_client (discover_pg_dump_clients h) major c \<and> pgc_path c \<noteq> []
     \<and> (\<exists>out. h_output h (pgc_path c) [''--version''] = Inr out \<and> parse_pg_dump_major out = Some (pgc_major c))"
    "(\<exists>e. select_pg_dump (discover_pg_dump_clients h) major = Inl e) \<longleftrightarrow>
     (\<forall>c \<in> set (discover_pg_dump_clients h). pgc_major c < major)"
    using select_loop_best [where cand = None and major = major and clients = "discover_pg_dump_clients h"]
    by (auto simp: select_pg_dump_def clients_inv_def best_client_def)
qed

subsection \<open>Properties\<close>

text \<open>The client that dumps a server is one the host has, with exactly the server's major
  version if there is such a client and the oldest newer one otherwise, and an older client
  is never used: selection fails exactly if every client is older than the server.\<close>

theorem select_pg_dump_spec:
  "(\<forall>c. select_pg_dump (discover_pg_dump_clients h) major = Inr c \<longrightarrow>
      best_client (discover_pg_dump_clients h) major c
      \<and> (\<exists>out. h_output h (pgc_path c) [''--version''] = Inr out \<and> parse_pg_dump_major out = Some (pgc_major c)))
   \<and> ((\<exists>e. select_pg_dump (discover_pg_dump_clients h) major = Inl e) \<longleftrightarrow>
      (\<forall>c \<in> set (discover_pg_dump_clients h). pgc_major c < major))"
  using selected_client by blast

definition sample_host :: host where
  "sample_host =
     \<lparr>h_output = (\<lambda>p args.
        if p = ''/usr/lib/postgresql/16/bin/pg_dump'' then Inr ''pg_dump (PostgreSQL) 16.4''
        else if p = ''/usr/lib/postgresql/18/bin/pg_dump'' then Inr ''pg_dump (PostgreSQL) 18.0''
        else if p = ''/usr/bin/pg_dump'' then Inr ''pg_dump (PostgreSQL) 17.2 (Debian 17.2-1)''
        else if p = ''mysqldump'' then Inr ''mysqldump  Ver 8.0.40''
        else Inl (Foreign ''no such file'')),
      h_glob = (\<lambda>pat. [''/usr/lib/postgresql/16/bin/pg_dump'', ''/usr/lib/postgresql/18/bin/pg_dump'']),
      h_look_path = (\<lambda>p. if p = ''pg_dump'' then Inr ''/usr/bin/pg_dump'' else Inl (Foreign ''not found'')),
      h_environ = [''HOME=/root'']\<rparr>"

lemma sample_clients:
  "map pgc_major (discover_pg_dump_clients sample_host) = [16, 18, 17]"
  by code_simp

theorem select_pg_dump_spec_witness:
  "\<exists>c. select_pg_dump (discover_pg_dump_clients sample_host) 17 = Inr c
     \<and> best_client (discover_pg_dump_clients sample_host) 17 c"
proof -
  have "\<not> (\<forall>c \<in> set (discover_pg_dump_clients sample_host). pgc_major c < 17)" by code_simp
  then show ?thesis using select_pg_dump_spec [of sample_host 17] by (metis sum.exhaust)
qed

end
