(* ===== verification/Grants.thy ===== *)
theory Grants
  imports Driver
begin

section \<open>Does a MySQL role see stored routines?\<close>

text \<open>
  \<open>hasRoutineGrant\<close> of \<open>pipeline/mysql.go\<close> reads the rows of \<open>SHOW GRANTS\<close>. The lemmas compare
  it with the meaning of the rows: a row is rendered from a structured grant, whose names are
  quoted by the server and may hold anything, and what the text reader concludes is what the
  structure says. So no role, schema or user name can be chosen to fake a privilege.
\<close>

definition grant_privileges :: "string \<Rightarrow> string \<Rightarrow> string option" where
  "grant_privileges row keyword =
     (if \<not> has_prefix row keyword then None
      else case cut '' ON '' (trim_prefix row keyword) of
             None \<Rightarrow> None
           | Some (privs, _) \<Rightarrow>
               if contains_any privs [CHR 0x60, CHR 0x27, CHR 0x22] then None else Some privs)"

definition priv_list_has :: "string \<Rightarrow> string \<Rightarrow> bool" where
  "priv_list_has privs want \<longleftrightarrow> list_ex (\<lambda>p. trim_space p = want) (split_on CHR '','' privs)"

text \<open>The first loop: does a row revoke a part of what a global grant gives?\<close>

definition select_restricted :: "string list \<Rightarrow> bool" where
  "select_restricted grants \<longleftrightarrow>
     list_ex (\<lambda>g. case grant_privileges (to_upper (trim_space g)) ''REVOKE '' of
                    None \<Rightarrow> False
                  | Some privs \<Rightarrow> priv_list_has privs ''SELECT'' \<or> priv_list_has privs ''ALL PRIVILEGES'') grants"

text \<open>One row of the second loop.\<close>

definition grant_target :: "string \<Rightarrow> string" where
  "grant_target up = trim_space (case cut '' ON '' up of None \<Rightarrow> [] | Some (_, target) \<Rightarrow> target)"

definition global_target :: "string \<Rightarrow> bool" where
  "global_target target \<longleftrightarrow> has_prefix target ''*.* TO ''"

definition proc_target :: "string \<Rightarrow> bool" where
  "proc_target target \<longleftrightarrow>
     has_prefix target ''`MYSQL`.`PROC` TO '' \<or> has_prefix target ''MYSQL.PROC TO ''
     \<or> has_prefix target ''`MYSQL`.* TO '' \<or> has_prefix target ''MYSQL.* TO ''"

definition grant_row_proves :: "bool \<Rightarrow> string \<Rightarrow> bool" where
  "grant_row_proves restricted g =
     (let up = to_upper (trim_space g) in
      case grant_privileges up ''GRANT '' of
        None \<Rightarrow> False
      | Some privs \<Rightarrow>
          (let target = grant_target up in
           (global_target target \<and> priv_list_has privs ''SHOW_ROUTINE'')
           \<or> (global_target target \<and> \<not> restricted
              \<and> (priv_list_has privs ''ALL PRIVILEGES'' \<or> priv_list_has privs ''SELECT''))
           \<or> (proc_target target \<and> \<not> restricted \<and> priv_list_has privs ''SELECT'')))"

definition has_routine_grant :: "string list \<Rightarrow> bool" where
  "has_routine_grant grants \<longleftrightarrow> list_ex (grant_row_proves (select_restricted grants)) grants"

subsection \<open>What the rows mean\<close>

text \<open>A row as the server has it: privileges on a target, a role assignment, or a partial revoke.
  A grantee is a user, a host and whether the grant can be passed on. Names are
  quoted with backquotes, a backquote inside a name is doubled; what a name is made of
  is not restricted.\<close>

datatype target = Global | OnSchema string | OnTable string string

type_synonym grantee = "string \<times> string \<times> bool"

datatype grant =
    GrantPrivs "string list" target grantee
  | GrantRole string grantee
  | RevokePrivs "string list" target grantee

definition backquoted :: "string \<Rightarrow> string" where
  "backquoted n = ''`'' @ replace_char CHR ''`'' ''``'' n @ ''`''"

definition show_target :: "target \<Rightarrow> string" where
  "show_target t =
     (case t of Global \<Rightarrow> ''*.*'' | OnSchema s \<Rightarrow> backquoted s @ ''.*'' | OnTable s n \<Rightarrow> backquoted s @ ''.'' @ backquoted n)"

definition show_privs :: "string list \<Rightarrow> string" where
  "show_privs ps = join_with '', '' ps"

definition show_grantee :: "grantee \<Rightarrow> string" where
  "show_grantee who =
     (case who of (user, host, grantable) \<Rightarrow>
        backquoted user @ ''@'' @ backquoted host @ (if grantable then '' WITH GRANT OPTION'' else []))"

fun show_grant :: "grant \<Rightarrow> string" where
  "show_grant (GrantPrivs ps t who) = ''GRANT '' @ show_privs ps @ '' ON '' @ show_target t @ '' TO '' @ show_grantee who"
| "show_grant (GrantRole role who) = ''GRANT '' @ backquoted role @ '' TO '' @ show_grantee who"
| "show_grant (RevokePrivs ps t who) = ''REVOKE '' @ show_privs ps @ '' ON '' @ show_target t @ '' FROM '' @ show_grantee who"

text \<open>The names of privileges: upper-case words with single blanks between, none of them \<open>ON\<close>.\<close>

definition privilege_char :: "char \<Rightarrow> bool" where
  "privilege_char c \<longleftrightarrow> (CHR ''A'' \<le> c \<and> c \<le> CHR ''Z'') \<or> c = CHR ''_'' \<or> c = CHR '' ''"

definition privilege_name :: "string \<Rightarrow> bool" where
  "privilege_name p \<longleftrightarrow> p \<noteq> [] \<and> list_all privilege_char p \<and> hd p \<noteq> CHR '' '' \<and> last p \<noteq> CHR '' ''
     \<and> \<not> contains ('' '' @ p @ '' '') '' ON ''"

fun wf_grant :: "grant \<Rightarrow> bool" where
  "wf_grant (GrantPrivs ps t who) = (ps \<noteq> [] \<and> list_all privilege_name ps)"
| "wf_grant (GrantRole role who) = True"
| "wf_grant (RevokePrivs ps t who) = (ps \<noteq> [] \<and> list_all privilege_name ps)"

text \<open>What a set of grants gives, without texts: the schema of the server's own tables is \<open>mysql\<close>.\<close>

definition revokes_read :: "grant \<Rightarrow> bool" where
  "revokes_read g = (case g of RevokePrivs ps t who \<Rightarrow> ''SELECT'' \<in> set ps \<or> ''ALL PRIVILEGES'' \<in> set ps | _ \<Rightarrow> False)"

definition names_proc :: "target \<Rightarrow> bool" where
  "names_proc t = (case t of Global \<Rightarrow> False | OnSchema s \<Rightarrow> s = ''mysql'' | OnTable s n \<Rightarrow> s = ''mysql'' \<and> n = ''proc'')"

definition grant_shows_routines :: "bool \<Rightarrow> grant \<Rightarrow> bool" where
  "grant_shows_routines restricted g =
     (case g of
        GrantPrivs ps t who \<Rightarrow>
          t = Global \<and> (''SHOW_ROUTINE'' \<in> set ps \<or> \<not> restricted \<and> (''ALL PRIVILEGES'' \<in> set ps \<or> ''SELECT'' \<in> set ps))
          \<or> names_proc t \<and> \<not> restricted \<and> ''SELECT'' \<in> set ps
      | _ \<Rightarrow> False)"

definition routines_visible :: "grant list \<Rightarrow> bool" where
  "routines_visible gs \<longleftrightarrow> list_ex (grant_shows_routines (list_ex revokes_read gs)) gs"

text \<open>No name of a target differs from \<open>mysql\<close> or \<open>proc\<close> by case only.\<close>

definition cased_target :: "target \<Rightarrow> bool" where
  "cased_target t \<longleftrightarrow>
     (case t of Global \<Rightarrow> True | OnSchema s \<Rightarrow> to_upper s = ''MYSQL'' \<longrightarrow> s = ''mysql''
      | OnTable s n \<Rightarrow> to_upper s = ''MYSQL'' \<and> to_upper n = ''PROC'' \<longrightarrow> s = ''mysql'' \<and> n = ''proc'')"

definition cased_grant :: "grant \<Rightarrow> bool" where
  "cased_grant g = (case g of GrantPrivs ps t who \<Rightarrow> cased_target t | _ \<Rightarrow> True)"

subsection \<open>Cutting at the keyword\<close>

lemma append_mid_left:
  assumes "a @ t = x @ z # v" "z \<notin> set t"
  shows "\<exists>r. a = x @ z # r"
proof -
  obtain us where "a = x @ us \<and> us @ t = z # v \<or> a @ us = x \<and> t = us @ z # v"
    using assms(1) by (auto simp: append_eq_append_conv2)
  then show ?thesis using assms(2) by (cases us) auto
qed

lemma append_mid_right:
  assumes "t @ a = x @ z # v" "z \<notin> set t"
  shows "\<exists>r. x = t @ r \<and> a = r @ z # v"
proof -
  obtain us where "t = x @ us \<and> us @ a = z # v \<or> t @ us = x \<and> a = us @ z # v"
    using assms(1) by (auto simp: append_eq_append_conv2)
  then show ?thesis using assms(2) by (cases us) auto
qed

lemma contains_append_tail:
  assumes "contains (a @ t) w" "w \<noteq> []" "last w \<notin> set t"
  shows "contains a w"
proof -
  obtain u v where uv: "a @ t = u @ w @ v" using assms(1) contains_iff by blast
  obtain w' z where w: "w = w' @ [z]" "z \<notin> set t" using assms(2,3) by (metis append_butlast_last_id)
  from uv w have "a @ t = (u @ w') @ z # v" by simp
  then obtain r where "a = (u @ w') @ z # r" using append_mid_left [OF _ w(2)] by blast
  then have "a = u @ w @ r" using w(1) by simp
  then show ?thesis unfolding contains_iff by blast
qed

lemma contains_append_head:
  assumes "contains (t @ a) w" "w \<noteq> []" "hd w \<notin> set t"
  shows "contains a w"
proof -
  obtain u v where uv: "t @ a = u @ w @ v" using assms(1) contains_iff by blast
  obtain z w' where w: "w = z # w'" using assms(2) by (cases w) auto
  then have "t @ a = u @ z # w' @ v" "z \<notin> set t" using uv assms(3) by simp_all
  then obtain r where "a = r @ z # w' @ v" using append_mid_right [of t a u z "w' @ v"] by blast
  then have "a = r @ w @ v" using w by simp
  then show ?thesis unfolding contains_iff by blast
qed

lemma contains_sep:
  assumes "contains (a @ c # b) w" "c \<notin> set w" "w \<noteq> []"
  shows "contains a w \<or> contains b w"
proof -
  obtain u v where uv: "a @ c # b = u @ w @ v" using assms(1) contains_iff by blast
  show ?thesis
  proof (cases "length a < length u + length w")
    case True
    show ?thesis
    proof (cases "length u \<le> length a")
      case le: True
      have "(u @ w @ v) ! length a = c" using uv by (metis nth_append_length)
      then have "w ! (length a - length u) = c" using le True by (simp add: nth_append split: if_splits)
      then show ?thesis using assms(2) le True nth_mem [of "length a - length u" w] by auto
    next
      case False
      then have "drop (Suc (length a)) (a @ c # b) = drop (Suc (length a)) u @ w @ v" using uv by simp
      then show ?thesis unfolding contains_iff by auto
    qed
  next
    case False
    then have "take (length a) (a @ c # b) = u @ w @ take (length a - length u - length w) v" using uv by simp
    then show ?thesis unfolding contains_iff by auto
  qed
qed

lemma cut_at_first:
  assumes "\<not> contains (xs @ butlast sep) sep" "sep \<noteq> []"
  shows "cut sep (xs @ sep @ r) = Some (xs, r)"
  using assms(1)
proof (induction xs)
  case Nil
  then show ?case by (simp add: cut.simps)
next
  case (Cons c xs)
  have "\<not> has_prefix (c # xs @ sep @ r) sep"
  proof
    assume "has_prefix (c # xs @ sep @ r) sep"
    then have "take (length sep) (c # xs @ sep @ r) = sep" by (auto elim: has_prefixE)
    moreover have "take (length sep) (c # xs @ sep @ r) = take (length sep) (c # xs @ butlast sep)"
      using assms(2) by (cases sep rule: rev_cases) auto
    ultimately have "has_prefix (c # xs @ butlast sep) sep" by (metis has_prefix_def take_is_prefix)
    then show False using Cons.prems by simp
  qed
  moreover have "cut sep (xs @ sep @ r) = Some (xs, r)" using Cons by simp
  ultimately show ?case by (simp add: cut.simps [of sep "c # xs @ sep @ r"])
qed

subsection \<open>Upper case\<close>

lemma to_upper_append:
  "b = [] \<or> hd b \<notin> {CHR 0xBF, CHR 0xB1} \<Longrightarrow> to_upper (a @ b) = to_upper a @ to_upper b"
proof (induction a rule: to_upper.induct)
  case (2 c s)
  then show ?case by (cases s; cases b) auto
qed simp

lemma to_upper_fixed:
  "list_all (\<lambda>c. upper_char c = c \<and> c \<noteq> CHR 0xC5 \<and> c \<noteq> CHR 0xC4) s \<Longrightarrow> to_upper s = s"
  by (induction s) auto

lemma upper_char_privilege: "privilege_char c \<Longrightarrow> upper_char c = c \<and> c \<noteq> CHR 0xC5 \<and> c \<noteq> CHR 0xC4"
  by (auto simp: privilege_char_def upper_char_def less_eq_char_def)

lemma upper_char_backquote: "upper_char c = CHR ''`'' \<longleftrightarrow> c = CHR ''`''"
proof -
  have "upper_char c \<noteq> CHR ''`''" if "CHR ''a'' \<le> c" "c \<le> CHR ''z''"
  proof
    assume "upper_char c = CHR ''`''"
    then have "(of_char (upper_char c) :: nat) = 96" by simp
    moreover have "(of_char c :: nat) \<le> 122" "97 \<le> (of_char c :: nat)" using that by (simp_all add: less_eq_char_def)
    ultimately show False using that by (simp add: upper_char_def)
  qed
  then show ?thesis by (auto simp: upper_char_def)
qed

lemma replace_char_Cons: "replace_char c new (x # s) = (if x = c then new else [x]) @ replace_char c new s"
  by (simp add: replace_char_def)

lemma replace_char_Nil [simp]: "replace_char c new [] = []"
  by (simp add: replace_char_def)

lemma prefix_doubled:
  "x \<noteq> CHR ''`'' \<Longrightarrow> has_prefix (replace_char CHR ''`'' ''``'' s) [x] = has_prefix s [x]"
  by (cases s) (auto simp: replace_char_Cons)

lemma to_upper_doubled:
  "to_upper (replace_char CHR ''`'' ''``'' n) = replace_char CHR ''`'' ''``'' (to_upper n)"
proof (induction n rule: to_upper.induct)
  case (2 c s)
  have bq: "upper_char CHR ''`'' = CHR ''`''" by (simp add: upper_char_backquote)
  show ?case
  proof (cases "c = CHR ''`''")
    case True
    then show ?thesis using "2.IH"(3) by (simp add: replace_char_Cons bq)
  next
    case False
    consider (s) s' where "c = CHR 0xC5" "s = CHR 0xBF # s'" | (i) s' where "c = CHR 0xC4" "s = CHR 0xB1 # s'"
      | (plain) "\<not> has_prefix (c # s) [CHR 0xC5, CHR 0xBF]" "\<not> has_prefix (c # s) [CHR 0xC4, CHR 0xB1]"
      by (cases s) auto
    then show ?thesis
    proof cases
      case s
      then show ?thesis using "2.IH"(1) by (simp add: replace_char_Cons)
    next
      case i
      then show ?thesis using "2.IH"(2) by (simp add: replace_char_Cons)
    next
      case plain
      then have "\<not> has_prefix (c # replace_char CHR ''`'' ''``'' s) [CHR 0xC5, CHR 0xBF]"
        "\<not> has_prefix (c # replace_char CHR ''`'' ''``'' s) [CHR 0xC4, CHR 0xB1]"
        using prefix_doubled by simp_all
      then show ?thesis
        using "2.IH"(3) plain False by (simp add: replace_char_Cons upper_char_backquote del: has_prefix_Cons)
    qed
  qed
qed simp

lemma to_upper_backquoted: "to_upper (backquoted n) = backquoted (to_upper n)"
proof -
  have "to_upper (''`'' @ replace_char CHR ''`'' ''``'' n @ ''`'') = ''`'' @ to_upper (replace_char CHR ''`'' ''``'' n) @ ''`''"
    using to_upper_append [of "''`''" "replace_char CHR ''`'' ''``'' n"]
    by (simp add: to_upper_append upper_char_def less_eq_char_def)
  then show ?thesis by (simp only: backquoted_def to_upper_doubled)
qed

subsection \<open>Reading a rendered row\<close>

lemma no_keyword:
  assumes "ps \<noteq> []" "list_all privilege_name ps"
  shows "\<not> contains ('' '' @ show_privs ps @ '' ON'') '' ON ''"
  using assms
proof (induction ps rule: list_nonempty_induct)
  case (single p)
  have "contains ('' '' @ p @ '' '') '' ON ''" if "contains (('' '' @ p @ '' '') @ ''ON'') '' ON ''"
    by (rule contains_append_tail [OF that]) simp_all
  then show ?case using single by (auto simp: show_privs_def privilege_name_def)
next
  case (cons p ps)
  have split: "'' '' @ show_privs (p # ps) @ '' ON'' = ('' '' @ p) @ CHR '','' # ('' '' @ show_privs ps @ '' ON'')"
    using cons.hyps by (simp add: show_privs_def join_with_Cons)
  show ?case
  proof
    assume "contains ('' '' @ show_privs (p # ps) @ '' ON'') '' ON ''"
    then consider "contains ('' '' @ p) '' ON ''" | "contains ('' '' @ show_privs ps @ '' ON'') '' ON ''"
      using contains_sep [of "'' '' @ p" "CHR '',''" _ "'' ON ''"] unfolding split by fastforce
    then show False
    proof cases
      case 1
      then have "contains (('' '' @ p) @ '' '') '' ON ''" unfolding contains_iff by (metis append_assoc)
      then show ?thesis using cons.prems by (simp add: privilege_name_def)
    next
      case 2
      then show ?thesis using cons by simp
    qed
  qed
qed

lemma cut_keyword:
  assumes "ps \<noteq> []" "list_all privilege_name ps" "CHR '' '' \<notin> set word"
  shows "cut '' ON '' (show_privs ps @ '' ON '' @ rest) = Some (show_privs ps, rest)"
    and "cut '' ON '' ((word @ '' '' @ show_privs ps) @ '' ON '' @ rest) = Some (word @ '' '' @ show_privs ps, rest)"
proof -
  have no: "\<not> contains ('' '' @ show_privs ps @ '' ON'') '' ON ''" by (rule no_keyword [OF assms(1,2)])
  then have "\<not> contains (show_privs ps @ butlast '' ON '') '' ON ''" by simp
  then show "cut '' ON '' (show_privs ps @ '' ON '' @ rest) = Some (show_privs ps, rest)"
    by (rule cut_at_first) simp
  have "\<not> contains ((word @ '' '' @ show_privs ps) @ butlast '' ON '') '' ON ''"
    using no contains_append_head [of word "'' '' @ show_privs ps @ '' ON''" "'' ON ''"] assms(3) by auto
  then show "cut '' ON '' ((word @ '' '' @ show_privs ps) @ '' ON '' @ rest) = Some (word @ '' '' @ show_privs ps, rest)"
    by (rule cut_at_first) simp
qed

lemma privs_chars:
  "list_all privilege_name ps \<Longrightarrow> list_all (\<lambda>c. privilege_char c \<or> c = CHR '','' \<or> c = CHR '' '') (show_privs ps)"
proof (induction ps)
  case (Cons p ps)
  then show ?case
    by (cases "ps = []") (auto simp: show_privs_def join_with_Cons privilege_name_def list_all_iff)
qed (simp add: show_privs_def)

lemma to_upper_privs:
  assumes "list_all privilege_name ps"
  shows "to_upper (show_privs ps) = show_privs ps"
proof (rule to_upper_fixed)
  have "upper_char CHR '','' = CHR '',''" "upper_char CHR '' '' = CHR '' ''"
    by (simp_all add: upper_char_def less_eq_char_def)
  then show "list_all (\<lambda>c. upper_char c = c \<and> c \<noteq> CHR 0xC5 \<and> c \<noteq> CHR 0xC4) (show_privs ps)"
    using privs_chars [OF assms] upper_char_privilege by (auto simp: list_all_iff)
qed

lemma privs_no_quote: "list_all privilege_name ps \<Longrightarrow> \<not> contains_any (show_privs ps) [CHR 0x60, CHR 0x27, CHR 0x22]"
  using privs_chars by (fastforce simp: contains_any_def list_ex_iff list_all_iff privilege_char_def less_eq_char_def)

lemma trim_blank: "trim_space (CHR '' '' # s) = trim_space s"
  by (simp add: trim_space_def trim_of_def trim_left_of_def white_def)

lemma trim_privilege: "privilege_name p \<Longrightarrow> trim_space p = p"
proof (rule trim_space_id)
  assume p: "privilege_name p"
  then have "privilege_char (hd p)" "privilege_char (last p)"
    using hd_in_set last_in_set by (fastforce simp: privilege_name_def list_all_iff)+
  then show "hd p \<notin> white" "last p \<notin> white"
    using p by (auto simp: privilege_name_def privilege_char_def white_def less_eq_char_def)
qed

lemma priv_list_has_show:
  assumes "ps \<noteq> []" "list_all privilege_name ps"
  shows "priv_list_has (show_privs ps) w \<longleftrightarrow> w \<in> set ps"
  using assms
proof (induction ps rule: list_nonempty_induct)
  case (single p)
  have "CHR '','' \<notin> set p"
    using single by (auto simp: privilege_name_def list_all_iff privilege_char_def less_eq_char_def)
  then show ?case using single trim_privilege by (auto simp: priv_list_has_def show_privs_def split_on_word)
next
  case (cons p ps)
  have "CHR '','' \<notin> set p"
    using cons by (auto simp: privilege_name_def list_all_iff privilege_char_def less_eq_char_def)
  moreover have "list_ex (\<lambda>p. trim_space p = w) (split_on CHR '','' (CHR '' '' # s))
      = list_ex (\<lambda>p. trim_space p = w) (split_on CHR '','' s)" for s
    using split_on_nonempty [of "CHR '',''" s] by (auto simp: trim_blank split: list.splits)
  ultimately show ?case
    using cons trim_privilege
    by (auto simp: priv_list_has_def show_privs_def join_with_Cons split_on_append_sep split_on_word)
qed

text \<open>The target, in upper case and after the privileges.\<close>

definition upper_target :: "target \<Rightarrow> string" where
  "upper_target t = (case t of Global \<Rightarrow> ''*.*'' | OnSchema s \<Rightarrow> backquoted (to_upper s) @ ''.*''
     | OnTable s n \<Rightarrow> backquoted (to_upper s) @ ''.'' @ backquoted (to_upper n))"

definition upper_grantee :: "grantee \<Rightarrow> string" where
  "upper_grantee who =
     (case who of (user, host, grantable) \<Rightarrow>
        backquoted (to_upper user) @ ''@'' @ backquoted (to_upper host) @ (if grantable then '' WITH GRANT OPTION'' else []))"

lemma hd_backquoted: "backquoted n = CHR ''`'' # replace_char CHR ''`'' ''``'' n @ ''`''"
  by (simp add: backquoted_def)

lemma upper_words:
  "to_upper ''GRANT '' = ''GRANT ''" "to_upper ''REVOKE '' = ''REVOKE ''" "to_upper '' ON '' = '' ON ''"
  "to_upper '' TO '' = '' TO ''" "to_upper '' FROM '' = '' FROM ''" "to_upper '' WITH GRANT OPTION'' = '' WITH GRANT OPTION''"
  by code_simp+

lemma to_upper_target: "to_upper (show_target t) = upper_target t"
  by (cases t) (simp_all add: show_target_def upper_target_def to_upper_append to_upper_backquoted upper_char_def less_eq_char_def)

lemma to_upper_grantee: "to_upper (show_grantee who) = upper_grantee who"
  by (cases who) (auto simp: show_grantee_def upper_grantee_def to_upper_append to_upper_backquoted upper_char_def less_eq_char_def)

lemma grantee_head: "hd (show_grantee who) = CHR ''`''" "show_grantee who \<noteq> []"
  by (cases who; simp add: show_grantee_def hd_backquoted)+

lemma target_head: "hd (show_target t) \<in> {CHR ''*'', CHR ''`''}" "show_target t \<noteq> []"
  by (cases t; simp add: show_target_def hd_backquoted)+

lemma grantee_last: "last (x @ show_grantee who) \<notin> white" "last (x @ upper_grantee who) \<notin> white"
  by (cases who; simp add: show_grantee_def upper_grantee_def backquoted_def white_def)+

lemma upper_row:
  assumes "list_all privilege_name ps" "to_upper word = word" "to_upper to = to" "to \<noteq> []"
    "hd to \<notin> {CHR 0xBF, CHR 0xB1}" "word \<noteq> []" "hd word \<notin> white" "ps \<noteq> []"
  shows "to_upper (trim_space (word @ show_privs ps @ '' ON '' @ show_target t @ to @ show_grantee who))
    = word @ show_privs ps @ '' ON '' @ upper_target t @ to @ upper_grantee who"
proof -
  have trim: "trim_space (word @ show_privs ps @ '' ON '' @ show_target t @ to @ show_grantee who)
    = word @ show_privs ps @ '' ON '' @ show_target t @ to @ show_grantee who"
  proof (rule trim_space_id)
    show "hd (word @ show_privs ps @ '' ON '' @ show_target t @ to @ show_grantee who) \<notin> white" using assms(6,7) by simp
    have "word @ show_privs ps @ '' ON '' @ show_target t @ to @ show_grantee who
      = (word @ show_privs ps @ '' ON '' @ show_target t @ to) @ show_grantee who" by simp
    then show "last (word @ show_privs ps @ '' ON '' @ show_target t @ to @ show_grantee who) \<notin> white"
      using grantee_last(1) by metis
  qed
  have "privilege_char (hd (show_privs ps))" if "show_privs ps \<noteq> []"
    using assms(1,8) that
    by (cases ps; cases "tl ps") (auto simp: show_privs_def privilege_name_def list_all_iff hd_append)
  then have privs: "show_privs ps = [] \<or> hd (show_privs ps) \<notin> {CHR 0xBF, CHR 0xB1}"
    by (auto simp: privilege_char_def less_eq_char_def)
  let ?who = "to @ show_grantee who"
  have 1: "to_upper ?who = to @ upper_grantee who"
    using to_upper_append [of "show_grantee who" to] grantee_head [of who] assms(3) by (simp add: to_upper_grantee)
  have 2: "to_upper (show_target t @ ?who) = upper_target t @ to @ upper_grantee who"
    using to_upper_append [of ?who "show_target t"] assms(4,5) 1 by (simp add: to_upper_target)
  have 3: "to_upper ('' ON '' @ show_target t @ ?who) = '' ON '' @ upper_target t @ to @ upper_grantee who"
    using to_upper_append [of "show_target t @ ?who" "'' ON ''"] target_head [of t] 2 upper_words(3) by (auto simp: hd_append)
  have 4: "to_upper (show_privs ps @ '' ON '' @ show_target t @ ?who)
      = show_privs ps @ '' ON '' @ upper_target t @ to @ upper_grantee who"
    using to_upper_append [of "'' ON '' @ show_target t @ ?who" "show_privs ps"] 3 to_upper_privs [OF assms(1)] by simp
  have "to_upper (word @ show_privs ps @ '' ON '' @ show_target t @ ?who)
      = to_upper word @ to_upper (show_privs ps @ '' ON '' @ show_target t @ ?who)"
    by (rule to_upper_append) (use privs in \<open>auto simp: hd_append\<close>)
  then show ?thesis using 4 assms(2) trim by simp
qed

lemma row_privileges:
  assumes "ps \<noteq> []" "list_all privilege_name ps"
  shows "grant_privileges (keyword @ show_privs ps @ '' ON '' @ rest) keyword = Some (show_privs ps)"
  using cut_keyword(1) [OF assms, of "[]" rest] privs_no_quote [OF assms(2)] by (simp add: grant_privileges_def)

lemma role_privileges: "grant_privileges (keyword @ backquoted r @ s) keyword = None"
proof -
  have "contains_any privs [CHR 0x60, CHR 0x27, CHR 0x22]" if "cut '' ON '' (backquoted r @ s) = Some (privs, t)" for privs t
  proof -
    have "backquoted r @ s = privs @ '' ON '' @ t" by (rule cut_Some_append [OF that])
    then show ?thesis by (cases privs) (simp_all add: hd_backquoted contains_any_def)
  qed
  then show ?thesis by (auto simp: grant_privileges_def split: option.splits)
qed

lemma other_keyword:
  "grant_privileges (''GRANT '' @ s) ''REVOKE '' = None" "grant_privileges (''REVOKE '' @ s) ''GRANT '' = None"
  by (simp_all add: grant_privileges_def)

lemma row_target:
  assumes "ps \<noteq> []" "list_all privilege_name ps"
  shows "grant_target (''GRANT '' @ show_privs ps @ '' ON '' @ upper_target t @ '' TO '' @ upper_grantee who)
    = upper_target t @ '' TO '' @ upper_grantee who"
proof -
  have "trim_space (upper_target t @ '' TO '' @ upper_grantee who) = upper_target t @ '' TO '' @ upper_grantee who"
  proof (rule trim_space_id)
    show "hd (upper_target t @ '' TO '' @ upper_grantee who) \<notin> white"
      by (cases t) (simp_all add: upper_target_def hd_backquoted white_def)
    show "last (upper_target t @ '' TO '' @ upper_grantee who) \<notin> white"
      using grantee_last(2) [of "upper_target t @ '' TO ''" who] by simp
  qed
  then show ?thesis
    using cut_keyword(2) [OF assms, of "''GRANT''" "upper_target t @ '' TO '' @ upper_grantee who"]
    by (simp add: grant_target_def)
qed

text \<open>A quoted name is the beginning of a pattern only if it is the name in the pattern.\<close>

lemma prefix_backquoted:
  assumes "CHR ''`'' \<notin> set q" "c \<noteq> CHR ''`''" "has_prefix x [CHR ''`''] = False"
  shows "has_prefix (replace_char CHR ''`'' ''``'' n @ CHR ''`'' # x) (q @ CHR ''`'' # c # y)
    \<longleftrightarrow> n = q \<and> has_prefix x (c # y)"
  using assms(1)
proof (induction q arbitrary: n)
  case Nil
  then show ?case using assms(2) by (cases n) (auto simp: replace_char_Cons)
next
  case (Cons d q)
  then show ?case by (cases n) (auto simp: replace_char_Cons)
qed

lemma target_global: "global_target (upper_target t @ '' TO '' @ s) \<longleftrightarrow> t = Global"
  by (cases t) (auto simp: global_target_def upper_target_def hd_backquoted)

lemma target_proc:
  "proc_target (upper_target t @ '' TO '' @ s) \<longleftrightarrow>
     (case t of Global \<Rightarrow> False | OnSchema s \<Rightarrow> to_upper s = ''MYSQL''
      | OnTable s n \<Rightarrow> to_upper s = ''MYSQL'' \<and> to_upper n = ''PROC'')"
proof (cases t)
  case Global
  then show ?thesis by (simp add: proc_target_def upper_target_def)
next
  case (OnSchema a)
  then show ?thesis
    using prefix_backquoted [of "''MYSQL''" "CHR ''.''" "''.* TO '' @ s" "to_upper a" "''* TO ''"]
      prefix_backquoted [of "''MYSQL''" "CHR ''.''" "''.* TO '' @ s" "to_upper a" "''`PROC` TO ''"]
    by (simp add: proc_target_def upper_target_def hd_backquoted)
next
  case (OnTable a n)
  then show ?thesis
    using prefix_backquoted [of "''MYSQL''" "CHR ''.''" "''.'' @ backquoted (to_upper n) @ '' TO '' @ s" "to_upper a" "''* TO ''"]
      prefix_backquoted [of "''MYSQL''" "CHR ''.''" "''.'' @ backquoted (to_upper n) @ '' TO '' @ s" "to_upper a" "''`PROC` TO ''"]
      prefix_backquoted [of "''PROC''" "CHR '' ''" "'' TO '' @ s" "to_upper n" "''TO ''"]
    by (simp add: proc_target_def upper_target_def hd_backquoted)
qed

lemma proc_target_named:
  "cased_target t \<Longrightarrow> proc_target (upper_target t @ '' TO '' @ s) \<longleftrightarrow> names_proc t"
proof -
  have "to_upper ''mysql'' = ''MYSQL''" "to_upper ''proc'' = ''PROC''" by code_simp+
  then show "cased_target t \<Longrightarrow> proc_target (upper_target t @ '' TO '' @ s) \<longleftrightarrow> names_proc t"
    unfolding target_proc by (cases t) (auto simp: cased_target_def names_proc_def)
qed

lemma upper_role_row: "to_upper (trim_space (show_grant (GrantRole role who)))
    = ''GRANT '' @ backquoted (to_upper role) @ '' TO '' @ upper_grantee who"
proof -
  have "trim_space (''GRANT '' @ backquoted role @ '' TO '' @ show_grantee who) = ''GRANT '' @ backquoted role @ '' TO '' @ show_grantee who"
    using grantee_last(1) [of "''GRANT '' @ backquoted role @ '' TO ''" who] by (intro trim_space_id) (simp_all add: white_def)
  moreover have "to_upper ('' TO '' @ show_grantee who) = '' TO '' @ upper_grantee who"
    using to_upper_append [of "show_grantee who" "'' TO ''"] grantee_head [of who] upper_words(4) by (simp add: to_upper_grantee)
  moreover have "to_upper (backquoted role @ '' TO '' @ show_grantee who)
      = backquoted (to_upper role) @ to_upper ('' TO '' @ show_grantee who)"
    using to_upper_append [of "'' TO '' @ show_grantee who" "backquoted role"] by (simp add: to_upper_backquoted)
  moreover have "to_upper (''GRANT '' @ backquoted role @ '' TO '' @ show_grantee who)
      = ''GRANT '' @ to_upper (backquoted role @ '' TO '' @ show_grantee who)"
    using to_upper_append [of "backquoted role @ '' TO '' @ show_grantee who" "''GRANT ''"] upper_words(1) by (simp add: hd_backquoted)
  ultimately show ?thesis by (simp only: show_grant.simps)
qed

lemma revoke_row:
  assumes "wf_grant g"
  shows "(case grant_privileges (to_upper (trim_space (show_grant g))) ''REVOKE '' of
      None \<Rightarrow> False | Some privs \<Rightarrow> priv_list_has privs ''SELECT'' \<or> priv_list_has privs ''ALL PRIVILEGES'')
    \<longleftrightarrow> revokes_read g"
proof (cases g)
  case (GrantPrivs ps t who)
  then have "to_upper (trim_space (show_grant g)) = ''GRANT '' @ show_privs ps @ '' ON '' @ upper_target t @ '' TO '' @ upper_grantee who"
    using assms upper_row [of ps "''GRANT ''" "'' TO ''" t who] upper_words by (simp add: white_def)
  then have "grant_privileges (to_upper (trim_space (show_grant g))) ''REVOKE '' = None"
    by (simp only: other_keyword)
  then show ?thesis using GrantPrivs by (simp add: revokes_read_def)
next
  case (GrantRole role who)
  have "grant_privileges (to_upper (trim_space (show_grant g))) ''REVOKE '' = None"
    using other_keyword(1) unfolding GrantRole upper_role_row .
  then show ?thesis using GrantRole by (simp add: revokes_read_def)
next
  case (RevokePrivs ps t who)
  then have ps: "ps \<noteq> []" "list_all privilege_name ps" using assms by simp_all
  have "to_upper (trim_space (show_grant g)) = ''REVOKE '' @ show_privs ps @ '' ON '' @ upper_target t @ '' FROM '' @ upper_grantee who"
    using RevokePrivs ps upper_row [of ps "''REVOKE ''" "'' FROM ''" t who] upper_words by (simp add: white_def)
  then have "grant_privileges (to_upper (trim_space (show_grant g))) ''REVOKE '' = Some (show_privs ps)"
    using row_privileges [OF ps] by (simp only:)
  then show ?thesis using RevokePrivs ps by (simp add: revokes_read_def priv_list_has_show)
qed

lemma grant_row:
  assumes "wf_grant g" "cased_grant g"
  shows "grant_row_proves restricted (show_grant g) \<longleftrightarrow> grant_shows_routines restricted g"
proof (cases g)
  case (GrantPrivs ps t who)
  let ?up = "''GRANT '' @ show_privs ps @ '' ON '' @ upper_target t @ '' TO '' @ upper_grantee who"
  have ps: "ps \<noteq> []" "list_all privilege_name ps" using assms(1) GrantPrivs by simp_all
  have up: "to_upper (trim_space (show_grant g)) = ?up"
    using GrantPrivs ps upper_row [of ps "''GRANT ''" "'' TO ''" t who] upper_words by (simp add: white_def)
  have gp: "grant_privileges ?up ''GRANT '' = Some (show_privs ps)" by (rule row_privileges [OF ps])
  have tg: "grant_target ?up = upper_target t @ '' TO '' @ upper_grantee who" by (rule row_target [OF ps])
  show ?thesis
    unfolding grant_row_proves_def Let_def up gp tg target_global option.case
    using assms(2) GrantPrivs ps proc_target_named [of t "upper_grantee who"]
    by (auto simp: priv_list_has_show grant_shows_routines_def cased_grant_def)
next
  case (GrantRole role who)
  have "grant_privileges (to_upper (trim_space (show_grant g))) ''GRANT '' = None"
    using role_privileges unfolding GrantRole upper_role_row .
  then show ?thesis using GrantRole by (simp add: grant_row_proves_def grant_shows_routines_def)
next
  case (RevokePrivs ps t who)
  then have ps: "ps \<noteq> []" "list_all privilege_name ps" using assms by simp_all
  have "to_upper (trim_space (show_grant g)) = ''REVOKE '' @ show_privs ps @ '' ON '' @ upper_target t @ '' FROM '' @ upper_grantee who"
    using RevokePrivs ps upper_row [of ps "''REVOKE ''" "'' FROM ''" t who] upper_words by (simp add: white_def)
  then have "grant_privileges (to_upper (trim_space (show_grant g))) ''GRANT '' = None"
    using other_keyword(2) by (simp only:)
  then show ?thesis using RevokePrivs by (simp add: grant_row_proves_def grant_shows_routines_def)
qed

subsection \<open>Properties\<close>


text \<open>A role whose name imitates a grant of routines.\<close>

definition hostile_grants :: "grant list" where
  "hostile_grants =
     [GrantPrivs [''USAGE''] Global (''app'', ''%'', False),
      GrantRole ''x` SHOW_ROUTINE ON *.* TO '' (''app'', ''%'', False),
      GrantPrivs [''SELECT'', ''LOCK TABLES''] (OnSchema ''mysql` TO '') (''app'', ''%'', True)]"


text \<open>The comparison ignores case although schema names need not: read access to a schema that
  is called \<open>MYSQL\<close> is taken for access to the server's routines.\<close>

theorem routine_grant_case_confused:
  "\<exists>gs. list_all wf_grant gs \<and> has_routine_grant (map show_grant gs) \<and> \<not> routines_visible gs"
  by (rule exI [of _ "[GrantPrivs [''SELECT''] (OnSchema ''MYSQL'') (''app'', ''%'', False)]"]) code_simp

end
