(* ===== verification/Engines.thy ===== *)
theory Engines
  imports PgClient Grants
begin

section \<open>What the drivers ask of a database\<close>

text \<open>
  The database side of \<open>pipeline/postgres.go\<close>, \<open>pipeline/mysql.go\<close>, \<open>pipeline/preflight.go\<close> and
  \<open>pipeline/discovery.go\<close>: the connection test, the checks before a dump and the discovery of
  databases. A server is what it answers to the statements of the sources: the record
  \<open>pg_server\<close> for a DSN that pgx connects with, \<open>my_server\<close> for a configuration of the MySQL
  driver. A query gives the rows that were scanned and the error that ended it, if any.
\<close>

type_synonym 'r rows = "(goerr + 'r) list \<times> goerr option"

record pg_server =
  pgs_connect :: "goerr option"
  pgs_ping :: "goerr option"
  pgs_version_num :: "goerr + int"
  pgs_databases :: "goerr + (string \<times> bool) rows"
  pgs_unreadable :: "goerr + (int \<times> string)"
  pgs_large_objects :: "goerr + (int \<times> string)"

record my_server =
  mys_open :: "goerr option"
  mys_ping :: "goerr option"
  mys_engines :: "string \<Rightarrow> goerr + (string \<times> string) rows"
  mys_schemata :: "goerr + string rows"
  mys_grants :: "goerr + string rows"

record world =
  w_host :: host
  w_pg :: "string \<Rightarrow> pg_server"
  w_my :: "go_mysql_config \<Rightarrow> my_server"

text \<open>The loop over the rows of a query: the first row that cannot be scanned ends it.\<close>

fun scan_rows :: "(goerr + 'r) list \<Rightarrow> 'r list \<Rightarrow> goerr + 'r list" where
  "scan_rows [] acc = Inr acc"
| "scan_rows (Inl e # rs) acc = Inl e"
| "scan_rows (Inr r # rs) acc = scan_rows rs (acc @ [r])"

definition read_rows :: "'r rows \<Rightarrow> goerr + 'r list" where
  "read_rows q =
     (case scan_rows (fst q) [] of
        Inl e \<Rightarrow> Inl e
      | Inr rs \<Rightarrow> (case snd q of Some e \<Rightarrow> Inl e | None \<Rightarrow> Inr rs))"

subsection \<open>The connection test\<close>

definition preflight_postgres :: "world \<Rightarrow> string \<Rightarrow> goerr option" where
  "preflight_postgres w dsn =
     (case pgs_connect (w_pg w dsn) of
        Some e \<Rightarrow> Some (classify KindConnect ''connect to database: %w'' [] (Some e))
      | None \<Rightarrow>
          (case pgs_ping (w_pg w dsn) of
             Some e \<Rightarrow> Some (classify KindConnect ''ping database: %w'' [] (Some e))
           | None \<Rightarrow> None))"

definition open_mysql :: "world \<Rightarrow> mysql_source \<Rightarrow> goerr + my_server" where
  "open_mysql w src =
     (let srv = w_my w (mysql_go_config src) in
      case mys_open srv of
        Some e \<Rightarrow> Inl (classify KindConnect ''pipeline: open mysql: %w'' [] (Some e))
      | None \<Rightarrow> Inr srv)"

definition mysql_test_connection :: "world \<Rightarrow> mysql_source \<Rightarrow> goerr option" where
  "mysql_test_connection w src =
     (case open_mysql w src of
        Inl e \<Rightarrow> Some e
      | Inr srv \<Rightarrow>
          (case mys_ping srv of
             Some e \<Rightarrow> Some (classify KindConnect ''pipeline: connect to database: %w'' [] (Some e))
           | None \<Rightarrow> None))"

definition drv_test_connection :: "world \<Rightarrow> driver \<Rightarrow> goerr option" where
  "drv_test_connection w d =
     (case d of PostgresDriver dsn _ _ \<Rightarrow> preflight_postgres w dsn | MySQLDriver src \<Rightarrow> mysql_test_connection w src)"

definition TestConnection :: "world \<Rightarrow> string \<Rightarrow> goerr option" where
  "TestConnection w dsn =
     (case new_driver dsn of Inl e \<Rightarrow> Some e | Inr d \<Rightarrow> drv_test_connection w d)"

subsection \<open>The checks before a dump\<close>

text \<open>Integer division of Go truncates towards zero.\<close>

definition postgres_server_major :: "world \<Rightarrow> string \<Rightarrow> goerr + int" where
  "postgres_server_major w dsn =
     (case pgs_connect (w_pg w dsn) of
        Some e \<Rightarrow> Inl e
      | None \<Rightarrow>
          (case pgs_version_num (w_pg w dsn) of
             Inl e \<Rightarrow> Inl e
           | Inr num \<Rightarrow> Inr (sgn num * (\<bar>num\<bar> div 10000))))"

text \<open>The PostgreSQL checks give the driver with the path of the selected client.\<close>

definition pg_preflight :: "world \<Rightarrow> string \<Rightarrow> pg_source \<Rightarrow> goerr + driver" where
  "pg_preflight w dsn src =
     (case postgres_server_major w dsn of
        Inl e \<Rightarrow> Inl (classify KindConnect ''pipeline: read server version: %w'' [] (Some e))
      | Inr major \<Rightarrow>
          (case check_supported_pg_major major of
             Some e \<Rightarrow> Inl (classify KindDump ''pipeline: %w'' [] (Some e))
           | None \<Rightarrow>
               (case select_pg_dump (discover_pg_dump_clients (w_host w)) major of
                  Inl e \<Rightarrow> Inl (classify KindDump ''pipeline: %w'' [] (Some e))
                | Inr c \<Rightarrow> Inr (PostgresDriver dsn src (pgc_path c)))))"

definition non_transactional_error :: "string \<Rightarrow> string \<Rightarrow> goerr" where
  "non_transactional_error database tables =
     classify KindDump
       (''pipeline: database %q has non-InnoDB tables that --single-transaction cannot snapshot consistently: %s. ''
        @ ''Re-run with --allow-nontransactional to back them up anyway (they may be inconsistent if written during the backup).'')
       [database, tables] None"

definition non_transactional_warning :: "string \<Rightarrow> string" where
  "non_transactional_warning tables =
     ''non-InnoDB tables ('' @ tables
     @ '') may be inconsistent under --single-transaction; proceeding due to --allow-nontransactional''"

text \<open>The MySQL checks give an error, and the warnings that were emitted.\<close>

definition mysql_preflight :: "world \<Rightarrow> bool \<Rightarrow> mysql_source \<Rightarrow> goerr option \<times> string list" where
  "mysql_preflight w allow src =
     (case open_mysql w src of
        Inl e \<Rightarrow> (Some e, [])
      | Inr srv \<Rightarrow>
          (case mys_engines srv (my_database src) of
             Inl e \<Rightarrow> (Some (classify KindConnect ''pipeline: detect table engines: %w'' [] (Some e)), [])
           | Inr q \<Rightarrow>
               (case read_rows q of
                  Inl e \<Rightarrow> (Some e, [])
                | Inr rs \<Rightarrow>
                    (if rs = [] then (None, [])
                     else
                       (let tables = join_with '', '' (map (\<lambda>(name, engine). name @ '' ('' @ engine @ '')'') rs) in
                        if \<not> allow then (Some (non_transactional_error (my_database src) tables), [])
                        else (None, [non_transactional_warning tables]))))))"

definition drv_preflight :: "world \<Rightarrow> bool \<Rightarrow> driver \<Rightarrow> (goerr + driver) \<times> string list" where
  "drv_preflight w allow d =
     (case d of
        PostgresDriver dsn src _ \<Rightarrow> (pg_preflight w dsn src, [])
      | MySQLDriver src \<Rightarrow>
          (case mysql_preflight w allow src of (Some e, ws) \<Rightarrow> (Inl e, ws) | (None, ws) \<Rightarrow> (Inr d, ws)))"

definition dump_client_version :: "world \<Rightarrow> driver \<Rightarrow> string" where
  "dump_client_version w d =
     (case d of
        PostgresDriver _ _ p \<Rightarrow> pg_dump_version_of (w_host w) (pg_dump_path p)
      | MySQLDriver _ \<Rightarrow> pg_dump_version_of (w_host w) ''mysqldump'')"

subsection \<open>Discovery\<close>

record database_info =
  di_name :: string
  di_accessible :: bool

definition pg_list_databases :: "world \<Rightarrow> string \<Rightarrow> goerr + database_info list" where
  "pg_list_databases w dsn =
     (case pgs_connect (w_pg w dsn) of
        Some e \<Rightarrow> Inl (classify KindConnect ''pipeline: connect for discovery: %w'' [] (Some e))
      | None \<Rightarrow>
          (case pgs_databases (w_pg w dsn) of
             Inl e \<Rightarrow> Inl (classify KindConnect ''pipeline: list databases: %w'' [] (Some e))
           | Inr q \<Rightarrow>
               (case read_rows q of
                  Inl e \<Rightarrow> Inl e
                | Inr rs \<Rightarrow> Inr (map (\<lambda>(name, ok). \<lparr>di_name = name, di_accessible = ok\<rparr>) rs))))"

definition mysql_list_databases :: "world \<Rightarrow> mysql_source \<Rightarrow> goerr + database_info list" where
  "mysql_list_databases w src =
     (case open_mysql w src of
        Inl e \<Rightarrow> Inl e
      | Inr srv \<Rightarrow>
          (case mys_schemata srv of
             Inl e \<Rightarrow> Inl (classify KindConnect ''pipeline: list databases: %w'' [] (Some e))
           | Inr q \<Rightarrow>
               (case read_rows q of
                  Inl e \<Rightarrow> Inl e
                | Inr rs \<Rightarrow> Inr (map (\<lambda>name. \<lparr>di_name = name, di_accessible = True\<rparr>) rs))))"

definition drv_list_databases :: "world \<Rightarrow> driver \<Rightarrow> goerr + database_info list" where
  "drv_list_databases w d =
     (case d of PostgresDriver dsn _ _ \<Rightarrow> pg_list_databases w dsn | MySQLDriver src \<Rightarrow> mysql_list_databases w src)"

definition ListDatabases :: "world \<Rightarrow> string \<Rightarrow> goerr + database_info list" where
  "ListDatabases w dsn = (case new_driver dsn of Inl e \<Rightarrow> Inl e | Inr d \<Rightarrow> drv_list_databases w d)"

subsection \<open>What preflight guarantees\<close>

lemma scan_rows_map [simp]: "scan_rows (map Inr xs) acc = Inr (acc @ xs)"
  by (induction xs arbitrary: acc) simp_all

lemma scan_rows_Inr: "scan_rows rs acc = Inr out \<longleftrightarrow> (\<exists>xs. rs = map Inr xs \<and> out = acc @ xs)"
proof (induction rs acc rule: scan_rows.induct)
  case (3 r rs acc)
  then show ?case by (auto simp: Cons_eq_map_conv)
qed auto

lemma read_rows_Inr: "read_rows q = Inr rs \<longleftrightarrow> q = (map Inr rs, None)"
  by (cases q; cases "snd q") (auto simp: read_rows_def scan_rows_Inr split: sum.splits)

text \<open>Preflight changes nothing that identifies the source.\<close>

lemma drv_preflight_identity:
  assumes "drv_preflight w allow d = (Inr d', ws)"
  shows "drv_engine d' = drv_engine d" "drv_cluster d' = drv_cluster d" "drv_database d' = drv_database d"
    "dump_format d' = dump_format d"
  using assms
  by (auto simp: drv_preflight_def pg_preflight_def drv_engine_def drv_cluster_def drv_database_def dump_format_def
      split: driver.splits sum.splits option.splits prod.splits)

text \<open>C11: a dump is started only with guarantees: after PostgreSQL's preflight the server is of a
  supported major version and the dump command runs the best client for it that the host has,
  never an older one; after MySQL's every table of the database is transactional, or the
  operator asked for the others and was warned. Everything else is an error, of the kind
  connect or dump where the sources classify it.\<close>

theorem preflight_guarantees:
  assumes "drv_preflight w allow d = (Inr d', ws)"
  shows "case d of
      PostgresDriver dsn src p \<Rightarrow> \<exists>major c. postgres_server_major w dsn = Inr major
        \<and> min_supported_pg_major \<le> major \<and> major \<le> max_supported_pg_major
        \<and> best_client (discover_pg_dump_clients (w_host w)) major c
        \<and> cmd_args (build_dump_command env d') = [pgc_path c, ''-Fc'', ''-Z0'']
    | MySQLDriver src \<Rightarrow> d' = d \<and> (\<exists>srv rs. open_mysql w src = Inr srv
        \<and> mys_engines srv (my_database src) = Inr (map Inr rs, None)
        \<and> (rs = [] \<and> ws = [] \<or> rs \<noteq> [] \<and> allow \<and> length ws = 1))"
proof (cases d)
  case (PostgresDriver dsn src p)
  then obtain major c where m: "postgres_server_major w dsn = Inr major" "check_supported_pg_major major = None"
    "select_pg_dump (discover_pg_dump_clients (w_host w)) major = Inr c" "d' = PostgresDriver dsn src (pgc_path c)"
    using assms by (auto simp: drv_preflight_def pg_preflight_def split: sum.splits option.splits)
  then show ?thesis
    using selected_client(1) [OF m(3)] PostgresDriver
    by (auto simp: build_dump_command_def pg_dump_command_def pg_dump_path_def check_supported_pg_major_def split: if_splits)
next
  case (MySQLDriver src)
  then show ?thesis
    using assms
    by (auto simp: drv_preflight_def mysql_preflight_def read_rows_Inr Let_def
        split: sum.splits option.splits prod.splits if_splits)
qed

definition sample_pg_server :: pg_server where
  "sample_pg_server =
     \<lparr>pgs_connect = None, pgs_ping = None, pgs_version_num = Inr 170002,
      pgs_databases = Inr ([Inr (''app'', True), Inr (''secret'', False)], None),
      pgs_unreadable = Inr (0, []), pgs_large_objects = Inr (0, [])\<rparr>"

definition sample_my_server :: my_server where
  "sample_my_server =
     \<lparr>mys_open = None, mys_ping = None, mys_engines = (\<lambda>db. Inr ([Inr (''log'', ''MyISAM'')], None)),
      mys_schemata = Inr ([Inr ''app''], None), mys_grants = Inr ([Inr ''GRANT SELECT ON *.* TO `app`@`%`''], None)\<rparr>"

definition sample_world :: world where
  "sample_world = \<lparr>w_host = sample_host, w_pg = (\<lambda>dsn. sample_pg_server), w_my = (\<lambda>c. sample_my_server)\<rparr>"

definition sample_pg_source :: pg_source where
  "sample_pg_source =
     \<lparr>pg_host = ''db'', pg_port = ''5432'', pg_user = ''u'', pg_password = ''p'', pg_database = ''app'', pg_sslmode = [],
      pg_sslrootcert = [], pg_sslcert = [], pg_sslkey = []\<rparr>"

definition sample_pg_driver :: driver where
  "sample_pg_driver = PostgresDriver ''postgres://u:p@db/app'' sample_pg_source []"

lemma sample_preflight:
  "drv_preflight sample_world False sample_pg_driver
    = (Inr (PostgresDriver ''postgres://u:p@db/app'' sample_pg_source ''/usr/bin/pg_dump''), [])"
  by code_simp

theorem preflight_guarantees_witness:
  "\<exists>c. best_client (discover_pg_dump_clients sample_host) 17 c"
proof -
  have "postgres_server_major sample_world ''postgres://u:p@db/app'' = Inr 17" by code_simp
  then show ?thesis
    using preflight_guarantees [OF sample_preflight, of "[]"] by (auto simp: sample_pg_driver_def sample_world_def)
qed

end
