(* ===== verification/Diagnose.thy ===== *)
theory Diagnose
  imports Engines
begin

section \<open>Diagnostics: the checks of the doctor\<close>

text \<open>
  The files \<open>pipeline/diagnose.go\<close> and \<open>pipeline/probe.go\<close>, and the methods \<open>Diagnose\<close>,
  \<open>checkReadAccess\<close> and \<open>diagnoseRoutineAccess\<close> of the drivers. A check is a value; nothing here
  changes the database, and the destination is written at one probe key only.
\<close>

datatype check_status = StatusOK | StatusWarn | StatusFail

definition check_status_string :: "check_status \<Rightarrow> string" where
  "check_status_string s = (case s of StatusOK \<Rightarrow> ''ok'' | StatusWarn \<Rightarrow> ''warn'' | StatusFail \<Rightarrow> ''fail'')"

record check =
  ck_name :: string
  ck_status :: check_status
  ck_detail :: string
  ck_fix :: string

definition mk_check :: "string \<Rightarrow> check_status \<Rightarrow> string \<Rightarrow> string \<Rightarrow> check" where
  "mk_check name st detail fix_text = \<lparr>ck_name = name, ck_status = st, ck_detail = detail, ck_fix = fix_text\<rparr>"

definition err_str :: "goerr option \<Rightarrow> string" where
  "err_str e = (case e of None \<Rightarrow> [] | Some e \<Rightarrow> error_text e)"

subsection \<open>PostgreSQL\<close>

definition table_check :: "goerr + (int \<times> string) \<Rightarrow> check" where
  "table_check q =
     (case q of
        Inl e \<Rightarrow> mk_check ''table read access'' StatusWarn (''could not verify per-table privileges: '' @ error_text e) []
      | Inr (unreadable, sample) \<Rightarrow>
          if unreadable > 0
          then mk_check ''table read access'' StatusFail
                 (itoa unreadable @ '' table(s)/sequence(s) not readable by this role (e.g. '' @ sample @ '') '' @ em_dash
                  @ '' pg_dump will fail on them'')
                 ''grant SELECT on those tables/sequences (or grant the pg_read_all_data role)''
          else mk_check ''table read access'' StatusOK ''every table and sequence is readable'' [])"

definition large_object_checks :: "goerr + (int \<times> string) \<Rightarrow> check list" where
  "large_object_checks q =
     (case q of
        Inl e \<Rightarrow> [mk_check ''large object read access'' StatusWarn
                    (''could not verify large object privileges: '' @ error_text e) []]
      | Inr (n, sample) \<Rightarrow>
          if n > 0
          then [mk_check ''large object read access'' StatusFail
                  (itoa n @ '' large object(s) not readable by this role (e.g. oid '' @ sample @ '') '' @ em_dash
                   @ '' pg_dump includes large objects and will fail on them'')
                  (''GRANT SELECT ON LARGE OBJECT <oid> TO the role per object ''
                   @ ''(PostgreSQL has no bulk large-object grant), or change their owner'')]
          else [])"

definition check_read_access :: "world \<Rightarrow> string \<Rightarrow> check list" where
  "check_read_access w dsn =
     (case pgs_connect (w_pg w dsn) of
        Some e \<Rightarrow> [mk_check ''table read access'' StatusFail (error_text e) []]
      | None \<Rightarrow> table_check (pgs_unreadable (w_pg w dsn)) # large_object_checks (pgs_large_objects (w_pg w dsn)))"

definition client_check :: "goerr + pg_client \<Rightarrow> int \<Rightarrow> check" where
  "client_check r major =
     (case r of
        Inl e \<Rightarrow> mk_check ''pg_dump client'' StatusFail (error_text e)
                   (''install postgresql-client-'' @ itoa major @ '' (or newer)'')
      | Inr c \<Rightarrow>
          if pgc_major c \<noteq> major
          then mk_check ''pg_dump client'' StatusWarn
                 (''pg_dump '' @ itoa (pgc_major c) @ '' selected for server '' @ itoa major
                  @ '' (works, but not an exact match)'')
                 (''install postgresql-client-'' @ itoa major @ '' for a matched, cleaner dump'')
          else mk_check ''pg_dump client'' StatusOK (''pg_dump '' @ itoa (pgc_major c) @ '' (matches server)'') [])"

definition pg_diagnose :: "world \<Rightarrow> string \<Rightarrow> check list" where
  "pg_diagnose w dsn =
     (case postgres_server_major w dsn of
        Inl e \<Rightarrow> [mk_check ''server version'' StatusFail (error_text e) []]
      | Inr major \<Rightarrow>
          (case check_supported_pg_major major of
             Some e \<Rightarrow>
               [mk_check ''server version'' StatusFail (''PostgreSQL '' @ itoa major)
                  (''supported range is '' @ itoa min_supported_pg_major @ en_dash @ itoa max_supported_pg_major
                   @ ''; upgrade dbferry or use a supported server'')]
           | None \<Rightarrow>
               mk_check ''server version'' StatusOK (''PostgreSQL '' @ itoa major @ '' (supported)'') []
               # client_check (select_pg_dump (discover_pg_dump_clients (w_host w)) major) major
               # check_read_access w dsn))"

subsection \<open>MySQL\<close>

definition grants_unknown :: "goerr \<Rightarrow> check" where
  "grants_unknown e = mk_check ''stored routines'' StatusWarn (''could not check grants: '' @ error_text e) []"

definition diagnose_routine_access :: "world \<Rightarrow> mysql_source \<Rightarrow> check" where
  "diagnose_routine_access w src =
     (let srv = w_my w (mysql_go_config src) in
      case mys_open srv of
        Some e \<Rightarrow> grants_unknown e
      | None \<Rightarrow>
          (case mys_grants srv of
             Inl e \<Rightarrow> grants_unknown e
           | Inr q \<Rightarrow>
               (case read_rows q of
                  Inl e \<Rightarrow> grants_unknown e
                | Inr grants \<Rightarrow>
                    if has_routine_grant grants
                    then mk_check ''stored routines'' StatusOK
                           (''SHOW_ROUTINE (or equivalent) granted '' @ em_dash @ '' stored programs will be included'') []
                    else mk_check ''stored routines'' StatusWarn
                           (''SHOW_ROUTINE is not granted '' @ em_dash
                            @ '' stored procedures/functions will be silently missing from dumps (fine if you have none)'')
                           (''GRANT SHOW_ROUTINE ON *.* TO the backup user ''
                            @ ''(MySQL 8.0.20+; older servers: GRANT SELECT ON mysql.proc)''))))"

definition mysql_diagnose :: "world \<Rightarrow> mysql_source \<Rightarrow> check list" where
  "mysql_diagnose w src =
     (case h_look_path (w_host w) ''mysqldump'' of
        Inl e \<Rightarrow> [mk_check ''mysqldump client'' StatusFail ''not found on PATH''
                    ''install the MySQL client tools (mysql-client / mysql-community-client)'']
      | Inr p \<Rightarrow> [mk_check ''mysqldump client'' StatusOK (dump_client_version w (MySQLDriver src)) [],
                  diagnose_routine_access w src])"

definition drv_diagnose :: "world \<Rightarrow> driver \<Rightarrow> check list" where
  "drv_diagnose w d = (case d of PostgresDriver dsn _ _ \<Rightarrow> pg_diagnose w dsn | MySQLDriver src \<Rightarrow> mysql_diagnose w src)"

subsection \<open>A source\<close>

definition DiagnoseSource :: "world \<Rightarrow> string \<Rightarrow> check list" where
  "DiagnoseSource w dsn =
     (case new_driver dsn of
        Inl e \<Rightarrow> [mk_check ''dsn'' StatusFail (error_text e) ''use a postgres:// or mysql:// DSN'']
      | Inr d \<Rightarrow>
          (case drv_test_connection w d of
             Some e \<Rightarrow> [mk_check ''connect'' StatusFail (error_text e)
                          ''check host/port/database/credentials and that the role may CONNECT'']
           | None \<Rightarrow>
               mk_check ''connect'' StatusOK ''reachable and authenticated'' []
               # drv_diagnose w d
               @ [case drv_list_databases w d of
                    Inl e \<Rightarrow> mk_check ''read access'' StatusWarn (error_text e) ''grant catalog read access to the role''
                  | Inr dbs \<Rightarrow> mk_check ''discovery'' StatusOK (itoa (int (length dbs)) @ '' user database(s) visible'') []]))"

subsection \<open>A destination\<close>

datatype probe_call = ProbePut string string | ProbeHead string string | ProbeDelete string string

record probe_api =
  pa_put :: "probe_call list \<Rightarrow> string \<Rightarrow> string \<Rightarrow> goerr option"
  pa_head :: "probe_call list \<Rightarrow> string \<Rightarrow> string \<Rightarrow> goerr option"
  pa_delete :: "probe_call list \<Rightarrow> string \<Rightarrow> string \<Rightarrow> goerr option"

record dest_probe =
  dp_write :: bool
  dp_read :: bool
  dp_delete :: bool
  dp_write_err :: "goerr option"
  dp_read_err :: "goerr option"
  dp_del_err :: "goerr option"
  dp_leftover :: string

definition no_write :: "goerr \<Rightarrow> dest_probe" where
  "no_write e =
     \<lparr>dp_write = False, dp_read = False, dp_delete = False, dp_write_err = Some e, dp_read_err = None,
      dp_del_err = None, dp_leftover = []\<rparr>"

definition probe_key :: "dest \<Rightarrow> string" where
  "probe_key dst = path_join [d_prefix dst, ''.dbferry-probe'', ''probe'']"

definition ProbeDestination :: "(client_options \<Rightarrow> goerr + probe_api) \<Rightarrow> config \<Rightarrow> dest_probe \<times> probe_call list" where
  "ProbeDestination sdk cfg =
     (case new_s3_client sdk cfg of
        Inl e \<Rightarrow> (no_write e, [])
      | Inr api \<Rightarrow>
          (case parse_dest (cfg_dest cfg) of
             Inl e \<Rightarrow> (no_write e, [])
           | Inr dst \<Rightarrow>
               (let b = d_bucket dst; key = probe_key dst; t1 = [ProbePut b key] in
                case pa_put api [] b key of
                  Some e \<Rightarrow> (no_write e, t1)
                | None \<Rightarrow>
                    (let t2 = t1 @ [ProbeHead b key]; t3 = t2 @ [ProbeDelete b key];
                         re = pa_head api t1 b key; de = pa_delete api t2 b key in
                     (\<lparr>dp_write = True, dp_read = (re = None), dp_delete = (de = None), dp_write_err = None,
                       dp_read_err = re, dp_del_err = de, dp_leftover = (if de = None then [] else key)\<rparr>, t3)))))"

definition DiagnoseDestination :: "(client_options \<Rightarrow> goerr + probe_api) \<Rightarrow> config \<Rightarrow> check list" where
  "DiagnoseDestination sdk cfg =
     (let p = fst (ProbeDestination sdk cfg) in
      if \<not> dp_write p
      then [mk_check ''write'' StatusFail (err_str (dp_write_err p))
              ''grant s3:CreateMultipartUpload/UploadPart/PutObject and check the bucket, credentials and endpoint'']
      else
        [mk_check ''write'' StatusOK ''PutObject ok'' [],
         if dp_read p then mk_check ''read'' StatusOK ''HeadObject ok'' []
         else mk_check ''read'' StatusWarn (err_str (dp_read_err p))
                ''grant s3:GetObject/HeadObject (recommended for verification)'',
         if dp_delete p then mk_check ''delete'' StatusOK ''DeleteObject ok'' []
         else mk_check ''delete'' StatusWarn (''append-only (no DeleteObject) '' @ em_dash @ '' fine for backups'')
                (''retention will need s3:DeleteObject; probe object left at '' @ dp_leftover p)])"

subsection \<open>Properties\<close>

text \<open>What a source must be for a backup to be dumped whole.\<close>

definition dumpable :: "world \<Rightarrow> driver \<Rightarrow> bool" where
  "dumpable w d =
     (case d of
        PostgresDriver dsn _ _ \<Rightarrow>
          (\<exists>major. postgres_server_major w dsn = Inr major \<and> check_supported_pg_major major = None
             \<and> (\<exists>c. select_pg_dump (discover_pg_dump_clients (w_host w)) major = Inr c))
          \<and> (\<forall>n s. pgs_unreadable (w_pg w dsn) = Inr (n, s) \<longrightarrow> n \<le> 0)
          \<and> (\<forall>n s. pgs_large_objects (w_pg w dsn) = Inr (n, s) \<longrightarrow> n \<le> 0)
      | MySQLDriver src \<Rightarrow> \<exists>p. h_look_path (w_host w) ''mysqldump'' = Inr p)"

definition failing :: "check list \<Rightarrow> bool" where
  "failing cs \<longleftrightarrow> list_ex (\<lambda>c. ck_status c = StatusFail) cs"

lemma failing_simps [simp]:
  "\<not> failing []" "failing (c # cs) \<longleftrightarrow> ck_status c = StatusFail \<or> failing cs"
  "failing (cs @ ds) \<longleftrightarrow> failing cs \<or> failing ds"
  by (simp_all add: failing_def)

lemma status_mk_check [simp]: "ck_status (mk_check n s d f) = s" "ck_detail (mk_check n s d f) = d" "ck_fix (mk_check n s d f) = f"
  by (simp_all add: mk_check_def)

lemma not_failing_diagnose:
  "\<not> failing (drv_diagnose w d) \<longleftrightarrow> dumpable w d \<and> (case d of PostgresDriver dsn _ _ \<Rightarrow> pgs_connect (w_pg w dsn) = None | _ \<Rightarrow> True)"
  by (cases d)
     (auto simp: drv_diagnose_def dumpable_def pg_diagnose_def mysql_diagnose_def check_read_access_def table_check_def
       large_object_checks_def client_check_def diagnose_routine_access_def grants_unknown_def Let_def postgres_server_major_def
       split: sum.splits option.splits if_splits prod.splits)


lemma probe_key_segs: "relative_prefix dst \<Longrightarrow> probe_key dst = join_with ''/'' (prefix_segs dst @ [''.dbferry-probe'', ''probe''])"
  using dest_join [of dst "[''.dbferry-probe'', ''probe'']"]
  by (cases "d_prefix dst = []") (simp_all add: probe_key_def path_join_def safe_seg_def)

lemma probe_key_outside:
  assumes "parse_dest s = Inr dst"
  shows "\<not> has_prefix (probe_key dst) (drv.scope_of dst d)"
proof
  have rel: "relative_prefix dst" using parse_dest_relative [OF assms] by simp
  assume "has_prefix (probe_key dst) (drv.scope_of dst d)"
  then obtain r where "split_on CHR ''/'' (probe_key dst)
      = (prefix_segs dst @ [drv_engine d, drv_cluster d, sanitize_key_segment (drv_database d)]) @ r"
    using scope_segs [OF rel drv.engine_safe drv.cluster_safe] unfolding drv.scope_of_def by blast
  moreover have "split_on CHR ''/'' (probe_key dst) = prefix_segs dst @ [''.dbferry-probe'', ''probe'']"
    using clean_form_no_slash [OF prefix_segs_clean, of _ dst]
    by (simp add: probe_key_segs [OF rel]) (intro split_join, auto)
  ultimately have "drv_engine d = ''.dbferry-probe''" by simp
  then show False by (cases d) (simp_all add: drv_engine_def)
qed

lemma probe_calls:
  assumes "ProbeDestination sdk cfg = (p, calls)"
  obtains (refused) e where "p = no_write e" "calls = []"
    | (denied) dst e where "parse_dest (cfg_dest cfg) = Inr dst" "p = no_write e"
        "calls = [ProbePut (d_bucket dst) (probe_key dst)]"
    | (written) dst api where "parse_dest (cfg_dest cfg) = Inr dst" "sdk (client_options cfg) = Inr api"
        "calls = [ProbePut (d_bucket dst) (probe_key dst), ProbeHead (d_bucket dst) (probe_key dst),
           ProbeDelete (d_bucket dst) (probe_key dst)]"
        "dp_write p" "dp_write_err p = None"
        "dp_delete p \<longleftrightarrow> pa_delete api [ProbePut (d_bucket dst) (probe_key dst), ProbeHead (d_bucket dst) (probe_key dst)]
           (d_bucket dst) (probe_key dst) = None"
        "\<not> dp_delete p \<longrightarrow> dp_leftover p = probe_key dst"
  using assms by (auto simp: ProbeDestination_def new_s3_client_def Let_def split: sum.splits option.splits if_splits)

text \<open>The probe of a destination touches one key, outside of the scope of every database, and
  leaves nothing behind without saying so: whatever the store answers, if the write succeeded
  then the key was deleted with the store's acknowledgement or the doctor's report names it.\<close>

theorem probe_leaves_no_trace:
  assumes "ProbeDestination sdk cfg = (p, calls)"
  shows "(\<forall>c \<in> set calls. \<exists>dst. parse_dest (cfg_dest cfg) = Inr dst
            \<and> c \<in> {ProbePut (d_bucket dst) (probe_key dst), ProbeHead (d_bucket dst) (probe_key dst),
                    ProbeDelete (d_bucket dst) (probe_key dst)}
            \<and> (\<forall>d. \<not> has_prefix (probe_key dst) (scope_prefix dst (drv_engine d) (drv_cluster d) (drv_database d))))
    \<and> (dp_write p \<longrightarrow> (\<exists>dst api. sdk (client_options cfg) = Inr api \<and> ProbeDelete (d_bucket dst) (probe_key dst) \<in> set calls
          \<and> (if dp_delete p
             then pa_delete api [ProbePut (d_bucket dst) (probe_key dst), ProbeHead (d_bucket dst) (probe_key dst)]
                    (d_bucket dst) (probe_key dst) = None
             else \<exists>c \<in> set (DiagnoseDestination sdk cfg).
                     ck_fix c = ''retention will need s3:DeleteObject; probe object left at '' @ probe_key dst)))
    \<and> (\<not> dp_write p \<longrightarrow> failing (DiagnoseDestination sdk cfg))"
  using assms
proof (cases rule: probe_calls)
  case (refused e)
  then show ?thesis using assms by (simp add: DiagnoseDestination_def no_write_def)
next
  case (denied dst e)
  then show ?thesis
    using assms probe_key_outside [OF denied(1)] by (simp add: DiagnoseDestination_def no_write_def drv.scope_of_def)
next
  case (written dst api)
  then show ?thesis
    using assms probe_key_outside [OF written(1)] by (auto simp: DiagnoseDestination_def drv.scope_of_def)
qed

definition append_only :: probe_api where
  "append_only =
     \<lparr>pa_put = (\<lambda>tr b k. None), pa_head = (\<lambda>tr b k. None), pa_delete = (\<lambda>tr b k. Some (Foreign ''AccessDenied''))\<rparr>"

lemma append_only_probe:
  "snd (ProbeDestination (\<lambda>opts. Inr append_only) sample_config) = [ProbePut ''b'' ''p/.dbferry-probe/probe'',
     ProbeHead ''b'' ''p/.dbferry-probe/probe'', ProbeDelete ''b'' ''p/.dbferry-probe/probe'']"
  "dp_write (fst (ProbeDestination (\<lambda>opts. Inr append_only) sample_config))"
  "\<not> dp_delete (fst (ProbeDestination (\<lambda>opts. Inr append_only) sample_config))"
  by code_simp+

theorem probe_leaves_no_trace_witness:
  "\<exists>c \<in> set (DiagnoseDestination (\<lambda>opts. Inr append_only) sample_config). \<exists>dst.
     ck_fix c = ''retention will need s3:DeleteObject; probe object left at '' @ probe_key dst"
  using probe_leaves_no_trace [OF prod.collapse [symmetric], of "\<lambda>opts. Inr append_only" sample_config] append_only_probe
  by auto

end
