(* ===== verification/Stream.thy ===== *)
theory Stream
  imports Driver
begin

section \<open>Streaming parts: the concurrent part of an upload\<close>

text \<open>
  \<open>streamParts\<close> of \<open>pipeline/upload.go\<close> as a step relation: the read loop and the goroutines
  that upload parts interleave in any order. A state has the place of the loop, the bytes not
  yet read, the parts in flight and done, the slots of the semaphore in use, the first error of
  a goroutine (which cancels the group's context) and the run's own cancellation. The lemmas
  show that every interleaving ends, that none blocks, that no more than the configured number
  of buffers is ever live, and that the outcome does not depend on the interleaving.
\<close>

subsection \<open>States and steps\<close>

datatype loop_state = Acquire | Reading | Finished

record stream_state =
  ss_loop :: loop_state
  ss_rest :: string
  ss_slots :: nat
  ss_part_num :: int
  ss_hashed :: string
  ss_total :: int
  ss_running :: "(int \<times> string) list"
  ss_parts :: "(int \<times> string) list"
  ss_uploaded :: int
  ss_failed :: "goerr option"
  ss_read_err :: "goerr option"
  ss_canceled :: bool

text \<open>What surrounds the loop: part size, concurrency, the body with the error that ends it (none
  for a clean end), and the store's answer to each part: an error or the part's tag.\<close>

record stream_env =
  se_part_size :: nat
  se_concurrency :: nat
  se_body :: string
  se_body_err :: "goerr option"
  se_upload_part :: "int \<Rightarrow> string \<Rightarrow> goerr + string"

definition context_canceled :: goerr where
  "context_canceled = Foreign ''context canceled''"

definition group_done :: "stream_state \<Rightarrow> bool" where
  "group_done s \<longleftrightarrow> ss_failed s \<noteq> None \<or> ss_canceled s"

definition too_many_parts :: goerr where
  "too_many_parts = classify KindUpload ''upload exceeded the %d-part S3 limit; increase --part-size and retry''
     [itoa max_upload_parts] None"

definition part_failed :: "int \<Rightarrow> goerr \<Rightarrow> goerr" where
  "part_failed pn e = classify KindUpload ''upload part %d: %w'' [itoa pn] (Some e)"

definition stream_init :: "stream_env \<Rightarrow> stream_state" where
  "stream_init E =
     \<lparr>ss_loop = Acquire, ss_rest = se_body E, ss_slots = 0, ss_part_num = 0, ss_hashed = [], ss_total = 0,
      ss_running = [], ss_parts = [], ss_uploaded = 0, ss_failed = None, ss_read_err = None, ss_canceled = False\<rparr>"

text \<open>A buffer was filled with \<open>data\<close>: hash it and start its upload, or give up at the part limit.\<close>

definition dispatch :: "stream_state \<Rightarrow> string \<Rightarrow> loop_state \<Rightarrow> stream_state" where
  "dispatch s data next =
     (let pn = ss_part_num s + 1 in
      if pn > max_upload_parts
      then s\<lparr>ss_loop := Finished, ss_slots := ss_slots s - 1, ss_part_num := pn, ss_read_err := Some too_many_parts\<rparr>
      else s\<lparr>ss_loop := next, ss_rest := drop (length data) (ss_rest s), ss_part_num := pn,
             ss_hashed := ss_hashed s @ data, ss_total := ss_total s + int (length data),
             ss_running := ss_running s @ [(pn, data)]\<rparr>)"

definition stop_reading :: "stream_state \<Rightarrow> goerr option \<Rightarrow> stream_state" where
  "stop_reading s e = s\<lparr>ss_loop := Finished, ss_slots := ss_slots s - 1, ss_read_err := e\<rparr>"

text \<open>The return of \<open>io.ReadFull\<close> with a buffer of the part size.\<close>

definition read_part :: "stream_env \<Rightarrow> stream_state \<Rightarrow> stream_state" where
  "read_part E s =
     (if se_part_size E \<le> length (ss_rest s) then dispatch s (take (se_part_size E) (ss_rest s)) Acquire
      else case se_body_err E of
             Some e \<Rightarrow> stop_reading s (Some e)
           | None \<Rightarrow> if ss_rest s = [] then stop_reading s None else dispatch s (ss_rest s) Finished)"

definition part_done :: "stream_state \<Rightarrow> (int \<times> string) \<Rightarrow> string \<Rightarrow> stream_state" where
  "part_done s p etag =
     s\<lparr>ss_running := remove1 p (ss_running s), ss_parts := ss_parts s @ [(fst p, etag)], ss_slots := ss_slots s - 1,
       ss_uploaded := ss_uploaded s + int (length (snd p))\<rparr>"

definition part_error :: "stream_state \<Rightarrow> (int \<times> string) \<Rightarrow> goerr \<Rightarrow> stream_state" where
  "part_error s p e =
     s\<lparr>ss_running := remove1 p (ss_running s), ss_slots := ss_slots s - 1,
       ss_failed := (if ss_failed s = None then Some (part_failed (fst p) e) else ss_failed s)\<rparr>"

inductive stream_step :: "stream_env \<Rightarrow> stream_state \<Rightarrow> stream_state \<Rightarrow> bool" for E where
  acquire: "ss_loop s = Acquire \<Longrightarrow> ss_slots s < se_concurrency E \<Longrightarrow>
    stream_step E s (s\<lparr>ss_loop := Reading, ss_slots := ss_slots s + 1\<rparr>)"
| acquire_canceled: "ss_loop s = Acquire \<Longrightarrow> group_done s \<Longrightarrow>
    stream_step E s (s\<lparr>ss_loop := Finished, ss_read_err := Some context_canceled\<rparr>)"
| read: "ss_loop s = Reading \<Longrightarrow> stream_step E s (read_part E s)"
| read_canceled: "ss_loop s = Reading \<Longrightarrow> group_done s \<Longrightarrow>
    stream_step E s (stop_reading s (Some context_canceled))"
| part_ok: "p \<in> set (ss_running s) \<Longrightarrow> se_upload_part E (fst p) (snd p) = Inr etag \<Longrightarrow>
    stream_step E s (part_done s p etag)"
| part_err: "p \<in> set (ss_running s) \<Longrightarrow> se_upload_part E (fst p) (snd p) = Inl e \<Longrightarrow>
    stream_step E s (part_error s p e)"
| part_canceled: "p \<in> set (ss_running s) \<Longrightarrow> group_done s \<Longrightarrow> stream_step E s (part_error s p context_canceled)"
| cancel: "\<not> ss_canceled s \<Longrightarrow> stream_step E s (s\<lparr>ss_canceled := True\<rparr>)"

definition stream_final :: "stream_state \<Rightarrow> bool" where
  "stream_final s \<longleftrightarrow> ss_loop s = Finished \<and> ss_running s = []"

text \<open>What is returned once the group has been waited for; \<open>sha256\<close> is the hash in hex.\<close>

definition stream_result :: "(string \<Rightarrow> string) \<Rightarrow> stream_state \<Rightarrow> goerr + ((int \<times> string) list \<times> int \<times> string)" where
  "stream_result sha256 s =
     (case ss_failed s of
        Some e \<Rightarrow> Inl e
      | None \<Rightarrow>
          (case ss_read_err s of
             Some e \<Rightarrow> Inl e
           | None \<Rightarrow> Inr (sort_slice (\<lambda>a b. fst a < fst b) (ss_parts s), ss_total s, sha256 (ss_hashed s))))"

definition stream_runs :: "stream_env \<Rightarrow> stream_state \<Rightarrow> bool" where
  "stream_runs E s \<longleftrightarrow> (stream_step E)\<^sup>*\<^sup>* (stream_init E) s"

subsection \<open>The invariant\<close>

text \<open>The bytes of part \<open>pn\<close>, and the number of parts dispatched so far.\<close>

definition part_data :: "stream_env \<Rightarrow> int \<Rightarrow> string" where
  "part_data E pn = take (se_part_size E) (drop (nat (pn - 1) * se_part_size E) (se_body E))"

definition dispatched :: "stream_state \<Rightarrow> int" where
  "dispatched s = min (ss_part_num s) max_upload_parts"

definition slots_inv :: "stream_env \<Rightarrow> stream_state \<Rightarrow> bool" where
  "slots_inv E s \<longleftrightarrow>
     ss_slots s = length (ss_running s) + (if ss_loop s = Reading then 1 else 0) \<and> ss_slots s \<le> se_concurrency E"

definition bytes_inv :: "stream_env \<Rightarrow> stream_state \<Rightarrow> bool" where
  "bytes_inv E s \<longleftrightarrow>
     se_body E = ss_hashed s @ ss_rest s \<and> ss_total s = int (length (ss_hashed s))
     \<and> 0 \<le> ss_part_num s \<and> ss_part_num s \<le> max_upload_parts + 1
     \<and> (ss_loop s \<noteq> Finished \<longrightarrow> ss_read_err s = None \<and> ss_part_num s \<le> max_upload_parts
          \<and> length (ss_hashed s) = nat (ss_part_num s) * se_part_size E)
     \<and> (ss_loop s = Finished \<and> ss_read_err s = None \<longrightarrow> ss_rest s = [] \<and> se_body_err E = None
          \<and> ss_part_num s \<le> max_upload_parts
          \<and> nat (ss_part_num s) * se_part_size E < length (ss_hashed s) + se_part_size E
          \<and> length (ss_hashed s) \<le> nat (ss_part_num s) * se_part_size E)"

definition parts_inv :: "stream_env \<Rightarrow> stream_state \<Rightarrow> bool" where
  "parts_inv E s \<longleftrightarrow>
     (\<forall>p \<in> set (ss_running s). snd p = part_data E (fst p))
     \<and> (\<forall>p \<in> set (ss_parts s). se_upload_part E (fst p) (part_data E (fst p)) = Inr (snd p))
     \<and> (ss_failed s = None \<longrightarrow>
          mset (map fst (ss_running s)) + mset (map fst (ss_parts s)) = mset [1..dispatched s])"

definition stream_inv :: "stream_env \<Rightarrow> stream_state \<Rightarrow> bool" where
  "stream_inv E s \<longleftrightarrow> slots_inv E s \<and> bytes_inv E s \<and> parts_inv E s"

lemma stream_init_inv: "stream_inv E (stream_init E)"
  by (simp add: stream_inv_def slots_inv_def bytes_inv_def parts_inv_def stream_init_def dispatched_def
      max_upload_parts_def)

lemma max_upload_parts_pos [simp]: "0 < max_upload_parts"
  by (simp add: max_upload_parts_def)

lemma part_data_next:
  assumes "bytes_inv E s" "ss_loop s \<noteq> Finished"
  shows "part_data E (ss_part_num s + 1) = take (se_part_size E) (ss_rest s)"
  using assms by (auto simp: bytes_inv_def part_data_def)

lemma upto_snoc: "0 \<le> n \<Longrightarrow> [1..n + 1] = [1..n] @ [n + 1 :: int]"
  by (simp add: upto_rec2)

lemma dispatch_inv:
  assumes inv: "stream_inv E s" and loop: "ss_loop s = Reading"
    and data: "data = take (se_part_size E) (ss_rest s)"
    and fin: "next = Acquire \<and> length data = se_part_size E
      \<or> next = Finished \<and> data = ss_rest s \<and> data \<noteq> [] \<and> length data < se_part_size E \<and> se_body_err E = None"
  shows "stream_inv E (dispatch s data next)"
proof (cases "ss_part_num s + 1 > max_upload_parts")
  case True
  then have "dispatched s = max_upload_parts"
    "dispatched (s\<lparr>ss_loop := Finished, ss_slots := ss_slots s - 1, ss_part_num := ss_part_num s + 1,
       ss_read_err := Some too_many_parts\<rparr>) = max_upload_parts"
    using inv loop by (auto simp: dispatched_def stream_inv_def bytes_inv_def)
  then show ?thesis
    using True inv loop
    by (auto simp: dispatch_def Let_def stream_inv_def slots_inv_def bytes_inv_def parts_inv_def)
next
  case False
  have b: "bytes_inv E s" and r: "ss_part_num s \<ge> 0" "length (ss_hashed s) = nat (ss_part_num s) * se_part_size E"
    using inv loop by (auto simp: stream_inv_def bytes_inv_def)
  have pd: "data = part_data E (ss_part_num s + 1)"
    using part_data_next [OF b] loop data by simp
  let ?t = "dispatch s data next"
  have t: "?t = s\<lparr>ss_loop := next, ss_rest := drop (length data) (ss_rest s), ss_part_num := ss_part_num s + 1,
      ss_hashed := ss_hashed s @ data, ss_total := ss_total s + int (length data),
      ss_running := ss_running s @ [(ss_part_num s + 1, data)]\<rparr>"
    using False by (simp add: dispatch_def Let_def)
  have d: "dispatched ?t = dispatched s + 1" "dispatched s = ss_part_num s"
    using False by (simp_all add: t dispatched_def)
  have n: "nat (ss_part_num s + 1) = Suc (nat (ss_part_num s))" using r(1) by simp
  have "slots_inv E ?t" using inv loop fin by (auto simp: t stream_inv_def slots_inv_def)
  moreover have "data @ drop (length data) (ss_rest s) = ss_rest s"
    using data fin by (auto simp: min_def)
  then have "bytes_inv E ?t"
    using b r fin False loop by (auto simp: t bytes_inv_def n)
  moreover have f: "ss_running ?t = ss_running s @ [(ss_part_num s + 1, data)]" "ss_parts ?t = ss_parts s"
    "ss_failed ?t = ss_failed s"
    by (simp_all add: t)
  have "parts_inv E ?t"
    using inv pd upto_snoc [OF r(1)] unfolding parts_inv_def f d stream_inv_def by auto
  ultimately show ?thesis by (simp add: stream_inv_def)
qed

lemma stop_reading_inv:
  assumes "stream_inv E s" "ss_loop s = Reading"
    and "e = None \<Longrightarrow> ss_rest s = [] \<and> se_body_err E = None \<and> 0 < se_part_size E"
  shows "stream_inv E (stop_reading s e)"
  using assms
  by (cases e) (auto simp: stop_reading_def stream_inv_def slots_inv_def bytes_inv_def parts_inv_def dispatched_def)

lemma read_part_inv:
  assumes "stream_inv E s" "ss_loop s = Reading"
  shows "stream_inv E (read_part E s)"
proof (cases "se_part_size E \<le> length (ss_rest s)")
  case True
  then show ?thesis unfolding read_part_def using dispatch_inv [OF assms refl, of Acquire] by simp
next
  case False
  then show ?thesis
    unfolding read_part_def
    using stop_reading_inv [OF assms] dispatch_inv [OF assms, of "ss_rest s" Finished]
    by (auto split: option.split)
qed

lemma mset_remove1_map:
  "p \<in> set ps \<Longrightarrow> mset (map fst ps) = add_mset (fst p) (mset (map fst (remove1 p ps)))"
  by (metis image_mset_add_mset insert_DiffM mset_map mset_remove1 set_mset_mset)

lemma length_removed:
  assumes "p \<in> set ps"
  obtains k where "length (remove1 p ps) = k" "length ps = Suc k"
proof (rule that)
  have "0 < length ps" using assms by (rule length_pos_if_in_set)
  then show "length ps = Suc (length ps - 1)" by simp
qed (simp add: length_remove1 assms)

lemma slots_inv_remove:
  assumes "slots_inv E s" "p \<in> set (ss_running s)"
    and "ss_running t = remove1 p (ss_running s)" "ss_slots t = ss_slots s - 1" "ss_loop t = ss_loop s"
  shows "slots_inv E t"
proof -
  obtain k where k: "length (remove1 p (ss_running s)) = k" "length (ss_running s) = Suc k"
    using length_removed [OF assms(2)] .
  have "length (ss_running t) = k" unfolding assms(3) k ..
  then show ?thesis using assms(1,4,5) k(2) unfolding slots_inv_def by simp
qed

lemma part_done_inv:
  assumes inv: "stream_inv E s" and p: "p \<in> set (ss_running s)" "se_upload_part E (fst p) (snd p) = Inr etag"
  shows "stream_inv E (part_done s p etag)"
proof -
  have "slots_inv E (part_done s p etag)"
    by (rule slots_inv_remove [OF _ p(1)]) (use inv in \<open>simp_all add: part_done_def stream_inv_def\<close>)
  moreover have "bytes_inv E (part_done s p etag)"
    using inv by (simp add: part_done_def stream_inv_def bytes_inv_def)
  moreover have "parts_inv E (part_done s p etag)"
  proof -
    have f: "ss_running (part_done s p etag) = remove1 p (ss_running s)"
      "ss_parts (part_done s p etag) = ss_parts s @ [(fst p, etag)]"
      "ss_failed (part_done s p etag) = ss_failed s" "dispatched (part_done s p etag) = dispatched s"
      by (simp_all add: part_done_def dispatched_def)
    have i: "\<forall>p \<in> set (ss_running s). snd p = part_data E (fst p)"
      "\<forall>p \<in> set (ss_parts s). se_upload_part E (fst p) (part_data E (fst p)) = Inr (snd p)"
      "ss_failed s = None \<Longrightarrow> mset (map fst (ss_running s)) + mset (map fst (ss_parts s)) = mset [1..dispatched s]"
      using inv by (simp_all add: stream_inv_def parts_inv_def)
    have "mset (map fst (remove1 p (ss_running s))) + mset (map fst (ss_parts s @ [(fst p, etag)]))
        = mset (map fst (ss_running s)) + mset (map fst (ss_parts s))"
      unfolding mset_remove1_map [OF p(1)] by (simp del: mset_map)
    with i(3) have m: "ss_failed s = None \<Longrightarrow> mset (map fst (remove1 p (ss_running s)))
        + mset (map fst (ss_parts s @ [(fst p, etag)])) = mset [1..dispatched s]"
      by (simp only:)
    show ?thesis
      unfolding parts_inv_def f
    proof (intro conjI impI)
      show "\<forall>q \<in> set (remove1 p (ss_running s)). snd q = part_data E (fst q)"
        using i(1) set_remove1_subset [of p "ss_running s"] by blast
      show "\<forall>q \<in> set (ss_parts s @ [(fst p, etag)]). se_upload_part E (fst q) (part_data E (fst q)) = Inr (snd q)"
        using i(1,2) p by simp
    qed (rule m)
  qed
  ultimately show ?thesis by (simp add: stream_inv_def)
qed

lemma part_error_inv:
  assumes inv: "stream_inv E s" and p: "p \<in> set (ss_running s)"
  shows "stream_inv E (part_error s p e)"
proof -
  have "slots_inv E (part_error s p e)"
    by (rule slots_inv_remove [OF _ p]) (use inv in \<open>simp_all add: part_error_def stream_inv_def\<close>)
  moreover have "bytes_inv E (part_error s p e)"
    using inv by (simp add: part_error_def stream_inv_def bytes_inv_def)
  moreover have "parts_inv E (part_error s p e)"
    using inv set_remove1_subset [of p "ss_running s"]
    by (auto simp: part_error_def stream_inv_def parts_inv_def)
  ultimately show ?thesis by (simp add: stream_inv_def)
qed

lemma stream_step_inv: "stream_step E s t \<Longrightarrow> stream_inv E s \<Longrightarrow> stream_inv E t"
proof (induction rule: stream_step.induct)
  case (acquire s)
  then show ?case by (simp add: stream_inv_def slots_inv_def bytes_inv_def parts_inv_def dispatched_def)
next
  case (acquire_canceled s)
  then show ?case by (simp add: stream_inv_def slots_inv_def bytes_inv_def parts_inv_def dispatched_def)
next
  case (cancel s)
  then show ?case by (simp add: stream_inv_def slots_inv_def bytes_inv_def parts_inv_def dispatched_def)
next
  case (read_canceled s)
  then show ?case by (intro stop_reading_inv) simp_all
qed (simp_all add: read_part_inv stop_reading_inv part_done_inv part_error_inv)

lemma stream_runs_inv: "stream_runs E s \<Longrightarrow> stream_inv E s"
  unfolding stream_runs_def
  by (induction rule: rtranclp_induct) (auto intro: stream_init_inv stream_step_inv)

subsection \<open>Every interleaving ends and none blocks\<close>

definition stream_measure :: "stream_state \<Rightarrow> nat" where
  "stream_measure s =
     (let left = 4 * nat (max_upload_parts + 1 - ss_part_num s) in
      (case ss_loop s of Acquire \<Rightarrow> left + 3 | Reading \<Rightarrow> left + 2 | Finished \<Rightarrow> 0)
      + length (ss_running s) + (if ss_canceled s then 0 else 1))"

lemma dispatch_measure:
  assumes "ss_loop s = Reading" "ss_part_num s \<le> max_upload_parts"
  shows "stream_measure (dispatch s data next) < stream_measure s"
proof -
  have "nat (max_upload_parts + 1 - ss_part_num s) = Suc (nat (max_upload_parts + 1 - (ss_part_num s + 1)))"
    using assms(2) by simp
  then show ?thesis
    using assms by (cases "next") (auto simp: stream_measure_def dispatch_def Let_def)
qed

lemma remove_measure:
  assumes "p \<in> set (ss_running s)" "ss_running t = remove1 p (ss_running s)" "ss_loop t = ss_loop s"
    "ss_part_num t = ss_part_num s" "ss_canceled t = ss_canceled s"
  shows "stream_measure t < stream_measure s"
proof -
  obtain k where "length (remove1 p (ss_running s)) = k" "length (ss_running s) = Suc k"
    using length_removed [OF assms(1)] .
  then show ?thesis using assms(2-) by (simp add: stream_measure_def Let_def del: length_remove1)
qed

lemma stream_step_measure:
  "stream_step E s t \<Longrightarrow> stream_inv E s \<Longrightarrow> stream_measure t < stream_measure s"
proof (induction rule: stream_step.induct)
  case (read s)
  then have "ss_part_num s \<le> max_upload_parts" by (simp add: stream_inv_def bytes_inv_def)
  moreover have "stream_measure (stop_reading s e) < stream_measure s" for e
    using read by (simp add: stream_measure_def stop_reading_def Let_def)
  ultimately show ?case
    using read dispatch_measure by (simp add: read_part_def split: option.split)
next
  case (part_ok p s etag)
  then show ?case by (intro remove_measure) (simp_all add: part_done_def)
next
  case (part_err p s e)
  then show ?case by (intro remove_measure) (simp_all add: part_error_def)
next
  case (part_canceled p s)
  then show ?case by (intro remove_measure) (simp_all add: part_error_def)
qed (simp_all add: stream_measure_def stop_reading_def Let_def)

lemma stream_progress:
  assumes "stream_inv E s" "0 < se_concurrency E" "\<not> stream_final s"
  shows "\<exists>t. stream_step E s t"
proof (cases "ss_running s")
  case (Cons p ps)
  then have "p \<in> set (ss_running s)" by simp
  then show ?thesis
    by (cases "se_upload_part E (fst p) (snd p)") (blast intro: stream_step.part_ok stream_step.part_err)+
next
  case Nil
  then have "ss_loop s \<noteq> Finished" using assms(3) by (simp add: stream_final_def)
  then consider "ss_loop s = Acquire" "ss_slots s < se_concurrency E" | "ss_loop s = Reading"
    using assms Nil by (cases "ss_loop s") (auto simp: stream_inv_def slots_inv_def)
  then show ?thesis by cases (blast intro: stream_step.acquire stream_step.read)+
qed

subsection \<open>The outcome does not depend on the interleaving\<close>

interpretation part_order: strict_weak_order "\<lambda>a b :: int \<times> string. fst a < fst b"
  by unfold_locales auto

text \<open>The sequential reference: the parts in order, each with the store's tag for it.\<close>

definition part_count :: "stream_env \<Rightarrow> nat" where
  "part_count E = (length (se_body E) + se_part_size E - 1) div se_part_size E"

definition part_tag :: "stream_env \<Rightarrow> int \<Rightarrow> string" where
  "part_tag E pn = (case se_upload_part E pn (part_data E pn) of Inr etag \<Rightarrow> etag | Inl _ \<Rightarrow> [])"

definition stream_reference :: "(string \<Rightarrow> string) \<Rightarrow> stream_env \<Rightarrow> (int \<times> string) list \<times> int \<times> string" where
  "stream_reference sha256 E =
     (map (\<lambda>pn. (pn, part_tag E pn)) [1..int (part_count E)], int (length (se_body E)), sha256 (se_body E))"

lemma div_bounds:
  assumes "(n :: nat) * k < len + k" "len \<le> n * k"
  shows "(len + k - 1) div k = n"
proof -
  have "0 < k" using assms by (cases k) auto
  have "n * k \<le> len + k - 1" using assms(1) by simp
  moreover have "len + k - 1 < Suc n * k" using assms(2) \<open>0 < k\<close> by simp
  ultimately show ?thesis using div_nat_eqI [of k n "len + k - 1"] by (simp add: mult.commute)
qed

lemma sorted_parts:
  fixes f :: "int \<Rightarrow> string"
  assumes "\<forall>p \<in> set ps. snd p = f (fst p)" "mset (map fst ps) = mset [1..n]"
  shows "sort_slice (\<lambda>a b. fst a < fst b) ps = map (\<lambda>pn. (pn, f pn)) [1..n]"
proof -
  have "ps = map (\<lambda>pn. (pn, f pn)) (map fst ps)"
    using assms(1) by (induction ps) (auto simp: prod_eq_iff)
  then have m: "mset ps = mset (map (\<lambda>pn. (pn, f pn)) [1..n])"
    by (metis assms(2) mset_map)
  have "sort_slice (\<lambda>a b. fst a < fst b) ps = sort_slice (\<lambda>a b. fst a < fst b) (map (\<lambda>pn. (pn, f pn)) [1..n])"
    using assms(1) by (intro part_order.sort_slice_unique [OF m]) (metis linorder_neqE prod.collapse)
  also have "\<dots> = map (\<lambda>pn. (pn, f pn)) [1..n]"
  proof (rule part_order.sort_slice_sorted)
    show "sorted_by (\<lambda>a b. fst a < fst b) (map (\<lambda>pn. (pn, f pn)) [1..n])"
      using sorted_upto [of 1 n] by (simp add: sorted_by_def sorted_wrt_map not_less)
  qed auto
  finally show ?thesis .
qed

lemma stream_ok_reference:
  assumes "stream_inv E s" "stream_final s" "ss_failed s = None" "ss_read_err s = None"
  shows "stream_result sha256 s = Inr (stream_reference sha256 E)
    \<and> se_body_err E = None \<and> int (part_count E) \<le> max_upload_parts
    \<and> (\<forall>pn \<in> {1..int (part_count E)}. \<exists>etag. se_upload_part E pn (part_data E pn) = Inr etag)"
proof -
  have b: "se_body E = ss_hashed s" "ss_total s = int (length (ss_hashed s))" "0 \<le> ss_part_num s"
    "se_body_err E = None" "ss_part_num s \<le> max_upload_parts"
    "nat (ss_part_num s) * se_part_size E < length (ss_hashed s) + se_part_size E"
    "length (ss_hashed s) \<le> nat (ss_part_num s) * se_part_size E"
    using assms by (auto simp: stream_inv_def bytes_inv_def stream_final_def)
  have n: "int (part_count E) = ss_part_num s" using div_bounds [OF b(6,7)] b(1,3) by (simp add: part_count_def)
  have m: "mset (map fst (ss_parts s)) = mset [1..ss_part_num s]"
    using assms b(5) by (auto simp: stream_inv_def parts_inv_def stream_final_def dispatched_def min_def)
  have p: "\<forall>p \<in> set (ss_parts s). se_upload_part E (fst p) (part_data E (fst p)) = Inr (snd p)"
    using assms(1) by (simp add: stream_inv_def parts_inv_def)
  then have "\<forall>p \<in> set (ss_parts s). snd p = part_tag E (fst p)" by (simp add: part_tag_def)
  from sorted_parts [OF this m] have "stream_result sha256 s = Inr (stream_reference sha256 E)"
    using assms(3,4) b n by (simp add: stream_result_def stream_reference_def)
  moreover have "fst ` set (ss_parts s) = {1..int (part_count E)}"
    using m n by (metis list.set_map mset_eq_setD set_upto)
  then have "\<forall>pn \<in> {1..int (part_count E)}. \<exists>etag. se_upload_part E pn (part_data E pn) = Inr etag"
    using p by force
  ultimately show ?thesis using b(4,5) n by simp
qed

text \<open>A failure has a cause: a part that failed, the end of the body, the part limit, or a cancellation.\<close>

definition fault_inv :: "stream_env \<Rightarrow> stream_state \<Rightarrow> bool" where
  "fault_inv E s \<longleftrightarrow>
     (ss_failed s \<noteq> None \<longrightarrow> ss_canceled s \<or> (\<exists>p \<in> UNIV \<times> UNIV. \<exists>e. se_upload_part E (fst p) (snd p) = Inl e
        \<and> snd p = part_data E (fst p) \<and> 1 \<le> fst p \<and> fst p \<le> max_upload_parts))
     \<and> (ss_read_err s \<noteq> None \<longrightarrow> group_done s \<or> se_body_err E \<noteq> None \<or> ss_part_num s > max_upload_parts)
     \<and> (ss_part_num s > max_upload_parts \<longrightarrow> nat max_upload_parts * se_part_size E < length (se_body E) \<or> se_part_size E = 0)"

lemma running_part:
  assumes "stream_inv E s" "p \<in> set (ss_running s)" "ss_failed s = None"
  shows "snd p = part_data E (fst p)" "1 \<le> fst p" "fst p \<le> max_upload_parts"
proof -
  show "snd p = part_data E (fst p)" using assms by (simp add: stream_inv_def parts_inv_def)
  have "mset (map fst (ss_running s)) + mset (map fst (ss_parts s)) = mset [1..dispatched s]"
    using assms by (simp add: stream_inv_def parts_inv_def)
  then have "set_mset (mset (map fst (ss_running s)) + mset (map fst (ss_parts s))) = {1..dispatched s}"
    by (metis set_mset_mset set_upto)
  then have "fst p \<in> {1..dispatched s}" using assms(2) by auto
  then show "1 \<le> fst p" "fst p \<le> max_upload_parts" by (auto simp: dispatched_def)
qed

lemma dispatch_fault:
  assumes "stream_inv E s" "ss_loop s = Reading" "fault_inv E s" "ss_rest s \<noteq> [] \<or> se_part_size E = 0"
  shows "fault_inv E (dispatch s data next)"
proof (cases "ss_part_num s + 1 > max_upload_parts")
  case True
  have b: "se_body E = ss_hashed s @ ss_rest s" "ss_part_num s \<le> max_upload_parts"
    "length (ss_hashed s) = nat (ss_part_num s) * se_part_size E"
    using assms(1,2) by (auto simp: stream_inv_def bytes_inv_def)
  then have "ss_part_num s = max_upload_parts" using True by simp
  then have "nat max_upload_parts * se_part_size E < length (se_body E) \<or> se_part_size E = 0"
    using b(1,3) assms(4) by auto
  then show ?thesis using True assms(3) by (simp add: dispatch_def Let_def fault_inv_def group_done_def)
next
  case False
  have "ss_read_err s = None" using assms(1,2) by (auto simp: stream_inv_def bytes_inv_def)
  then show ?thesis using False assms(3) by (simp add: dispatch_def Let_def fault_inv_def group_done_def)
qed

lemma part_error_fault:
  assumes "stream_inv E s" "fault_inv E s" "p \<in> set (ss_running s)"
    and "se_upload_part E (fst p) (snd p) = Inl e \<or> group_done s"
  shows "fault_inv E (part_error s p e)"
proof (cases "ss_failed s")
  case (Some x)
  then show ?thesis using assms(2) by (simp add: part_error_def fault_inv_def group_done_def)
next
  case None
  have "ss_canceled s \<or> (\<exists>p \<in> UNIV \<times> UNIV. \<exists>e. se_upload_part E (fst p) (snd p) = Inl e
        \<and> snd p = part_data E (fst p) \<and> 1 \<le> fst p \<and> fst p \<le> max_upload_parts)"
    using assms(4) running_part [OF assms(1,3) None] None by (auto simp: group_done_def)
  then show ?thesis using None assms(2) by (simp add: part_error_def fault_inv_def group_done_def)
qed

lemma stop_reading_fault:
  assumes "fault_inv E s" "e = None \<or> group_done s \<or> se_body_err E \<noteq> None"
  shows "fault_inv E (stop_reading s e)"
  using assms by (auto simp: stop_reading_def fault_inv_def group_done_def)

lemma read_part_fault:
  assumes "stream_inv E s" "ss_loop s = Reading" "fault_inv E s"
  shows "fault_inv E (read_part E s)"
proof -
  have "ss_rest s \<noteq> [] \<or> se_part_size E = 0" if "se_part_size E \<le> length (ss_rest s)" using that by auto
  then show ?thesis
    unfolding read_part_def
    using dispatch_fault [OF assms] stop_reading_fault [OF assms(3)] by (auto split: option.split)
qed

lemma stream_step_fault: "stream_step E s t \<Longrightarrow> stream_inv E s \<Longrightarrow> fault_inv E s \<Longrightarrow> fault_inv E t"
proof (induction rule: stream_step.induct)
  case (read_canceled s)
  then show ?case by (intro stop_reading_fault) simp_all
next
  case (part_ok p s etag)
  then show ?case by (simp add: part_done_def fault_inv_def group_done_def)
next
  case (part_err p s e)
  then show ?case by (intro part_error_fault) simp_all
next
  case (part_canceled p s)
  then show ?case by (intro part_error_fault) simp_all
next
  case (read s)
  then show ?case by (intro read_part_fault)
qed (simp_all add: fault_inv_def group_done_def)

lemma stream_runs_fault: "stream_runs E s \<Longrightarrow> fault_inv E s"
  unfolding stream_runs_def
proof (induction rule: rtranclp_induct)
  case base
  show ?case by (simp add: fault_inv_def stream_init_def max_upload_parts_def)
next
  case (step s t)
  then show ?case using stream_runs_inv [of E s] stream_step_fault unfolding stream_runs_def by blast
qed

lemma uncanceled_reference:
  assumes "stream_runs E s" "stream_final s" "\<not> ss_canceled s" "se_body_err E = None" "0 < se_part_size E"
    and "length (se_body E) \<le> nat max_upload_parts * se_part_size E"
    and "\<forall>pn \<in> {1..max_upload_parts}. \<exists>etag. se_upload_part E pn (part_data E pn) = Inr etag"
  shows "stream_result sha256 s = Inr (stream_reference sha256 E)"
proof -
  have inv: "stream_inv E s" "fault_inv E s" using stream_runs_inv stream_runs_fault assms(1) by blast+
  have "ss_failed s = None"
  proof (rule ccontr)
    assume "ss_failed s \<noteq> None"
    then obtain pn e where "se_upload_part E pn (part_data E pn) = Inl e" "1 \<le> pn" "pn \<le> max_upload_parts"
      using inv(2) assms(3-6) by (auto simp: fault_inv_def)
    then show False using assms(7) by (metis Inl_Inr_False atLeastAtMost_iff)
  qed
  moreover from this have "ss_read_err s = None" using inv(2) assms(3-6) by (auto simp: fault_inv_def group_done_def)
  ultimately show ?thesis using stream_ok_reference [OF inv(1) assms(2)] by blast
qed

subsection \<open>Properties\<close>

text \<open>C4: the outcome of streaming is that of the sequential reference, in every interleaving of the
  read loop, the uploading goroutines and cancellation: a run that ends without an error has
  read the whole body to its clean end, returns every part once, in order, with the tag the
  store gave for exactly those bytes, and the size and hash of the whole body; and a run that
  ends ends that way if the body ends cleanly, fits into 10000 parts, every part is accepted
  and the run is not canceled.\<close>

theorem stream_equals_reference:
  assumes "stream_runs E s" "stream_final s"
  shows "(\<forall>r. stream_result sha256 s = Inr r \<longrightarrow> r = stream_reference sha256 E \<and> se_body_err E = None
       \<and> int (part_count E) \<le> max_upload_parts
       \<and> (\<forall>pn \<in> {1..int (part_count E)}. \<exists>etag. se_upload_part E pn (part_data E pn) = Inr etag))
    \<and> (\<not> ss_canceled s \<and> se_body_err E = None \<and> 0 < se_part_size E
       \<and> length (se_body E) \<le> nat max_upload_parts * se_part_size E
       \<and> (\<forall>pn \<in> {1..max_upload_parts}. \<exists>etag. se_upload_part E pn (part_data E pn) = Inr etag)
       \<longrightarrow> stream_result sha256 s = Inr (stream_reference sha256 E))"
proof (intro conjI allI impI)
  have inv: "stream_inv E s" "fault_inv E s" using stream_runs_inv stream_runs_fault assms(1) by blast+
  {
    fix r assume "stream_result sha256 s = Inr r"
    then have "ss_failed s = None" "ss_read_err s = None"
      by (auto simp: stream_result_def split: option.splits)
    then show "r = stream_reference sha256 E" "se_body_err E = None" "int (part_count E) \<le> max_upload_parts"
      "\<forall>pn \<in> {1..int (part_count E)}. \<exists>etag. se_upload_part E pn (part_data E pn) = Inr etag"
      using stream_ok_reference [OF inv(1) assms(2), of sha256] \<open>stream_result sha256 s = Inr r\<close> by auto
  }
  assume c: "\<not> ss_canceled s \<and> se_body_err E = None \<and> 0 < se_part_size E
       \<and> length (se_body E) \<le> nat max_upload_parts * se_part_size E
       \<and> (\<forall>pn \<in> {1..max_upload_parts}. \<exists>etag. se_upload_part E pn (part_data E pn) = Inr etag)"
  then show "stream_result sha256 s = Inr (stream_reference sha256 E)"
    using uncanceled_reference [OF assms] by blast
qed


text \<open>C34: bounded memory: at any time of any interleaving no more part buffers are in use than the
  configured concurrency, the one the loop reads into included, each of at most the part
  size, and no part number exceeds the limit of S3.\<close>

theorem stream_memory_bound:
  assumes "stream_runs E s"
  shows "length (ss_running s) + (if ss_loop s = Reading then 1 else 0) \<le> se_concurrency E
    \<and> (\<forall>p \<in> set (ss_running s). length (snd p) \<le> se_part_size E)
    \<and> (\<forall>p \<in> set (ss_running s). ss_failed s = None \<longrightarrow> 1 \<le> fst p \<and> fst p \<le> max_upload_parts)"
proof -
  have inv: "stream_inv E s" using stream_runs_inv [OF assms] .
  then have "\<forall>p \<in> set (ss_running s). length (snd p) \<le> se_part_size E"
    by (auto simp: stream_inv_def parts_inv_def part_data_def)
  then show ?thesis using inv running_part [OF inv] by (auto simp: stream_inv_def slots_inv_def)
qed

text \<open>A run of two parts that finish in the other order.\<close>

definition sample_env :: stream_env where
  "sample_env = \<lparr>se_part_size = 2, se_concurrency = 2, se_body = ''abc'', se_body_err = None,
     se_upload_part = (\<lambda>pn data. Inr (''etag-'' @ itoa pn))\<rparr>"

definition sample_reading :: "stream_state \<Rightarrow> stream_state" where
  "sample_reading s = s\<lparr>ss_loop := Reading, ss_slots := ss_slots s + 1\<rparr>"

definition sample_both :: stream_state where
  "sample_both = read_part sample_env (sample_reading (read_part sample_env (sample_reading (stream_init sample_env))))"

definition sample_end :: stream_state where
  "sample_end = part_done (part_done sample_both (2, ''c'') ''etag-2'') (1, ''ab'') ''etag-1''"

lemma sample_both_steps: "(stream_step sample_env ^^ 4) (stream_init sample_env) sample_both"
proof -
  let ?a = "stream_init sample_env"
  have "stream_step sample_env ?a (sample_reading ?a)"
    unfolding sample_reading_def by (rule stream_step.acquire) code_simp+
  moreover have "stream_step sample_env (sample_reading ?a) (read_part sample_env (sample_reading ?a))"
    by (rule stream_step.read) code_simp
  moreover have "stream_step sample_env (read_part sample_env (sample_reading ?a))
      (sample_reading (read_part sample_env (sample_reading ?a)))"
    unfolding sample_reading_def [of "read_part _ _"] by (rule stream_step.acquire) code_simp+
  moreover have "stream_step sample_env (sample_reading (read_part sample_env (sample_reading ?a))) sample_both"
    unfolding sample_both_def by (rule stream_step.read) code_simp
  ultimately show ?thesis by (auto simp: numeral_eq_Suc)
qed

lemma sample_runs: "stream_runs sample_env sample_end"
proof -
  have "stream_step sample_env sample_both (part_done sample_both (2, ''c'') ''etag-2'')"
    by (rule stream_step.part_ok) code_simp+
  moreover have "stream_step sample_env (part_done sample_both (2, ''c'') ''etag-2'') sample_end"
    unfolding sample_end_def by (rule stream_step.part_ok) code_simp+
  ultimately show ?thesis
    unfolding stream_runs_def
    by (meson sample_both_steps relpowp_imp_rtranclp rtranclp.rtrancl_into_rtrancl)
qed

lemma sample_final: "stream_final sample_end" by code_simp

theorem stream_equals_reference_witness:
  "stream_result (\<lambda>s. s) sample_end = Inr ([(1, ''etag-1''), (2, ''etag-2'')], 3, ''abc'')"
proof -
  have "stream_result (\<lambda>s. s) sample_end = Inr (stream_reference (\<lambda>s. s) sample_env)"
    using stream_equals_reference [OF sample_runs sample_final, of "\<lambda>s. s"]
    by (auto simp: sample_env_def max_upload_parts_def sample_end_def part_done_def sample_both_def
        read_part_def dispatch_def sample_reading_def stream_init_def Let_def)
  moreover have "stream_reference (\<lambda>s. s) sample_env = ([(1, ''etag-1''), (2, ''etag-2'')], 3, ''abc'')"
    by code_simp
  ultimately show ?thesis by simp
qed


theorem stream_memory_bound_witness: "length (ss_running sample_end) \<le> se_concurrency sample_env"
  using stream_memory_bound [OF sample_runs] by simp

end
