(* ===== verification/Upload.thy ===== *)
theory Upload
  imports Stream
begin

section \<open>The multipart lifecycle\<close>

text \<open>
  The rest of \<open>pipeline/upload.go\<close>: \<open>upload\<close> from the creation of the multipart upload to its
  completion or abort, the reconciliation of an ambiguous completion, the verified abort and
  the single put of the manifest. The operations of \<open>s3API\<close> answer from the calls made so far;
  the part requests of a run are one event, because their order is that of the scheduler. The
  locale \<open>multipart_store\<close> has the laws that reconciliation relies on; the fake of
  \<open>pipeline/upload_test.go\<close> is its interpretation.
\<close>

datatype upload_call =
    CreateCall string string
  | PartCalls string string string
  | CompleteCall string string string "(int \<times> string) list"
  | AbortCall string string string
  | ListPartsCall string string string
  | HeadCall string string
  | PutCall string string string string

type_synonym uploads = "upload_call list"

text \<open>An error of the SDK, as far as \<open>isNoSuchUpload\<close> inspects it.\<close>

record sdk_error =
  sx_err :: goerr
  sx_typed_no_such_upload :: bool
  sx_api_code :: "string option"

record multipart_api =
  mp_create :: "uploads \<Rightarrow> string \<Rightarrow> string \<Rightarrow> goerr + string"
  mp_part :: "uploads \<Rightarrow> string \<Rightarrow> string \<Rightarrow> string \<Rightarrow> int \<Rightarrow> string \<Rightarrow> goerr + string"
  mp_complete :: "uploads \<Rightarrow> string \<Rightarrow> string \<Rightarrow> string \<Rightarrow> (int \<times> string) list \<Rightarrow> goerr option"
  mp_list_parts :: "uploads \<Rightarrow> string \<Rightarrow> string \<Rightarrow> string \<Rightarrow> sdk_error option"
  mp_head :: "uploads \<Rightarrow> string \<Rightarrow> string \<Rightarrow> goerr option"
  mp_put :: "uploads \<Rightarrow> string \<Rightarrow> string \<Rightarrow> string \<Rightarrow> string \<Rightarrow> goerr option"

definition is_no_such_upload :: "sdk_error option \<Rightarrow> bool" where
  "is_no_such_upload err \<longleftrightarrow>
     (case err of None \<Rightarrow> False
      | Some e \<Rightarrow> sx_typed_no_such_upload e \<or> sx_api_code e = Some ''NoSuchUpload'')"

fun abort_attempts :: "nat \<Rightarrow> multipart_api \<Rightarrow> string \<Rightarrow> string \<Rightarrow> string \<Rightarrow> uploads \<Rightarrow> uploads" where
  "abort_attempts 0 api bucket key uid tr = tr"
| "abort_attempts (Suc n) api bucket key uid tr =
     (let tr1 = tr @ [AbortCall bucket key uid]; tr2 = tr1 @ [ListPartsCall bucket key uid] in
      if is_no_such_upload (mp_list_parts api tr1 bucket key uid) then tr2
      else abort_attempts n api bucket key uid tr2)"

definition abort_upload :: "multipart_api \<Rightarrow> string \<Rightarrow> string \<Rightarrow> string \<Rightarrow> uploads \<Rightarrow> uploads" where
  "abort_upload = abort_attempts 3"

definition object_exists :: "multipart_api \<Rightarrow> string \<Rightarrow> string \<Rightarrow> uploads \<Rightarrow> bool" where
  "object_exists api bucket key tr \<longleftrightarrow> mp_head api tr bucket key = None"

definition put_object :: "multipart_api \<Rightarrow> string \<Rightarrow> string \<Rightarrow> string \<Rightarrow> string \<Rightarrow> uploads \<Rightarrow> goerr option \<times> uploads" where
  "put_object api bucket key body content_type tr =
     (mp_put api tr bucket key body content_type, tr @ [PutCall bucket key body content_type])"

text \<open>\<open>upload\<close>; \<open>streamed uid\<close> is the outcome of \<open>streamParts\<close> for the upload id.\<close>

definition upload :: "multipart_api \<Rightarrow> string \<Rightarrow> string \<Rightarrow> (string \<Rightarrow> goerr + ((int \<times> string) list \<times> int \<times> string))
    \<Rightarrow> uploads \<Rightarrow> (goerr + (int \<times> string)) \<times> uploads" where
  "upload api bucket key streamed tr =
     (let tr1 = tr @ [CreateCall bucket key] in
      case mp_create api tr bucket key of
        Inl e \<Rightarrow> (Inl (classify KindUpload ''create multipart upload: %w'' [] (Some e)), tr1)
      | Inr uid \<Rightarrow>
          (let tr2 = tr1 @ [PartCalls bucket key uid] in
           case streamed uid of
             Inl e \<Rightarrow> (Inl e, abort_upload api bucket key uid tr2)
           | Inr (parts, bytes, digest) \<Rightarrow>
               (let tr3 = tr2 @ [CompleteCall bucket key uid parts] in
                case mp_complete api tr2 bucket key uid parts of
                  None \<Rightarrow> (Inr (bytes, digest), tr3)
                | Some cerr \<Rightarrow>
                    (let tr4 = tr3 @ [HeadCall bucket key] in
                     if object_exists api bucket key tr3 then (Inr (bytes, digest), tr4)
                     else (Inl (classify KindUpload ''complete multipart upload: %w'' [] (Some cerr)),
                           abort_upload api bucket key uid tr4)))))"

text \<open>The surroundings of the streaming of one upload, and an outcome it can have.\<close>

record uploader =
  up_part_size :: nat
  up_concurrency :: nat

definition stream_env_of :: "multipart_api \<Rightarrow> uploader \<Rightarrow> string \<Rightarrow> string \<Rightarrow> string \<times> goerr option \<Rightarrow> uploads \<Rightarrow> string
    \<Rightarrow> stream_env" where
  "stream_env_of api u bucket key body tr uid =
     \<lparr>se_part_size = up_part_size u, se_concurrency = up_concurrency u, se_body = fst body, se_body_err = snd body,
      se_upload_part = mp_part api (tr @ [CreateCall bucket key]) bucket key uid\<rparr>"

definition streams_to :: "multipart_api \<Rightarrow> uploader \<Rightarrow> string \<Rightarrow> string \<Rightarrow> string \<times> goerr option \<Rightarrow> uploads
    \<Rightarrow> (string \<Rightarrow> string) \<Rightarrow> (string \<Rightarrow> goerr + ((int \<times> string) list \<times> int \<times> string)) \<Rightarrow> bool" where
  "streams_to api u bucket key body tr sha256 streamed \<longleftrightarrow>
     (\<forall>uid. \<exists>s. stream_runs (stream_env_of api u bucket key body tr uid) s \<and> stream_final s
        \<and> streamed uid = stream_result sha256 s)"

subsection \<open>The calls of an upload\<close>

lemma abort_attempts_calls:
  "\<exists>m \<le> n. abort_attempts n api bucket key uid tr
     = tr @ concat (replicate m [AbortCall bucket key uid, ListPartsCall bucket key uid])
   \<and> (0 < n \<longrightarrow> 0 < m)
   \<and> (m < n \<longrightarrow> is_no_such_upload (mp_list_parts api
        (tr @ concat (replicate (m - 1) [AbortCall bucket key uid, ListPartsCall bucket key uid]) @ [AbortCall bucket key uid])
        bucket key uid))"
proof (induction n arbitrary: tr)
  case (Suc n)
  let ?c = "[AbortCall bucket key uid, ListPartsCall bucket key uid]"
  show ?case
  proof (cases "is_no_such_upload (mp_list_parts api (tr @ [AbortCall bucket key uid]) bucket key uid)")
    case True
    then show ?thesis by (intro exI [of _ 1]) (simp add: Let_def)
  next
    case False
    obtain m where m: "m \<le> n" "abort_attempts n api bucket key uid (tr @ ?c) = (tr @ ?c) @ concat (replicate m ?c)"
      "0 < n \<longrightarrow> 0 < m"
      "m < n \<longrightarrow> is_no_such_upload (mp_list_parts api ((tr @ ?c) @ concat (replicate (m - 1) ?c) @ [AbortCall bucket key uid]) bucket key uid)"
      using Suc.IH [of "tr @ ?c"] by blast
    have "Suc m < Suc n \<Longrightarrow> concat (replicate (Suc m - 1) ?c) = ?c @ concat (replicate (m - 1) ?c)"
      using m(3) by (cases m) auto
    then show ?thesis using m False by (intro exI [of _ "Suc m"]) (auto simp: Let_def)
  qed
qed simp

definition aborts :: "string \<Rightarrow> string \<Rightarrow> string \<Rightarrow> nat \<Rightarrow> uploads" where
  "aborts bucket key uid m = concat (replicate m [AbortCall bucket key uid, ListPartsCall bucket key uid])"

lemma set_aborts: "set (aborts bucket key uid m) \<subseteq> {AbortCall bucket key uid, ListPartsCall bucket key uid}"
  by (induction m) (auto simp: aborts_def)

lemma abort_upload_calls:
  obtains m where "abort_upload api bucket key uid tr = tr @ aborts bucket key uid m" "1 \<le> m" "m \<le> 3"
    "m < 3 \<Longrightarrow> is_no_such_upload (mp_list_parts api
        (tr @ aborts bucket key uid (m - 1) @ [AbortCall bucket key uid]) bucket key uid)"
proof -
  obtain m where "m \<le> 3" "abort_attempts 3 api bucket key uid tr
     = tr @ concat (replicate m [AbortCall bucket key uid, ListPartsCall bucket key uid])"
   "(0 :: nat) < 3 \<longrightarrow> 0 < m"
   "m < 3 \<longrightarrow> is_no_such_upload (mp_list_parts api
        (tr @ concat (replicate (m - 1) [AbortCall bucket key uid, ListPartsCall bucket key uid]) @ [AbortCall bucket key uid])
        bucket key uid)"
    using abort_attempts_calls [of 3] by blast
  then show thesis by (intro that [of m]) (auto simp: abort_upload_def aborts_def)
qed

text \<open>What streaming gives without an error is the whole body.\<close>

lemma streamed_whole:
  assumes "streams_to api u bucket key body tr sha256 streamed" "streamed uid = Inr (parts, n, h)"
  shows "snd body = None \<and> (parts, n, h) = stream_reference sha256 (stream_env_of api u bucket key body tr uid)"
proof -
  obtain s where s: "stream_runs (stream_env_of api u bucket key body tr uid) s" "stream_final s"
    "streamed uid = stream_result sha256 s" using assms(1) by (auto simp: streams_to_def)
  then have i: "stream_inv (stream_env_of api u bucket key body tr uid) s" using stream_runs_inv by blast
  have "ss_failed s = None" "ss_read_err s = None"
    using s(3) assms(2) by (auto simp: stream_result_def split: option.splits)
  then show ?thesis
    using stream_ok_reference [OF i s(2), of sha256] s(3) assms(2) by (simp add: stream_env_of_def)
qed

text \<open>The ways an upload can go.\<close>

lemma upload_cases:
  assumes "upload api bucket key streamed tr = (r, tr')"
  obtains (create) e where "r = Inl (classify KindUpload ''create multipart upload: %w'' [] (Some e))"
      "tr' = tr @ [CreateCall bucket key]" "mp_create api tr bucket key = Inl e"
    | (stream) uid e where "mp_create api tr bucket key = Inr uid" "streamed uid = Inl e" "r = Inl e"
      "tr' = abort_upload api bucket key uid (tr @ [CreateCall bucket key, PartCalls bucket key uid])"
    | (ok) uid parts bytes digest where "mp_create api tr bucket key = Inr uid" "streamed uid = Inr (parts, bytes, digest)"
      "mp_complete api (tr @ [CreateCall bucket key, PartCalls bucket key uid]) bucket key uid parts = None"
      "r = Inr (bytes, digest)" "tr' = tr @ [CreateCall bucket key, PartCalls bucket key uid, CompleteCall bucket key uid parts]"
    | (reconciled) uid parts bytes digest where "mp_create api tr bucket key = Inr uid" "streamed uid = Inr (parts, bytes, digest)"
      "mp_head api (tr @ [CreateCall bucket key, PartCalls bucket key uid, CompleteCall bucket key uid parts]) bucket key = None"
      "r = Inr (bytes, digest)"
      "tr' = tr @ [CreateCall bucket key, PartCalls bucket key uid, CompleteCall bucket key uid parts, HeadCall bucket key]"
    | (failed) uid parts bytes digest cerr where "mp_create api tr bucket key = Inr uid" "streamed uid = Inr (parts, bytes, digest)"
      "mp_complete api (tr @ [CreateCall bucket key, PartCalls bucket key uid]) bucket key uid parts = Some cerr"
      "mp_head api (tr @ [CreateCall bucket key, PartCalls bucket key uid, CompleteCall bucket key uid parts]) bucket key \<noteq> None"
      "r = Inl (classify KindUpload ''complete multipart upload: %w'' [] (Some cerr))"
      "tr' = abort_upload api bucket key uid
         (tr @ [CreateCall bucket key, PartCalls bucket key uid, CompleteCall bucket key uid parts, HeadCall bucket key])"
  using assms
  by (auto simp: upload_def Let_def object_exists_def split: sum.splits prod.splits option.splits if_splits)

subsection \<open>The contract of a multipart store\<close>

text \<open>
  \<open>stored\<close> says whether the object is in the bucket. Only a completion creates it, a successful
  one always does, and \<open>HeadObject\<close> tells the truth. Under these laws an upload reports success
  exactly if the object is there.
\<close>

locale multipart_store =
  fixes api :: multipart_api and bucket :: string and key :: string and stored :: "uploads \<Rightarrow> bool"
  assumes only_complete: "\<forall>b k uid parts. c \<noteq> CompleteCall b k uid parts \<Longrightarrow> stored (tr @ [c]) = stored tr"
    and complete_stores: "mp_complete api tr bucket key uid parts = None \<Longrightarrow> stored (tr @ [CompleteCall bucket key uid parts])"
    and head_faithful: "mp_head api tr bucket key = None \<longleftrightarrow> stored tr"
begin

lemma stored_frame:
  "\<forall>c \<in> set cs. \<forall>b k uid parts. c \<noteq> CompleteCall b k uid parts \<Longrightarrow> stored (tr @ cs) = stored tr"
proof (induction cs arbitrary: tr)
  case (Cons c cs)
  then show ?case using Cons.IH [of "tr @ [c]"] only_complete [of c tr] by simp
qed simp

lemma stored_abort: "stored (abort_upload api bucket key uid tr) = stored tr"
proof -
  obtain m where "abort_upload api bucket key uid tr = tr @ aborts bucket key uid m" by (rule abort_upload_calls)
  then show ?thesis using stored_frame [of "aborts bucket key uid m" tr] set_aborts [of bucket key uid m] by auto
qed

lemma upload_reports_stored:
  assumes "upload api bucket key streamed tr = (r, tr')" "\<not> stored tr"
  shows "(\<exists>x. r = Inr x) \<longleftrightarrow> stored tr'"
  using assms(1)
proof (cases rule: upload_cases)
  case (create e)
  then show ?thesis using assms(2) stored_frame [of "[CreateCall bucket key]" tr] by simp
next
  case (stream uid e)
  then show ?thesis
    using assms(2) stored_abort stored_frame [of "[CreateCall bucket key, PartCalls bucket key uid]" tr] by simp
next
  case (ok uid parts bytes digest)
  then show ?thesis
    using complete_stores [of "tr @ [CreateCall bucket key, PartCalls bucket key uid]"] by simp
next
  case (reconciled uid parts bytes digest)
  then show ?thesis
    using head_faithful only_complete [of "HeadCall bucket key"
        "tr @ [CreateCall bucket key, PartCalls bucket key uid, CompleteCall bucket key uid parts]"] by simp
next
  case (failed uid parts bytes digest cerr)
  then show ?thesis
    using head_faithful stored_abort only_complete [of "HeadCall bucket key"
        "tr @ [CreateCall bucket key, PartCalls bucket key uid, CompleteCall bucket key uid parts]"] by simp
qed

end

subsection \<open>The store of the tests\<close>

text \<open>\<open>fakeS3\<close> of \<open>pipeline/upload_test.go\<close>: one object, with errors switched on per operation; the
  object can be completed although the response is an error.\<close>

record fake_s3 =
  f3_on_create :: "goerr option"
  f3_on_part :: "int \<Rightarrow> goerr option"
  f3_on_complete :: "goerr option"
  f3_complete_creates :: bool

definition fake_object :: "fake_s3 \<Rightarrow> uploads \<Rightarrow> bool" where
  "fake_object f tr \<longleftrightarrow> (f3_on_complete f = None \<or> f3_complete_creates f)
     \<and> list_ex (\<lambda>c. case c of CompleteCall _ _ _ _ \<Rightarrow> True | _ \<Rightarrow> False) tr"

definition fake_aborted :: "uploads \<Rightarrow> bool" where
  "fake_aborted tr \<longleftrightarrow> list_ex (\<lambda>c. case c of AbortCall _ _ _ \<Rightarrow> True | _ \<Rightarrow> False) tr"

definition fake_s3_api :: "fake_s3 \<Rightarrow> multipart_api" where
  "fake_s3_api f =
     \<lparr>mp_create = (\<lambda>tr b k. case f3_on_create f of Some e \<Rightarrow> Inl e | None \<Rightarrow> Inr ''up-1''),
      mp_part = (\<lambda>tr b k uid pn data. case f3_on_part f pn of Some e \<Rightarrow> Inl e | None \<Rightarrow> Inr (''etag-'' @ itoa pn)),
      mp_complete = (\<lambda>tr b k uid parts. f3_on_complete f),
      mp_list_parts = (\<lambda>tr b k uid.
        if fake_aborted tr
        then Some \<lparr>sx_err = Foreign ''NoSuchUpload'', sx_typed_no_such_upload = True, sx_api_code = None\<rparr> else None),
      mp_head = (\<lambda>tr b k. if fake_object f tr then None else Some (Foreign ''NotFound'')),
      mp_put = (\<lambda>tr b k body ct. None)\<rparr>"

interpretation fake3: multipart_store "fake_s3_api f" bucket key "fake_object f" for f bucket key
proof
  fix c tr uid parts
  show "fake_object f (tr @ [c]) = fake_object f tr" if "\<forall>b k uid parts. c \<noteq> CompleteCall b k uid parts"
    using that by (cases c) (simp_all add: fake_object_def)
  show "fake_object f (tr @ [CompleteCall bucket key uid parts])"
    if "mp_complete (fake_s3_api f) tr bucket key uid parts = None"
    using that by (simp add: fake_object_def fake_s3_api_def)
  show "(mp_head (fake_s3_api f) tr bucket key = None) = fake_object f tr"
    by (simp add: fake_s3_api_def)
qed

subsection \<open>Properties\<close>

text \<open>C5: a truncated backup is never completed: whatever the store answers and however the parts
  interleave, a multipart upload is completed at most once, only after the body was read to
  its clean end, with every part of it in order and with the tag the store gave for those
  bytes; success reports the size and the hash of the whole body.\<close>

theorem upload_completes_only_whole:
  assumes "streams_to api u bucket key body tr sha256 streamed" "upload api bucket key streamed tr = (r, tr')"
  shows "\<exists>cs. tr' = tr @ cs
    \<and> (\<forall>b k uid parts. CompleteCall b k uid parts \<in> set cs \<longrightarrow>
         b = bucket \<and> k = key \<and> snd body = None
         \<and> parts = fst (stream_reference sha256 (stream_env_of api u bucket key body tr uid)))
    \<and> length (filter (\<lambda>c. \<exists>b k uid parts. c = CompleteCall b k uid parts) cs) \<le> 1
    \<and> (\<forall>n h. r = Inr (n, h) \<longrightarrow> snd body = None \<and> n = int (length (fst body)) \<and> h = sha256 (fst body))"
proof -
  have ref: "snd body = None \<and> (parts, n, h) = stream_reference sha256 (stream_env_of api u bucket key body tr uid)"
    if "streamed uid = Inr (parts, n, h)" for uid parts n h
    by (rule streamed_whole [OF assms(1) that])
  have none: "filter (\<lambda>c. \<exists>b k uid parts. c = CompleteCall b k uid parts) (aborts bucket key uid m) = []" for uid m
    using set_aborts [of bucket key uid m] by (auto simp: filter_empty_conv)
  have notin: "CompleteCall b k i ps \<notin> set (aborts bucket key uid m)" for b k i ps uid m
    using set_aborts [of bucket key uid m] by auto
  from assms(2) show ?thesis
  proof (cases rule: upload_cases)
    case (create e)
    then show ?thesis by auto
  next
    case (stream uid e)
    obtain m where "tr' = (tr @ [CreateCall bucket key, PartCalls bucket key uid]) @ aborts bucket key uid m"
      using stream(4) abort_upload_calls by metis
    then show ?thesis using none notin stream(3) by (intro exI [of _ "[CreateCall bucket key, PartCalls bucket key uid] @ aborts bucket key uid m"]) auto
  next
    case (ok uid parts n h)
    then show ?thesis using ref [OF ok(2)] by (auto simp: stream_reference_def stream_env_of_def)
  next
    case (reconciled uid parts n h)
    then show ?thesis using ref [OF reconciled(2)] by (auto simp: stream_reference_def stream_env_of_def)
  next
    case (failed uid parts n h cerr)
    let ?cs = "[CreateCall bucket key, PartCalls bucket key uid, CompleteCall bucket key uid parts, HeadCall bucket key]"
    obtain m where "tr' = (tr @ ?cs) @ aborts bucket key uid m" using failed(6) abort_upload_calls by metis
    then show ?thesis
      using none notin failed(5) ref [OF failed(2)]
      by (intro exI [of _ "?cs @ aborts bucket key uid m"]) (auto simp: stream_reference_def)
  qed
qed


text \<open>C32: with the store of the tests, in every combination of its failures and whatever the body
  did, an upload reports success exactly if the object is in the bucket afterwards: a lost
  response to the completion is reconciled, and a failure leaves no object.\<close>

theorem upload_reports_the_object:
  assumes "upload (fake_s3_api f) bucket key streamed tr = (r, tr')" "\<not> fake_object f tr"
  shows "(\<exists>x. r = Inr x) \<longleftrightarrow> fake_object f tr'"
  by (rule fake3.upload_reports_stored [OF assms])

text \<open>A store that completes the object but loses the response, and whose \<open>HeadObject\<close> is down.\<close>

definition lossy_s3 :: fake_s3 where
  "lossy_s3 = \<lparr>f3_on_create = None, f3_on_part = (\<lambda>pn. None), f3_on_complete = Some (Foreign ''connection reset''),
     f3_complete_creates = True\<rparr>"

definition head_down :: multipart_api where
  "head_down = fake_s3_api lossy_s3\<lparr>mp_head := (\<lambda>tr b k. Some (Foreign ''timeout''))\<rparr>"

text \<open>The truth of \<open>HeadObject\<close> is needed for that: when the response to the completion is lost
  and the check for the object fails too, the upload is reported as failed, while the
  completed object stays in the bucket.\<close>

theorem failure_can_leave_object:
  "\<exists>e tr'. upload head_down bucket key (\<lambda>uid. Inr (parts, n, h)) [] = (Inl e, tr') \<and> fake_object lossy_s3 tr'"
proof -
  have api: "mp_create head_down tr b k = Inr ''up-1''" "mp_complete head_down tr b k uid ps = Some (Foreign ''connection reset'')"
    "mp_head head_down tr b k = Some (Foreign ''timeout'')" for tr b k uid ps
    by (simp_all add: head_down_def fake_s3_api_def lossy_s3_def)
  let ?t = "[CreateCall bucket key, PartCalls bucket key ''up-1'', CompleteCall bucket key ''up-1'' parts, HeadCall bucket key]"
  obtain m where m: "abort_upload head_down bucket key ''up-1'' ?t = ?t @ aborts bucket key ''up-1'' m"
    using abort_upload_calls by metis
  have "fake_object lossy_s3 (?t @ aborts bucket key ''up-1'' m)"
    by (simp add: fake_object_def lossy_s3_def)
  then show ?thesis using m api by (simp add: upload_def Let_def object_exists_def)
qed

definition good_s3 :: fake_s3 where
  "good_s3 = \<lparr>f3_on_create = None, f3_on_part = (\<lambda>pn. None), f3_on_complete = None, f3_complete_creates = False\<rparr>"

lemma good_env:
  "stream_env_of (fake_s3_api good_s3) \<lparr>up_part_size = 2, up_concurrency = 2\<rparr> b k (''abc'', None) tr uid = sample_env"
  by (simp add: stream_env_of_def sample_env_def fake_s3_api_def good_s3_def)

definition good_streamed :: "string \<Rightarrow> goerr + ((int \<times> string) list \<times> int \<times> string)" where
  "good_streamed uid = stream_result (\<lambda>s. s) sample_end"

lemma good_streams:
  "streams_to (fake_s3_api good_s3) \<lparr>up_part_size = 2, up_concurrency = 2\<rparr> ''b'' ''k'' (''abc'', None) [] (\<lambda>s. s) good_streamed"
  unfolding streams_to_def good_env good_streamed_def using sample_runs sample_final by blast

lemma good_upload:
  "upload (fake_s3_api good_s3) ''b'' ''k'' good_streamed [] =
     (Inr (3, ''abc''), [CreateCall ''b'' ''k'', PartCalls ''b'' ''k'' ''up-1'',
        CompleteCall ''b'' ''k'' ''up-1'' [(1, ''etag-1''), (2, ''etag-2'')]])"
proof -
  have "good_streamed ''up-1'' = Inr ([(1, ''etag-1''), (2, ''etag-2'')], 3, ''abc'')"
    unfolding good_streamed_def by code_simp
  then show ?thesis by (simp add: upload_def Let_def fake_s3_api_def good_s3_def)
qed

theorem upload_completes_only_whole_witness:
  "[(1, ''etag-1''), (2, ''etag-2'')] = fst (stream_reference (\<lambda>s. s) sample_env)"
  using upload_completes_only_whole [OF good_streams good_upload] by (auto simp: good_env)

lemma lossy_upload:
  "upload (fake_s3_api lossy_s3) ''b'' ''k'' (\<lambda>uid. Inl (Foreign ''broken'')) []
     = (Inl (Foreign ''broken''), [CreateCall ''b'' ''k'', PartCalls ''b'' ''k'' ''up-1'', AbortCall ''b'' ''k'' ''up-1'',
          ListPartsCall ''b'' ''k'' ''up-1''])"
  by (simp add: upload_def Let_def abort_upload_def numeral_3_eq_3 fake_s3_api_def lossy_s3_def fake_aborted_def
      is_no_such_upload_def)


theorem upload_reports_the_object_witness:
  "fake_object good_s3 [CreateCall ''b'' ''k'', PartCalls ''b'' ''k'' ''up-1'',
     CompleteCall ''b'' ''k'' ''up-1'' [(1, ''etag-1''), (2, ''etag-2'')]]"
proof -
  have "\<not> fake_object good_s3 []" by (simp add: fake_object_def)
  from upload_reports_the_object [OF good_upload this] show ?thesis by blast
qed

end
