(* ===== verification/RunPipeline.thy ===== *)
theory RunPipeline
  imports Diagnose Upload
begin

section \<open>One backup, end to end\<close>

text \<open>
  \<open>Run\<close> and \<open>feed\<close> of \<open>pipeline/pipeline.go\<close>, with \<open>dumpFailure\<close> of \<open>pipeline/dump.go\<close>, the
  capped buffer of \<open>pipeline/util.go\<close> and the phases of \<open>pipeline/progress.go\<close>. The process of
  the dump, compression and encryption are libraries and children: what they write and how they
  fail is a value of \<open>feed_env\<close>. \<open>feed\<close> turns it into the body of the upload, the bytes and the
  error the reading end of the pipe sees; what \<open>Run\<close> does with it is a function of the world.
\<close>

subsection \<open>The tail of the standard error\<close>

record capped_buffer =
  cb_max :: nat
  cb_buf :: string

definition new_capped_buffer :: "nat \<Rightarrow> capped_buffer" where
  "new_capped_buffer n = \<lparr>cb_max = n, cb_buf = []\<rparr>"

definition capped_write :: "string \<Rightarrow> capped_buffer \<Rightarrow> capped_buffer" where
  "capped_write p b =
     (let buf = cb_buf b @ p in
      b\<lparr>cb_buf := (if length buf > cb_max b then drop (length buf - cb_max b) buf else buf)\<rparr>)"

definition stderr_tail :: "string list \<Rightarrow> string" where
  "stderr_tail ws = cb_buf (fold capped_write ws (new_capped_buffer 8192))"

definition dump_failure :: "goerr \<Rightarrow> string \<Rightarrow> goerr" where
  "dump_failure wait_err tail_text =
     (let t = trim_space tail_text in
      if t = [] then classify KindDump ''pipeline: dump failed: %w'' [] (Some wait_err)
      else classify KindDump (''pipeline: dump failed: %w'' @ [CHR 0x0A] @ ''%s'') [t] (Some wait_err))"

subsection \<open>The feeding goroutine\<close>

text \<open>What the children and libraries of one run do: the errors of the starts, of the copy, of the
  dump's exit and of the two finalizations, and the ciphertext that is written before each.\<close>

record feed_env =
  fe_age_start :: "goerr option"
  fe_header :: string
  fe_zstd_start :: "goerr option"
  fe_streamed :: string
  fe_copy_err :: "goerr option"
  fe_wait_err :: "goerr option"
  fe_stderr :: "string list"
  fe_zstd_tail :: string
  fe_zstd_close :: "goerr option"
  fe_age_tail :: string
  fe_age_close :: "goerr option"

text \<open>The bytes in the pipe and the error that it is closed with; none is a clean end.\<close>

definition feed :: "feed_env \<Rightarrow> string \<times> goerr option" where
  "feed E =
     (case fe_age_start E of
        Some e \<Rightarrow> ([], Some (classify KindDump ''pipeline: start age: %w'' [] (Some e)))
      | None \<Rightarrow>
          (case fe_zstd_start E of
             Some e \<Rightarrow> (fe_header E, Some (classify KindDump ''pipeline: start zstd: %w'' [] (Some e)))
           | None \<Rightarrow>
               (let written = fe_header E @ fe_streamed E in
                case fe_copy_err E of
                  Some e \<Rightarrow> (written, Some (classify KindDump ''pipeline: streaming pg_dump output: %w'' [] (Some e)))
                | None \<Rightarrow>
                    (case fe_wait_err E of
                       Some e \<Rightarrow> (written, Some (dump_failure e (stderr_tail (fe_stderr E))))
                     | None \<Rightarrow>
                         (case fe_zstd_close E of
                            Some e \<Rightarrow> (written @ fe_zstd_tail E,
                              Some (classify KindDump ''pipeline: finalize zstd: %w'' [] (Some e)))
                          | None \<Rightarrow>
                              (case fe_age_close E of
                                 Some e \<Rightarrow> (written @ fe_zstd_tail E @ fe_age_tail E,
                                   Some (classify KindDump ''pipeline: finalize age: %w'' [] (Some e)))
                               | None \<Rightarrow> (written @ fe_zstd_tail E @ fe_age_tail E, None)))))))"

subsection \<open>The run\<close>

datatype phase = PhaseConnecting | PhaseStreaming | PhaseFinalizing | PhaseDone

definition phase_string :: "phase \<Rightarrow> string" where
  "phase_string p =
     (case p of PhaseConnecting \<Rightarrow> ''connecting'' | PhaseStreaming \<Rightarrow> ''streaming''
      | PhaseFinalizing \<Rightarrow> ''finalizing'' | PhaseDone \<Rightarrow> ''done'')"

record backup_result =
  br_backup_id :: string
  br_bucket :: string
  br_key :: string
  br_manifest_key :: string
  br_bytes :: int
  br_sha256 :: string

text \<open>Everything that is not in the configuration: databases and host, the clock, the ULID
  generator, the parser of age recipients, the SDK, pipe and start of the child, the streaming
  of the body, and whether the context of the caller has been canceled when the run returns.\<close>

record run_env =
  rv_world :: world
  rv_now :: gotime
  rv_ulid :: "gotime \<Rightarrow> goerr + string"
  rv_recipient :: "string \<Rightarrow> goerr option"
  rv_sdk :: "client_options \<Rightarrow> goerr + multipart_api"
  rv_pipe :: "goerr option"
  rv_start :: "command \<Rightarrow> goerr option"
  rv_feed :: feed_env
  rv_streamed :: "string \<Rightarrow> goerr + ((int \<times> string) list \<times> int \<times> string)"
  rv_canceled :: bool

record run_outcome =
  ro_result :: "goerr + backup_result"
  ro_calls :: uploads
  ro_warnings :: "string list"
  ro_phase :: phase

definition with_defaults :: "config \<Rightarrow> config" where
  "with_defaults cfg =
     cfg\<lparr>cfg_part_size := (if cfg_part_size cfg = 0 then default_part_size else cfg_part_size cfg),
         cfg_concurrency := (if cfg_concurrency cfg = 0 then default_concurrency else cfg_concurrency cfg),
         cfg_max_retries := (if cfg_max_retries cfg = 0 then default_max_retries else cfg_max_retries cfg),
         cfg_part_timeout := (if cfg_part_timeout cfg = 0 then default_part_timeout else cfg_part_timeout cfg)\<rparr>"

definition run_manifest :: "world \<Rightarrow> config \<Rightarrow> driver \<Rightarrow> gotime \<Rightarrow> string \<Rightarrow> string \<Rightarrow> int \<times> string \<Rightarrow> manifest" where
  "run_manifest w cfg drv now backup_id key out =
     \<lparr>mf_key_schema = key_schema_version, mf_backup_id = backup_id, mf_created_at = manifest_created_at now,
      mf_engine = drv_engine drv, mf_cluster = drv_cluster drv, mf_database = drv_database drv,
      mf_object = key, mf_format = dump_format drv, mf_dump_client = dump_client_version w drv,
      mf_dbferry_version = cfg_app_version cfg, mf_ciphertext_bytes = fst out, mf_ciphertext_sha256 = snd out,
      mf_part_size = cfg_part_size cfg, mf_concurrency = cfg_concurrency cfg\<rparr>"

definition manifest_write_failed :: "string \<Rightarrow> goerr \<Rightarrow> goerr" where
  "manifest_write_failed key e =
     classify KindUpload
       (''pipeline: backup object uploaded but manifest write failed; ''
        @ ''the backup is not valid and needs reconciliation (%s): %w'') [key] (Some e)"

text \<open>After the object has been uploaded: the manifest, then the result.\<close>

definition finish_run :: "run_env \<Rightarrow> config \<Rightarrow> multipart_api \<Rightarrow> driver \<Rightarrow> dest \<Rightarrow> string \<Rightarrow> string \<Rightarrow> int \<times> string
    \<Rightarrow> string list \<Rightarrow> uploads \<Rightarrow> run_outcome" where
  "finish_run V cfg api drv dst backup_id key out ws tr =
     (let mkey = manifest_key key;
          body = manifest_marshal (run_manifest (rv_world V) cfg drv (rv_now V) backup_id key out) in
      case put_object api (d_bucket dst) mkey body ''application/json'' tr of
        (Some e, tr') \<Rightarrow>
          \<lparr>ro_result = Inl (manifest_write_failed key e), ro_calls = tr', ro_warnings = ws, ro_phase = PhaseFinalizing\<rparr>
      | (None, tr') \<Rightarrow>
          \<lparr>ro_result = Inr \<lparr>br_backup_id = backup_id, br_bucket = d_bucket dst, br_key = key, br_manifest_key = mkey,
                            br_bytes = fst out, br_sha256 = snd out\<rparr>,
           ro_calls = tr', ro_warnings = ws, ro_phase = PhaseDone\<rparr>)"

definition failed_run :: "goerr \<Rightarrow> string list \<Rightarrow> run_outcome" where
  "failed_run e ws = \<lparr>ro_result = Inl e, ro_calls = [], ro_warnings = ws, ro_phase = PhaseConnecting\<rparr>"

text \<open>What is settled before anything is started: the driver as preflight leaves it, the
  destination, the id and key of the backup, and the client.\<close>

definition prepare_run :: "run_env \<Rightarrow> config \<Rightarrow> (goerr + (driver \<times> dest \<times> string \<times> string \<times> multipart_api)) \<times> string list" where
  "prepare_run V cfg =
     (case new_driver (cfg_dsn cfg) of
        Inl e \<Rightarrow> (Inl e, [])
      | Inr drv0 \<Rightarrow>
          (case drv_test_connection (rv_world V) drv0 of
             Some e \<Rightarrow> (Inl e, [])
           | None \<Rightarrow>
               (case drv_preflight (rv_world V) (cfg_allow_non_transactional cfg) drv0 of
                  (Inl e, ws) \<Rightarrow> (Inl e, ws)
                | (Inr drv, ws) \<Rightarrow>
                    (case parse_dest (cfg_dest cfg) of
                       Inl e \<Rightarrow> (Inl e, ws)
                     | Inr dst \<Rightarrow>
                         (case rv_recipient V (cfg_age_recipient cfg) of
                            Some e \<Rightarrow> (Inl (Errorf ''pipeline: parse age recipient: %w'' [] (Some e)), ws)
                          | None \<Rightarrow>
                              (case new_backup_id (rv_ulid V) (rv_now V) of
                                 Inl e \<Rightarrow> (Inl e, ws)
                               | Inr bid \<Rightarrow>
                                   (case new_s3_client (rv_sdk V) cfg of
                                      Inl e \<Rightarrow> (Inl e, ws)
                                    | Inr api \<Rightarrow>
                                        (Inr (drv, dst, bid,
                                           object_key dst (drv_engine drv) (drv_cluster drv) (drv_database drv) (rv_now V) bid,
                                           api), ws))))))))"

definition run_body :: "run_env \<Rightarrow> config \<Rightarrow> run_outcome" where
  "run_body V cfg =
     (case prepare_run V cfg of
        (Inl e, ws) \<Rightarrow> failed_run e ws
      | (Inr (drv, dst, bid, key, api), ws) \<Rightarrow>
          (let cmd = build_dump_command (h_environ (w_host (rv_world V))) drv in
           case rv_pipe V of
             Some e \<Rightarrow> failed_run (Errorf ''pipeline: dump stdout pipe: %w'' [] (Some e)) ws
           | None \<Rightarrow>
               (case rv_start V cmd of
                  Some e \<Rightarrow> failed_run (classify KindDump ''pipeline: start %s: %w'' [hd (cmd_args cmd)] (Some e)) ws
                | None \<Rightarrow>
                    (case upload api (d_bucket dst) key (rv_streamed V) [] of
                       (Inl e, tr) \<Rightarrow> \<lparr>ro_result = Inl e, ro_calls = tr, ro_warnings = ws, ro_phase = PhaseStreaming\<rparr>
                     | (Inr out, tr) \<Rightarrow> finish_run V cfg api drv dst bid key out ws tr))))"

text \<open>The deferred classification of a canceled run.\<close>

definition classify_canceled :: "bool \<Rightarrow> goerr \<Rightarrow> goerr" where
  "classify_canceled canceled e =
     (if canceled \<and> kind_of e \<noteq> KindCanceled
      then Classified KindCanceled (Errorf ''pipeline: backup canceled: %w'' [] (Some e)) else e)"

definition Run :: "run_env \<Rightarrow> config \<Rightarrow> run_outcome" where
  "Run V cfg =
     (let out = run_body V (with_defaults cfg) in
      case ro_result out of
        Inl e \<Rightarrow> out\<lparr>ro_result := Inl (classify_canceled (rv_canceled V) e)\<rparr>
      | Inr r \<Rightarrow> out)"

subsection \<open>The parts of a run\<close>

lemma last_bytes:
  "drop (length (drop (length xs - n) xs @ ys) - n) (drop (length xs - n) xs @ ys)
     = drop (length (xs @ ys) - n) (xs @ ys)"
proof (cases "length xs \<le> n")
  case False
  then have "drop (length xs - n) xs @ ys = drop (length xs - n) (xs @ ys)" by simp
  then show ?thesis using False by (simp only: drop_drop length_drop length_append) (simp add: add.commute)
qed simp

lemma capped_fold:
  "length (cb_buf b) \<le> cb_max b \<Longrightarrow>
     cb_buf (fold capped_write ws b) = drop (length (cb_buf b @ concat ws) - cb_max b) (cb_buf b @ concat ws)"
proof (induction ws arbitrary: b)
  case (Cons w ws)
  have max: "cb_max (capped_write w b) = cb_max b" by (simp add: capped_write_def Let_def)
  have buf: "cb_buf (capped_write w b) = drop (length (cb_buf b @ w) - cb_max b) (cb_buf b @ w)"
    by (simp add: capped_write_def Let_def)
  show ?case
    using Cons.IH [of "capped_write w b"] last_bytes [of "cb_buf b @ w" "cb_max b" "concat ws"]
    unfolding max buf by simp
qed simp

lemma feed_clean:
  "snd (feed E) = None \<longleftrightarrow> fe_age_start E = None \<and> fe_zstd_start E = None \<and> fe_copy_err E = None \<and> fe_wait_err E = None
     \<and> fe_zstd_close E = None \<and> fe_age_close E = None"
  by (auto simp: feed_def Let_def split: option.splits)

lemma feed_whole:
  "snd (feed E) = None \<Longrightarrow> fst (feed E) = fe_header E @ fe_streamed E @ fe_zstd_tail E @ fe_age_tail E"
  by (auto simp: feed_def Let_def split: option.splits)

lemma prepared:
  assumes "prepare_run V cfg = (Inr (drv, dst, bid, key, api), ws)"
  obtains drv0 u where "new_driver (cfg_dsn cfg) = Inr drv0" "drv_test_connection (rv_world V) drv0 = None"
    "drv_preflight (rv_world V) (cfg_allow_non_transactional cfg) drv0 = (Inr drv, ws)"
    "parse_dest (cfg_dest cfg) = Inr dst" "rv_ulid V (rv_now V) = Inr u" "bid = format_compact (rv_now V) @ ''-'' @ u"
    "key = object_key dst (drv_engine drv) (drv_cluster drv) (drv_database drv) (rv_now V) bid"
    "rv_sdk V (client_options cfg) = Inr api"
  using assms
  by (auto simp: prepare_run_def new_backup_id_def new_s3_client_def split: sum.splits option.splits prod.splits)

text \<open>The scope that listing and pruning derive is that of the backup.\<close>

lemma prepared_scope:
  assumes "prepare_run V cfg = (Inr (drv, dst, bid, key, api), ws)"
  shows "backup_scope cfg = Inr (drv.scope_of dst drv, dst,
    \<lparr>so_engine = drv_engine drv, so_cluster = drv_cluster drv, so_database = drv_database drv\<rparr>)"
  using assms
proof (rule prepared)
  fix drv0 assume "new_driver (cfg_dsn cfg) = Inr drv0" "parse_dest (cfg_dest cfg) = Inr dst"
    "drv_preflight (rv_world V) (cfg_allow_non_transactional cfg) drv0 = (Inr drv, ws)"
  then show ?thesis using drv_preflight_identity by (simp add: backup_scope_def drv.scope_of_def)
qed

lemma run_cases:
  assumes "ro_result (run_body V cfg) = Inr r" "prepare_run V cfg = (Inr (drv, dst, bid, key, api), ws)"
  obtains n h tr where
    "upload api (d_bucket dst) key (rv_streamed V) [] = (Inr (n, h), tr)"
    "r = \<lparr>br_backup_id = bid, br_bucket = d_bucket dst, br_key = key, br_manifest_key = manifest_key key,
          br_bytes = n, br_sha256 = h\<rparr>"
    "ro_calls (run_body V cfg) = tr @ [PutCall (d_bucket dst) (manifest_key key)
       (manifest_marshal (run_manifest (rv_world V) cfg drv (rv_now V) bid key (n, h))) ''application/json'']"
  using assms
  by (auto simp: run_body_def failed_run_def finish_run_def put_object_def Let_def
      split: sum.splits option.splits prod.splits if_splits)

lemma Run_success: "ro_result (Run V cfg) = Inr r \<Longrightarrow> Run V cfg = run_body V (with_defaults cfg)"
  by (auto simp: Run_def Let_def split: sum.splits)

lemma with_defaults_simps [simp]:
  "cfg_dsn (with_defaults cfg) = cfg_dsn cfg" "cfg_dest (with_defaults cfg) = cfg_dest cfg"
  by (simp_all add: with_defaults_def)

lemma backup_scope_defaults: "backup_scope (with_defaults cfg) = backup_scope cfg"
  unfolding backup_scope_def with_defaults_simps ..

lemma upload_success:
  assumes "upload api bucket key streamed tr = (Inr (n, h), tr')"
  obtains uid parts cs where "mp_create api tr bucket key = Inr uid" "streamed uid = Inr (parts, n, h)" "tr' = tr @ cs"
    "CompleteCall bucket key uid parts \<in> set cs" "\<And>b k body ct. PutCall b k body ct \<notin> set cs"
  using assms by (cases rule: upload_cases) auto

subsection \<open>Sample runs\<close>

definition clean_feed :: feed_env where
  "clean_feed =
     \<lparr>fe_age_start = None, fe_header = ''a'', fe_zstd_start = None, fe_streamed = ''b'', fe_copy_err = None, fe_wait_err = None,
      fe_stderr = [], fe_zstd_tail = [], fe_zstd_close = None, fe_age_tail = ''c'', fe_age_close = None\<rparr>"

definition sample_run :: "feed_env \<Rightarrow> (string \<Rightarrow> goerr + ((int \<times> string) list \<times> int \<times> string)) \<Rightarrow> run_env" where
  "sample_run E streamed =
     \<lparr>rv_world = sample_world, rv_now = time_of_civil 2026 7 14 3 4 5 0, rv_ulid = (\<lambda>t. Inr ''01ABC''), rv_recipient = (\<lambda>r. None),
      rv_sdk = (\<lambda>opts. Inr (fake_s3_api good_s3)), rv_pipe = None, rv_start = (\<lambda>c. None), rv_feed = E,
      rv_streamed = streamed, rv_canceled = False\<rparr>"

definition pg_config :: "string \<Rightarrow> config" where
  "pg_config dsn = sample_config\<lparr>cfg_dsn := dsn\<rparr>"

lemma clean_streams:
  "streams_to (fake_s3_api good_s3) \<lparr>up_part_size = 2, up_concurrency = 2\<rparr> b k (feed clean_feed) [] (\<lambda>s. s) good_streamed"
proof -
  have "feed clean_feed = (''abc'', None)" by code_simp
  then show ?thesis unfolding streams_to_def good_env good_streamed_def using sample_runs sample_final by (auto simp: good_env)
qed

lemma broken_streams:
  assumes "0 < up_part_size u" "0 < up_concurrency u"
  shows "streams_to api u b k ([], Some e) tr sha256 (\<lambda>uid. Inl e)"
proof -
  let ?E = "stream_env_of api u b k ([], Some e) tr"
  have "stream_runs (?E uid) (stop_reading (stream_init (?E uid)\<lparr>ss_loop := Reading, ss_slots := 1\<rparr>) (Some e))" for uid
  proof -
    have "stream_step (?E uid) (stream_init (?E uid)) (stream_init (?E uid)\<lparr>ss_loop := Reading, ss_slots := ss_slots (stream_init (?E uid)) + 1\<rparr>)"
      by (rule stream_step.acquire) (use assms in \<open>simp_all add: stream_init_def stream_env_of_def\<close>)
    moreover have "stream_step (?E uid) (stream_init (?E uid)\<lparr>ss_loop := Reading, ss_slots := 1\<rparr>)
        (read_part (?E uid) (stream_init (?E uid)\<lparr>ss_loop := Reading, ss_slots := 1\<rparr>))"
      by (rule stream_step.read) simp
    ultimately show ?thesis
      using assms unfolding stream_runs_def
      by (simp add: stream_init_def read_part_def stream_env_of_def)
  qed
  then show ?thesis
    unfolding streams_to_def
    by (intro allI exI conjI) (auto simp: stream_final_def stop_reading_def stream_result_def stream_init_def)
qed

subsection \<open>Properties\<close>



text \<open>A canceled run says so: when the caller's context was canceled, every error of the run has
  the kind canceled and still names its cause, whatever failed first; a run that was not
  canceled reports its own error, and a success is never taken back.\<close>

theorem canceled_run_classified:
  "(case ro_result (Run V cfg) of
      Inl e \<Rightarrow> \<exists>e0. ro_result (run_body V (with_defaults cfg)) = Inl e0
        \<and> (if rv_canceled V then kind_of e = KindCanceled \<and> (kind_of e0 = KindCanceled \<or>
               error_text e = ''pipeline: backup canceled: '' @ error_text e0) else e = e0)
    | Inr r \<Rightarrow> ro_result (run_body V (with_defaults cfg)) = Inr r)
   \<and> ro_calls (Run V cfg) = ro_calls (run_body V (with_defaults cfg))"
  by (auto simp: Run_def Let_def classify_canceled_def split: sum.splits)

text \<open>The report of a failed dump holds the end of what the tool said: of any sequence of writes
  to its standard error the last 8192 bytes are kept, in order, and no more.\<close>

theorem stderr_tail_exact:
  "stderr_tail ws = drop (length (concat ws) - 8192) (concat ws) \<and> length (stderr_tail ws) \<le> 8192"
  using capped_fold [of "new_capped_buffer 8192" ws] by (simp add: stderr_tail_def new_capped_buffer_def)

text \<open>The streaming of \<open>streams_to\<close> in a run nobody cancels.\<close>

definition streams_uncanceled :: "multipart_api \<Rightarrow> uploader \<Rightarrow> string \<Rightarrow> string \<Rightarrow> string \<Rightarrow> (string \<Rightarrow> string)
    \<Rightarrow> (string \<Rightarrow> goerr + ((int \<times> string) list \<times> int \<times> string)) \<Rightarrow> bool" where
  "streams_uncanceled api u bucket key bytes sha256 streamed \<longleftrightarrow>
     (\<forall>uid. \<exists>s. stream_runs (stream_env_of api u bucket key (bytes, None) [] uid) s \<and> stream_final s \<and> \<not> ss_canceled s
        \<and> streamed uid = stream_result sha256 s)"

lemma uncanceled_result:
  assumes "streams_uncanceled api u bucket key bytes sha256 streamed"
    and "0 < up_part_size u" "length bytes \<le> nat max_upload_parts * up_part_size u"
    and "\<And>pn data. \<exists>etag. mp_part api [CreateCall bucket key] bucket key uid pn data = Inr etag"
  shows "streamed uid = Inr (stream_reference sha256 (stream_env_of api u bucket key (bytes, None) [] uid))"
proof -
  obtain s where s: "stream_runs (stream_env_of api u bucket key (bytes, None) [] uid) s" "stream_final s" "\<not> ss_canceled s"
    "streamed uid = stream_result sha256 s" using assms(1) by (auto simp: streams_uncanceled_def)
  show ?thesis unfolding s(4)
    by (rule uncanceled_reference [OF s(1-3)]) (use assms(2-4) in \<open>auto simp: stream_env_of_def\<close>)
qed

lemma upload_succeeds:
  assumes "mp_create api tr bucket key = Inr uid" "streamed uid = Inr (parts, n, h)"
    and "\<And>t. mp_complete api t bucket key uid parts = None \<or> mp_head api (t @ [CompleteCall bucket key uid parts]) bucket key = None"
  shows "\<exists>tr'. upload api bucket key streamed tr = (Inr (n, h), tr')"
  using assms(1,2) assms(3) [of "tr @ [CreateCall bucket key, PartCalls bucket key uid]"]
  by (cases "mp_complete api (tr @ [CreateCall bucket key, PartCalls bucket key uid]) bucket key uid parts")
    (simp_all add: upload_def Let_def object_exists_def)


subsection \<open>The properties on the sample\<close>

definition app_dsn :: string where "app_dsn = ''postgres://u:p@db/app''"
definition app_key :: string where "app_key = ''p/postgres/db/app/2026/07/20260714T030405Z-01ABC.dump.zst.age''"
definition app_id :: string where "app_id = ''20260714T030405Z-01ABC''"

definition app_driver :: driver where
  "app_driver = PostgresDriver ''postgres://u:p@db/app'' sample_pg_source ''/usr/bin/pg_dump''"

lemma app_parts:
  "new_driver app_dsn = Inr sample_pg_driver" "drv_test_connection sample_world sample_pg_driver = None"
  "drv_preflight sample_world False sample_pg_driver = (Inr app_driver, [])"
  "parse_dest ''s3://b/p'' = Inr sample_dest"
  "new_backup_id (\<lambda>t. Inr ''01ABC'') (time_of_civil 2026 7 14 3 4 5 0) = Inr app_id"
  "object_key sample_dest (drv_engine app_driver) (drv_cluster app_driver) (drv_database app_driver)
     (time_of_civil 2026 7 14 3 4 5 0) app_id = app_key"
  by code_simp+

lemma app_prepared:
  "prepare_run (sample_run E streamed) (with_defaults (pg_config app_dsn))
     = (Inr (app_driver, sample_dest, app_id, app_key, fake_s3_api good_s3), [])"
  using app_parts
  by (simp add: prepare_run_def sample_run_def pg_config_def sample_config_def with_defaults_def new_s3_client_def)

lemma app_upload: "\<exists>tr. upload (fake_s3_api good_s3) bucket key good_streamed [] = (Inr (3, ''abc''), tr)"
proof -
  have "good_streamed ''up-1'' = Inr ([(1, ''etag-1''), (2, ''etag-2'')], 3, ''abc'')"
    unfolding good_streamed_def by code_simp
  then show ?thesis by (simp add: upload_def Let_def fake_s3_api_def good_s3_def)
qed

lemma app_success:
  "\<exists>r. ro_result (Run (sample_run clean_feed good_streamed) (pg_config app_dsn)) = Inr r \<and> br_bytes r = 3 \<and> br_sha256 r = ''abc''"
proof -
  obtain tr where "upload (fake_s3_api good_s3) (d_bucket sample_dest) app_key good_streamed [] = (Inr (3, ''abc''), tr)"
    using app_upload by blast
  moreover have "mp_put (fake_s3_api good_s3) tr b k body ct = None" for tr b k body ct by (simp add: fake_s3_api_def)
  ultimately show ?thesis
    using app_prepared [of clean_feed good_streamed]
    by (simp add: Run_def run_body_def finish_run_def put_object_def Let_def sample_run_def)
qed

lemma app_manifest_texts:
  "list_all (valid_utf8 0) [app_id, ''2026-07-14T03:04:05Z'', ''postgres'', ''db'', ''app'', app_key,
     ''pg_dump -Fc -Z0 | zstd | age'', ''pg_dump (PostgreSQL) 17.2 (Debian 17.2-1)'', [], ''abc'']"
  by (simp add: app_id_def app_key_def utf8_more_def byte_in_def)

lemma app_writable:
  "writable (run_manifest sample_world (with_defaults (pg_config app_dsn)) app_driver (time_of_civil 2026 7 14 3 4 5 0)
     app_id app_key (3, ''abc''))"
proof -
  have "manifest_created_at (time_of_civil 2026 7 14 3 4 5 0) = ''2026-07-14T03:04:05Z''"
    "drv_engine app_driver = ''postgres''" "drv_cluster app_driver = ''db''" "drv_database app_driver = ''app''"
    "dump_format app_driver = ''pg_dump -Fc -Z0 | zstd | age''"
    "dump_client_version sample_world app_driver = ''pg_dump (PostgreSQL) 17.2 (Debian 17.2-1)''"
    by code_simp+
  then show ?thesis
    using app_manifest_texts
    by (simp add: writable_def run_manifest_def int64_def with_defaults_def pg_config_def sample_config_def
        default_part_size_def default_concurrency_def key_schema_version_def)
qed


definition broken_feed :: feed_env where
  "broken_feed = clean_feed\<lparr>fe_age_start := Some (Foreign ''no entropy'')\<rparr>"



end
