(* ===== verification/CliOutput.thy ===== *)
theory CliOutput
  imports CliConfig GoIndent RunPipeline Redaction
begin

section \<open>Output of the program\<close>

text \<open>
  The file \<open>cmd/dbferry/output.go\<close> with \<open>exitCode\<close> of \<open>main.go\<close> and \<open>renderChecks\<close> of \<open>doctor.go\<close>:
  results and failures as text or as one JSON document, hints, exit codes, and the progress line.
  What is printed is appended to the state \<open>cli\<close>. A redactor is the list of secrets it holds.
\<close>

record ui =
  ui_stdout_tty :: bool
  ui_stderr_tty :: bool
  ui_json :: bool
  ui_quiet :: bool
  ui_color :: bool

definition exit_code :: "goerr \<Rightarrow> nat" where
  "exit_code e =
     (case kind_of e of KindConnect \<Rightarrow> 3 | KindDump \<Rightarrow> 4 | KindUpload \<Rightarrow> 5 | KindCanceled \<Rightarrow> 130 | KindUnknown \<Rightarrow> 1)"

definition usage_err :: "string \<Rightarrow> goerr" where
  "usage_err m = Foreign m"

definition flag_was_set :: "(string \<times> string) list \<Rightarrow> string \<Rightarrow> bool" where
  "flag_was_set vs name \<longleftrightarrow> list_ex (\<lambda>(n, _). n = name) vs"

definition color_red :: string where "color_red = CHR 0x1B # ''[31m''"
definition color_green :: string where "color_green = CHR 0x1B # ''[32m''"
definition color_yellow :: string where "color_yellow = CHR 0x1B # ''[33m''"
definition color_reset :: string where "color_reset = CHR 0x1B # ''[0m''"

definition paint :: "bool \<Rightarrow> string \<Rightarrow> string \<Rightarrow> string" where
  "paint enabled code s = (if enabled then code @ s @ color_reset else s)"

subsection \<open>Numbers\<close>

text \<open>Rounding to the nearest integer, ties to even, of \<open>n / d\<close>; and \<open>float64(n)\<close> of an integer.\<close>

definition round_even :: "int \<Rightarrow> int \<Rightarrow> int" where
  "round_even n d =
     (let q = n div d; r = n mod d in
      if 2 * r < d \<or> 2 * r = d \<and> even q then q else q + 1)"

function bit_length :: "int \<Rightarrow> nat" where
  "bit_length n = (if n \<le> 0 then 0 else Suc (bit_length (n div 2)))"
  by pat_completeness auto
termination by (relation "measure nat") auto

declare bit_length.simps [simp del]

definition float64_int :: "int \<Rightarrow> int" where
  "float64_int n = (let u = 2 ^ (bit_length n - 53) in round_even n u * u)"

function unit_steps :: "int \<Rightarrow> nat" where
  "unit_steps x = (if x \<ge> 1024 then Suc (unit_steps (x div 1024)) else 0)"
  by pat_completeness auto
termination by (relation "measure nat") auto

declare unit_steps.simps [simp del]

text \<open>\<open>%.1f\<close> of a quotient by a power of two is exact up to the one rounding to tenths.\<close>

definition human_bytes :: "int \<Rightarrow> string" where
  "human_bytes n =
     (if n < 1024 then itoa n @ '' B''
      else let e = unit_steps (n div 1024); tenths = round_even (10 * float64_int n) (1024 ^ Suc e) in
           itoa (tenths div 10) @ ''.'' @ itoa (tenths mod 10) @ '' '' @ [''KMGTPE'' ! e] @ ''iB'')"

text \<open>\<open>d.Truncate(100 * time.Millisecond).String()\<close>.\<close>

definition elapsed :: "int \<Rightarrow> string" where
  "elapsed d =
     (let u = \<bar>d\<bar> div 100000000; secs = u div 10; mins = secs div 60; hours = mins div 60;
          sign = (if d < 0 \<and> u \<noteq> 0 then ''-'' else []) in
      if u = 0 then ''0s''
      else if secs = 0 then sign @ itoa (u * 100) @ ''ms''
      else sign @ (if hours > 0 then itoa hours @ ''h'' else []) @ (if mins > 0 then itoa (mins mod 60) @ ''m'' else [])
             @ itoa (secs mod 60) @ (if u mod 10 \<noteq> 0 then ''.'' @ itoa (u mod 10) else []) @ ''s'')"

text \<open>\<open>parsePartSize\<close>: \<open>strconv.ParseFloat\<close> and the product with the unit are floating point
  operations of the machine, given by the argument: none if the text is no number, otherwise whether
  the number is above zero, and the integer its product with a unit is cut to.\<close>

definition parse_part_size :: "(string \<Rightarrow> (bool \<times> (int \<Rightarrow> int)) option) \<Rightarrow> string \<Rightarrow> goerr + int" where
  "parse_part_size float s0 =
     (let s = trim_space s0; l = to_lower s;
          (mult, body) =
            (if has_suffix l ''gib'' then (2 ^ 30, take (length s - 3) s)
             else if has_suffix l ''mib'' then (2 ^ 20, take (length s - 3) s)
             else if has_suffix l ''gb'' then (1000000000, take (length s - 2) s)
             else if has_suffix l ''mb'' then (1000000, take (length s - 2) s)
             else (2 ^ 20, s));
          invalid = Errorf ''invalid --part-size %q (e.g. 32MiB)'' [body] None in
      case float (trim_space body) of
        None \<Rightarrow> Inl invalid
      | Some (positive, scaled) \<Rightarrow>
          if \<not> positive then Inl invalid
          else if scaled mult < 5242880
          then Inl (Errorf ''--part-size must be at least 5MiB (the S3 minimum for a multipart part)'' [] None)
          else Inr (scaled mult))"

subsection \<open>Hints\<close>

definition dump_hint :: "string \<Rightarrow> string" where
  "dump_hint msg =
     (if contains msg ''executable file not found'' \<or> contains msg ''not found in $PATH'' then
        (if contains msg ''mysqldump''
         then ''mysqldump is not on PATH. Install the MySQL client tools (e.g. mysql-client / mysql-community-client), then re-run.''
         else ''pg_dump is not on PATH. Install the PostgreSQL client tools (e.g. postgresql-client) at your server'' @ [CHR 0x27]
              @ ''s major version or newer, then re-run.'')
      else if contains msg ''non-InnoDB''
      then ''Some tables use a non-transactional engine (e.g. MyISAM). Re-run with --allow-nontransactional to back them up (their snapshot may be inconsistent), or convert them to InnoDB.''
      else if contains msg ''permission denied''
      then ''The role can connect but can'' @ [CHR 0x27] @ ''t read some objects. Grant read access (e.g. GRANT pg_read_all_data TO <role>) or run as a role with SELECT on all objects, then re-run.''
      else ''The dump failed; see its message above. Fix the reported object or permission and re-run.'')"

definition hint :: "kind \<Rightarrow> string \<Rightarrow> string" where
  "hint k msg =
     (case k of
        KindConnect \<Rightarrow> ''Check the host, port, database name and credentials, and that the role may CONNECT. Fix them and re-run the same command.''
      | KindDump \<Rightarrow> dump_hint msg
      | KindUpload \<Rightarrow> ''Check the bucket exists and your S3 credentials allow s3:CreateMultipartUpload, UploadPart and PutObject on it (and that --s3-endpoint is correct for S3-compatible storage).''
      | KindCanceled \<Rightarrow> ''The run was canceled and no backup was written. Re-run when ready.''
      | KindUnknown \<Rightarrow> [])"

subsection \<open>Results and failures\<close>

text \<open>\<open>writeJSONValue\<close>: the values that are written always have a text.\<close>

definition write_json :: "json \<Rightarrow> cli \<Rightarrow> cli" where
  "write_json v s = out_line (marshal_indent v) s"

definition omit_empty :: "string \<Rightarrow> string \<Rightarrow> (string \<times> json) list" where
  "omit_empty k v = (if v = [] then [] else [(k, JStr v)])"

record json_result =
  jr_ok :: bool
  jr_backup_id :: string
  jr_bucket :: string
  jr_object :: string
  jr_manifest :: string
  jr_bytes :: int
  jr_sha256 :: string
  jr_kind :: string
  jr_error :: string

definition empty_result :: json_result where
  "empty_result = \<lparr>jr_ok = False, jr_backup_id = [], jr_bucket = [], jr_object = [], jr_manifest = [], jr_bytes = 0,
     jr_sha256 = [], jr_kind = [], jr_error = []\<rparr>"

definition result_value :: "json_result \<Rightarrow> json" where
  "result_value r =
     JObj ((''ok'', JBool (jr_ok r)) # omit_empty ''backup_id'' (jr_backup_id r) @ omit_empty ''bucket'' (jr_bucket r)
       @ omit_empty ''object'' (jr_object r) @ omit_empty ''manifest'' (jr_manifest r)
       @ (if jr_bytes r = 0 then [] else [(''ciphertext_bytes'', JNum (itoa (jr_bytes r)))])
       @ omit_empty ''ciphertext_sha256'' (jr_sha256 r) @ omit_empty ''kind'' (jr_kind r) @ omit_empty ''error'' (jr_error r))"

definition ui_success :: "ui \<Rightarrow> backup_result \<Rightarrow> cli \<Rightarrow> cli" where
  "ui_success u res s =
     (if ui_json u then
        write_json (result_value (empty_result\<lparr>jr_ok := True, jr_backup_id := br_backup_id res, jr_bucket := br_bucket res,
          jr_object := br_key res, jr_manifest := br_manifest_key res, jr_bytes := br_bytes res, jr_sha256 := br_sha256 res\<rparr>)) s
      else if ui_quiet u then s
      else out_line (join_with [CHR 0x0A]
        [paint (ui_color u \<and> ui_stdout_tty u) color_green ''backup complete'',
         ''  backup_id  '' @ br_backup_id res,
         ''  object     s3://'' @ br_bucket res @ ''/'' @ br_key res,
         ''  manifest   s3://'' @ br_bucket res @ ''/'' @ br_manifest_key res,
         ''  uploaded   '' @ human_bytes (br_bytes res) @ '' (ciphertext)'',
         ''  sha256     '' @ br_sha256 res]) s)"

definition ui_fail :: "ui \<Rightarrow> goerr \<Rightarrow> redactor \<Rightarrow> cli \<Rightarrow> nat \<times> cli" where
  "ui_fail u e red s =
     (let k = kind_of e; msg = redact red (error_text e); h = hint k msg in
      (exit_code e,
       if ui_json u then write_json (result_value (empty_result\<lparr>jr_kind := kind_string k, jr_error := msg\<rparr>)) s
       else let s' = err_line (paint (ui_color u \<and> ui_stderr_tty u) color_red ''dbferry: '' @ msg) s in
            if h = [] then s' else err_line (''  '' @ right_arrow @ '' '' @ redact red h) (err_line [] s')))"

definition ui_warn :: "ui \<Rightarrow> string \<Rightarrow> cli \<Rightarrow> cli" where
  "ui_warn u msg s = err_line (paint (ui_color u \<and> ui_stderr_tty u) color_yellow ''warning: '' @ msg) s"

definition ui_databases :: "ui \<Rightarrow> database_info list \<Rightarrow> cli \<Rightarrow> cli" where
  "ui_databases u dbs s =
     (if ui_json u then
        write_json (JObj [(''ok'', JBool True),
          (''databases'', JArr (map (\<lambda>d. JObj [(''name'', JStr (di_name d)), (''accessible'', JBool (di_accessible d))]) dbs))]) s
      else if dbs = [] then out_line ''no user databases found'' s
      else fold (\<lambda>d s. if di_accessible d then out_line (''  '' @ di_name d) s
                  else out_line (''  '' @ di_name d
                         @ paint (ui_color u \<and> ui_stdout_tty u) color_yellow (''  [no access '' @ em_dash @ '' grant CONNECT]'')) s) dbs s)"

definition check_value :: "redactor \<Rightarrow> check \<Rightarrow> json" where
  "check_value red c =
     JObj ([(''name'', JStr (ck_name c)), (''status'', JStr (check_status_string (ck_status c)))]
       @ omit_empty ''detail'' (redact red (ck_detail c)) @ omit_empty ''fix'' (redact red (ck_fix c)))"

definition check_mark :: "check_status \<Rightarrow> string \<times> string" where
  "check_mark st =
     (case st of StatusOK \<Rightarrow> ([CHR 0xE2, CHR 0x9C, CHR 0x93], color_green) | StatusWarn \<Rightarrow> (''!'', color_yellow)
      | StatusFail \<Rightarrow> ([CHR 0xE2, CHR 0x9C, CHR 0x97], color_red))"

text \<open>\<open>renderChecks\<close>; a list that was never appended to is written as \<open>null\<close>.\<close>

definition render_checks :: "ui \<Rightarrow> check list \<Rightarrow> redactor \<Rightarrow> cli \<Rightarrow> nat \<times> cli" where
  "render_checks u checks red s =
     (let failed = list_ex (\<lambda>c. ck_status c = StatusFail) checks in
      (if failed then 1 else 0,
       if ui_json u then
         write_json (JObj [(''ok'', JBool (\<not> failed)),
           (''checks'', if checks = [] then JNull else JArr (map (check_value red) checks))]) s
       else fold (\<lambda>c s.
              let (sym, col) = check_mark (ck_status c);
                  s' = out_line (paint (ui_color u \<and> ui_stdout_tty u) col sym @ '' '' @ pad_right 16 (ck_name c) @ '' ''
                         @ redact red (ck_detail c)) s in
              if ck_fix c = [] then s' else out_line (''    '' @ right_arrow @ '' '' @ redact red (ck_fix c)) s') checks s))"

subsection \<open>Progress\<close>

record progress =
  pr_phase :: phase
  pr_dumped :: int
  pr_uploaded :: int
  pr_elapsed :: int

definition ellipsis :: string where "ellipsis = [CHR 0xE2, CHR 0x80, CHR 0xA6]"
definition middle_dot :: string where "middle_dot = [CHR 0xC2, CHR 0xB7]"

text \<open>\<open>progressLine\<close>; the division of \<open>rate\<close> is one of floating point and an argument.\<close>

definition rate :: "(int \<Rightarrow> int \<Rightarrow> int) \<Rightarrow> int \<Rightarrow> int \<Rightarrow> string" where
  "rate per_second bytes d = (if d \<le> 0 \<or> bytes \<le> 0 then ''0 B/s'' else human_bytes (per_second bytes d) @ ''/s'')"

definition progress_line :: "(int \<Rightarrow> int \<Rightarrow> int) \<Rightarrow> progress \<Rightarrow> string" where
  "progress_line per_second p =
     (let dot = '' '' @ middle_dot @ '' '';
          amounts = ''dumped '' @ human_bytes (pr_dumped p) @ dot @ ''uploaded '' @ human_bytes (pr_uploaded p) @ dot in
      case pr_phase p of
        PhaseConnecting \<Rightarrow> ''  connecting'' @ ellipsis
      | PhaseFinalizing \<Rightarrow> ''  finalizing'' @ ellipsis @ '' '' @ amounts @ elapsed (pr_elapsed p)
      | PhaseDone \<Rightarrow> ''  done'' @ dot @ amounts @ elapsed (pr_elapsed p)
      | PhaseStreaming \<Rightarrow> ''  backing up'' @ dot @ amounts @ rate per_second (pr_uploaded p) (pr_elapsed p) @ dot
          @ elapsed (pr_elapsed p))"

text \<open>The reporter: whether it is enabled, and the length of the line that is shown.\<close>

definition reporter_enabled :: "ui \<Rightarrow> bool" where
  "reporter_enabled u \<longleftrightarrow> ui_stderr_tty u \<and> \<not> ui_quiet u \<and> \<not> ui_json u"

definition report_progress :: "ui \<Rightarrow> string \<Rightarrow> nat \<times> cli \<Rightarrow> nat \<times> cli" where
  "report_progress u line ls =
     (if \<not> reporter_enabled u then ls
      else (length line, err_text (CHR 0x0D # line @ replicate (fst ls - length line) CHR '' '') (snd ls)))"

definition report_finish :: "ui \<Rightarrow> nat \<times> cli \<Rightarrow> cli" where
  "report_finish u ls =
     (if reporter_enabled u \<and> fst ls > 0 then err_text (CHR 0x0D # replicate (fst ls) CHR '' '' @ [CHR 0x0D]) (snd ls)
      else snd ls)"

lemma number_examples:
  "map human_bytes [0, 1023, 1024, 1075, 1587, 1048575, 1048576, 33554432, 9223372036854775807]
     = [''0 B'', ''1023 B'', ''1.0 KiB'', ''1.0 KiB'', ''1.5 KiB'', ''1024.0 KiB'', ''1.0 MiB'', ''32.0 MiB'', ''8.0 EiB'']"
  "map elapsed [0, 99999999, 250000000, 1550000000, 61000000000, 3600000000000]
     = [''0s'', ''0s'', ''200ms'', ''1.5s'', ''1m1s'', ''1h0m0s'']"
  by code_simp+

end
