(* ===== verification/CliRun.thy ===== *)
theory CliRun
  imports CliOutput
begin

section \<open>The commands run, test-connection, databases and doctor\<close>

text \<open>
  The files \<open>cmd/dbferry/main.go\<close> (\<open>cmdRun\<close>, \<open>resolveDSN\<close>), \<open>cmd/dbferry/discovery.go\<close> and
  \<open>cmd/dbferry/doctor.go\<close>: where the source, the destination and the secrets of a command come from,
  and how its result is reported. The pipeline is the model of the theories before this one.
\<close>

text \<open>The environment of a command: that of the configuration commands, which streams are terminals, the
  world of the pipeline, the two calls on the file of a DSN, the floating point operations, and
  the progress reported before and after the warnings of a run, the lines that are typed, and how
  the steps of generating a key turn out.\<close>

record main_env =
  me_cli :: cli_env
  me_stdout_tty :: bool
  me_stderr_tty :: bool
  me_version :: string
  me_run :: run_env
  me_probe :: "client_options \<Rightarrow> goerr + probe_api"
  me_dsn_stat :: "string \<Rightarrow> goerr + file_entry"
  me_dsn_read :: "string \<Rightarrow> goerr + string"
  me_float :: "string \<Rightarrow> (bool \<times> (int \<Rightarrow> int)) option"
  me_per_second :: "int \<Rightarrow> int \<Rightarrow> int"
  me_connecting :: "progress list"
  me_progress :: "progress list"
  me_lines :: "string list"
  me_key_open :: "goerr option"
  me_identity :: "goerr + string \<times> string"
  me_key_write :: "goerr option"
  me_key_close :: "goerr option"

subsection \<open>Sources and secrets\<close>

definition resolve_dsn :: "main_env \<Rightarrow> string \<Rightarrow> string \<Rightarrow> goerr + string" where
  "resolve_dsn V env_name path =
     (if path \<noteq> [] then
        (case me_dsn_stat V path of
           Inl e \<Rightarrow> Inl (Errorf ''--dsn-file: %w'' [] (Some e))
         | Inr f \<Rightarrow>
             (case require_private ''--dsn-file'' path f of
                Some e \<Rightarrow> Inl e
              | None \<Rightarrow>
                  (case me_dsn_read V path of
                     Inl e \<Rightarrow> Inl (Errorf ''--dsn-file: %w'' [] (Some e))
                   | Inr b \<Rightarrow>
                       let dsn = trim_space b in
                       if dsn = [] then Inl (Errorf ''--dsn-file %s is empty'' [path] None) else Inr dsn)))
      else let dsn = ce_getenv (me_cli V) env_name in
        if dsn = [] then Inl (Errorf ''no DSN found: set $%s or pass --dsn-file'' [env_name] None) else Inr dsn)"

definition password_of :: "string \<Rightarrow> string" where
  "password_of dsn =
     (case url_parse dsn of None \<Rightarrow> [] | Some u \<Rightarrow> (case url_password u of None \<Rightarrow> [] | Some pw \<Rightarrow> pw))"

definition dsn_redactor :: "string \<Rightarrow> redactor" where
  "dsn_redactor dsn =
     (let red = redactor_add [] [dsn]; pw = password_of dsn in if pw \<noteq> [] then redactor_add red [pw] else red)"

definition command_secrets :: "main_env \<Rightarrow> cli \<Rightarrow> secret_store" where
  "command_secrets V s =
     \<lparr>ss_getenv = ce_getenv (me_cli V), ss_keyring = ce_keyring (me_cli V), ss_chain = cl_chain s\<rparr>"

definition static_credentials :: "s3_settings \<Rightarrow> s3_credentials option" where
  "static_credentials s3 =
     (if st_has_static s3
      then Some \<lparr>sc_access_key_id = st_access_key s3, sc_secret_access_key = st_secret_key s3,
                 sc_session_token = st_session_token s3\<rparr>
      else None)"

subsection \<open>The command run\<close>

definition run_flags :: "flag_spec list" where
  "run_flags =
     [(''connection'', StringFlag, []), (''database'', StringFlag, []), (''destination'', StringFlag, []),
      (''config'', StringFlag, []), (''dsn-env'', StringFlag, ''DBFERRY_DSN''), (''dsn-file'', StringFlag, []),
      (''dest'', StringFlag, []), (''age-recipient'', StringFlag, []), (''s3-endpoint'', StringFlag, []),
      (''part-size'', StringFlag, []), (''concurrency'', IntFlag, ''0''),
      (''allow-nontransactional'', BoolFlag, ''false''), (''json'', BoolFlag, ''false''),
      (''quiet'', BoolFlag, ''false''), (''no-color'', BoolFlag, ''false'')]"

text \<open>What a run works on, from a named connection or from the flags.\<close>

record run_source =
  rs_dsn :: string
  rs_redactor :: redactor
  rs_dest :: string
  rs_recipient :: string
  rs_endpoint :: string
  rs_region :: string
  rs_profile :: string
  rs_credentials :: "s3_credentials option"

definition bare_source :: "string \<Rightarrow> redactor \<Rightarrow> string \<Rightarrow> run_source" where
  "bare_source dsn red recipient =
     \<lparr>rs_dsn = dsn, rs_redactor = red, rs_dest = [], rs_recipient = recipient, rs_endpoint = [], rs_region = [],
      rs_profile = [], rs_credentials = None\<rparr>"

definition add_destination_source :: "secret_store \<Rightarrow> config_file \<Rightarrow> string \<Rightarrow> run_source \<Rightarrow> (goerr \<times> redactor) + run_source" where
  "add_destination_source S cfg name src =
     (case map_of (cf_destinations cfg) name of
        None \<Rightarrow> Inl (usage_err (''no destination named '' @ go_quote name), rs_redactor src)
      | Some d \<Rightarrow>
          (case resolve_destination S d of
             Inl e \<Rightarrow> Inl (e, rs_redactor src)
           | Inr (s3, secrets) \<Rightarrow>
               Inr (src\<lparr>rs_redactor := redactor_add (rs_redactor src) secrets, rs_dest := DestURL d,
                        rs_endpoint := st_endpoint s3, rs_region := st_region s3, rs_profile := st_profile s3,
                        rs_credentials := static_credentials s3\<rparr>)))"

definition named_source :: "main_env \<Rightarrow> (string \<times> string) list \<Rightarrow> cli \<Rightarrow> (goerr \<times> redactor) + run_source" where
  "named_source V vs s =
     (let v = flag_value run_flags vs; E = me_cli V; S = command_secrets V s in
      if v ''dsn-file'' \<noteq> [] \<or> flag_was_set vs ''dsn-env''
      then Inl (usage_err ''choose either --connection or --dsn-env/--dsn-file, not both'', [])
      else (case load_config E s (config_path E (v ''config'')) of
         Inl e \<Rightarrow> Inl (e, [])
       | Inr cfg \<Rightarrow>
           (case map_of (cf_connections cfg) (v ''connection'') of
              None \<Rightarrow> Inl (usage_err (''no connection named '' @ go_quote (v ''connection'') @ '' (see `dbferry connections list`)''), [])
            | Some conn \<Rightarrow>
                (case BackupDSN S conn (v ''database'') of
                   Inl e \<Rightarrow> Inl (e, [])
                 | Inr (dsn, secrets) \<Rightarrow>
                     let src = bare_source dsn (redactor_add [] secrets) (cn_age_recipient conn);
                         dn = (if v ''destination'' = [] then cn_destination conn else v ''destination'') in
                     if dn = [] then Inr src else add_destination_source S cfg dn src))))"

definition flag_source :: "main_env \<Rightarrow> (string \<times> string) list \<Rightarrow> (goerr \<times> redactor) + run_source" where
  "flag_source V vs =
     (let v = flag_value run_flags vs in
      case resolve_dsn V (v ''dsn-env'') (v ''dsn-file'') of
        Inl e \<Rightarrow> Inl (e, [])
      | Inr dsn \<Rightarrow> Inr (bare_source dsn (dsn_redactor dsn) []))"

text \<open>Explicit flags override what the connection says.\<close>

definition override_source :: "(string \<Rightarrow> string) \<Rightarrow> run_source \<Rightarrow> run_source" where
  "override_source v src =
     src\<lparr>rs_dest := (if v ''dest'' \<noteq> [] then v ''dest'' else rs_dest src),
         rs_recipient := (if v ''age-recipient'' \<noteq> [] then v ''age-recipient'' else rs_recipient src),
         rs_endpoint := (if v ''s3-endpoint'' \<noteq> [] then v ''s3-endpoint'' else rs_endpoint src)\<rparr>"

definition run_config :: "main_env \<Rightarrow> (string \<times> string) list \<Rightarrow> run_source \<Rightarrow> int \<Rightarrow> config" where
  "run_config V vs src part_size =
     \<lparr>cfg_dsn = rs_dsn src, cfg_dest = rs_dest src, cfg_age_recipient = rs_recipient src,
      cfg_s3_endpoint = rs_endpoint src, cfg_s3_region = rs_region src, cfg_s3_profile = rs_profile src,
      cfg_s3_credentials = rs_credentials src, cfg_part_size = part_size,
      cfg_concurrency = flag_int run_flags vs ''concurrency'', cfg_max_retries = 0, cfg_part_timeout = 0,
      cfg_app_version = me_version V, cfg_allow_non_transactional = flag_bool run_flags vs ''allow-nontransactional''\<rparr>"

definition run_ui :: "main_env \<Rightarrow> flag_spec list \<Rightarrow> (string \<times> string) list \<Rightarrow> ui" where
  "run_ui V specs vs =
     \<lparr>ui_stdout_tty = me_stdout_tty V, ui_stderr_tty = me_stderr_tty V, ui_json = flag_bool specs vs ''json'',
      ui_quiet = flag_bool specs vs ''quiet'', ui_color = (\<not> flag_bool specs vs ''no-color'')\<rparr>"

text \<open>What a run prints while it lasts: progress and warnings.\<close>

definition run_report :: "main_env \<Rightarrow> ui \<Rightarrow> string list \<Rightarrow> cli \<Rightarrow> cli" where
  "run_report V u warnings s =
     (let show = (\<lambda>p. report_progress u (progress_line (me_per_second V) p));
          (n, s1) = fold show (me_connecting V) (0, s);
          s2 = fold (ui_warn u) warnings s1
      in report_finish u (fold show (me_progress V) (n, s2)))"

definition start_run :: "main_env \<Rightarrow> (string \<times> string) list \<Rightarrow> ui \<Rightarrow> run_source \<Rightarrow> cli \<Rightarrow> nat \<times> cli" where
  "start_run V vs u src s =
     (let v = flag_value run_flags vs; red = rs_redactor src in
      if rs_dest src = [] then ui_fail u (usage_err ''no destination: pass --dest or set one on the connection'') red s
      else if rs_recipient src = []
      then ui_fail u (usage_err ''no age recipient: pass --age-recipient or set age_recipient on the connection'') red s
      else (case (if v ''part-size'' = [] then Inr 0 else parse_part_size (me_float V) (v ''part-size'')) of
         Inl e \<Rightarrow> ui_fail u (usage_err (error_text e)) red s
       | Inr ps \<Rightarrow>
           (let out = Run (me_run V) (run_config V vs src ps);
                s' = run_report V u (ro_warnings out) s in
            case ro_result out of
              Inl e \<Rightarrow> ui_fail u e red s'
            | Inr res \<Rightarrow> (0, ui_success u res s'))))"

definition cmd_run :: "main_env \<Rightarrow> string list \<Rightarrow> cli \<Rightarrow> nat \<times> cli" where
  "cmd_run V args s =
     with_flags ''run'' run_flags args s (\<lambda>vs s.
       let u = run_ui V run_flags vs; v = flag_value run_flags vs in
       case (if v ''connection'' \<noteq> [] then named_source V vs s else flag_source V vs) of
         Inl (e, red) \<Rightarrow> ui_fail u e red s
       | Inr src \<Rightarrow> start_run V vs u (override_source v src) s)"

subsection \<open>The commands test-connection and databases\<close>

definition conn_flags :: "flag_spec list" where
  "conn_flags =
     [(''connection'', StringFlag, []), (''config'', StringFlag, []), (''dsn-env'', StringFlag, ''DBFERRY_DSN''),
      (''dsn-file'', StringFlag, []), (''json'', BoolFlag, ''false''), (''quiet'', BoolFlag, ''false''),
      (''no-color'', BoolFlag, ''false'')]"

definition conn_conflict :: "(string \<times> string) list \<Rightarrow> goerr option" where
  "conn_conflict vs =
     (let v = flag_value conn_flags vs in
      if v ''connection'' \<noteq> [] \<and> (v ''dsn-file'' \<noteq> [] \<or> flag_was_set vs ''dsn-env'')
      then Some (usage_err ''choose either --connection or --dsn-env/--dsn-file, not both'') else None)"

definition conn_source :: "main_env \<Rightarrow> (string \<times> string) list \<Rightarrow> cli \<Rightarrow> goerr + string \<times> redactor" where
  "conn_source V vs s =
     (let v = flag_value conn_flags vs; E = me_cli V in
      if v ''connection'' \<noteq> [] then
        (case load_config E s (config_path E (v ''config'')) of
           Inl e \<Rightarrow> Inl e
         | Inr cfg \<Rightarrow>
             (case map_of (cf_connections cfg) (v ''connection'') of
                None \<Rightarrow> Inl (Errorf ''no connection named %q (see `dbferry connections list`)'' [v ''connection''] None)
              | Some conn \<Rightarrow>
                  (case ConnectDSN (command_secrets V s) conn of
                     Inl e \<Rightarrow> Inl e
                   | Inr (dsn, secrets) \<Rightarrow> Inr (dsn, redactor_add [] secrets))))
      else (case resolve_dsn V (v ''dsn-env'') (v ''dsn-file'') of
              Inl e \<Rightarrow> Inl e
            | Inr dsn \<Rightarrow> Inr (dsn, dsn_redactor dsn)))"

text \<open>The start that both commands share, and their two ends.\<close>

definition with_source :: "main_env \<Rightarrow> string \<Rightarrow> string list \<Rightarrow> cli \<Rightarrow> (ui \<Rightarrow> string \<Rightarrow> redactor \<Rightarrow> cli \<Rightarrow> nat \<times> cli) \<Rightarrow> nat \<times> cli" where
  "with_source V name args s k =
     with_flags name conn_flags args s (\<lambda>vs s.
       let u = run_ui V conn_flags vs in
       case conn_conflict vs of
         Some e \<Rightarrow> ui_fail u e [] s
       | None \<Rightarrow> (case conn_source V vs s of Inl e \<Rightarrow> ui_fail u e [] s | Inr (dsn, red) \<Rightarrow> k u dsn red s))"

definition cmd_test_connection :: "main_env \<Rightarrow> string list \<Rightarrow> cli \<Rightarrow> nat \<times> cli" where
  "cmd_test_connection V args s =
     with_source V ''test-connection'' args s (\<lambda>u dsn red s.
       case TestConnection (rv_world (me_run V)) dsn of
         Some e \<Rightarrow> ui_fail u e red s
       | None \<Rightarrow>
           (0, if ui_json u then write_json (result_value (empty_result\<lparr>jr_ok := True\<rparr>)) s
               else if \<not> ui_quiet u then out_line (paint (ui_color u \<and> ui_stdout_tty u) color_green ''connection ok'') s
               else s))"

definition cmd_databases :: "main_env \<Rightarrow> string list \<Rightarrow> cli \<Rightarrow> nat \<times> cli" where
  "cmd_databases V args s =
     with_source V ''databases'' args s (\<lambda>u dsn red s.
       case ListDatabases (rv_world (me_run V)) dsn of
         Inl e \<Rightarrow> ui_fail u e red s
       | Inr dbs \<Rightarrow> (0, ui_databases u dbs s))"

subsection \<open>The command doctor\<close>

definition doctor_flags :: "flag_spec list" where
  "doctor_flags =
     [(''connection'', StringFlag, []), (''config'', StringFlag, []), (''dsn-env'', StringFlag, ''DBFERRY_DSN''),
      (''dsn-file'', StringFlag, []), (''dest'', StringFlag, []), (''s3-endpoint'', StringFlag, []),
      (''json'', BoolFlag, ''false''), (''no-color'', BoolFlag, ''false'')]"

definition probe_config :: "string \<Rightarrow> string \<Rightarrow> string \<Rightarrow> string \<Rightarrow> s3_credentials option \<Rightarrow> config" where
  "probe_config dest endpoint region profile creds =
     \<lparr>cfg_dsn = [], cfg_dest = dest, cfg_age_recipient = [], cfg_s3_endpoint = endpoint, cfg_s3_region = region,
      cfg_s3_profile = profile, cfg_s3_credentials = creds, cfg_part_size = 0, cfg_concurrency = 0, cfg_max_retries = 0,
      cfg_part_timeout = 0, cfg_app_version = [], cfg_allow_non_transactional = False\<rparr>"

definition dest_probe_config :: "destination \<Rightarrow> s3_settings \<Rightarrow> config" where
  "dest_probe_config d s3 =
     probe_config (DestURL d) (st_endpoint s3) (st_region s3) (st_profile s3) (static_credentials s3)"

text \<open>What doctor looks at: the DSN, the destination as a configuration or as a failed check, and the
  recipient.\<close>

record doctor_source =
  do_dsn :: string
  do_redactor :: redactor
  do_dest :: "config option"
  do_broken :: "check option"
  do_recipient :: string

definition doctor_destination :: "secret_store \<Rightarrow> config_file \<Rightarrow> string \<Rightarrow> doctor_source \<Rightarrow> doctor_source" where
  "doctor_destination S cfg name src =
     (if name = [] then src
      else case map_of (cf_destinations cfg) name of
        None \<Rightarrow> src\<lparr>do_broken := Some (mk_check ''destination'' StatusFail
            (''connection references destination '' @ go_quote name @ '', which does not exist'')
            ''add it with `dbferry destinations add` or point the connection at an existing one'')\<rparr>
      | Some d \<Rightarrow>
          (case resolve_destination S d of
             Inl e \<Rightarrow> src\<lparr>do_broken := Some (mk_check ''destination'' StatusFail
                 (''destination '' @ go_quote name @ '': '' @ error_text e)
                 ''export the referenced credential env vars (or fix the destination entry)'')\<rparr>
           | Inr (s3, secrets) \<Rightarrow>
               src\<lparr>do_redactor := redactor_add (do_redactor src) secrets, do_dest := Some (dest_probe_config d s3)\<rparr>))"

definition doctor_named :: "main_env \<Rightarrow> (string \<times> string) list \<Rightarrow> cli \<Rightarrow> goerr + doctor_source" where
  "doctor_named V vs s =
     (let v = flag_value doctor_flags vs; E = me_cli V; S = command_secrets V s in
      case load_config E s (config_path E (v ''config'')) of
        Inl e \<Rightarrow> Inl e
      | Inr cfg \<Rightarrow>
          (case map_of (cf_connections cfg) (v ''connection'') of
             None \<Rightarrow> Inl (usage_err (''no connection named '' @ go_quote (v ''connection'')))
           | Some conn \<Rightarrow>
               (case ConnectDSN S conn of
                  Inl e \<Rightarrow> Inl e
                | Inr (dsn, secrets) \<Rightarrow>
                    Inr (doctor_destination S cfg (cn_destination conn)
                      \<lparr>do_dsn = dsn, do_redactor = redactor_add [] secrets, do_dest = None, do_broken = None,
                       do_recipient = cn_age_recipient conn\<rparr>))))"

definition doctor_flagged :: "main_env \<Rightarrow> (string \<times> string) list \<Rightarrow> goerr + doctor_source" where
  "doctor_flagged V vs =
     (let v = flag_value doctor_flags vs in
      case resolve_dsn V (v ''dsn-env'') (v ''dsn-file'') of
        Inl e \<Rightarrow> Inl e
      | Inr dsn \<Rightarrow>
          Inr \<lparr>do_dsn = dsn, do_redactor = dsn_redactor dsn,
               do_dest = (if v ''dest'' \<noteq> [] then Some (probe_config (v ''dest'') (v ''s3-endpoint'') [] [] None) else None),
               do_broken = None, do_recipient = []\<rparr>)"

definition doctor_checks :: "main_env \<Rightarrow> doctor_source \<Rightarrow> check list" where
  "doctor_checks V src =
     DiagnoseSource (rv_world (me_run V)) (do_dsn src)
     @ (case do_dest src of None \<Rightarrow> [] | Some cfg \<Rightarrow> DiagnoseDestination (me_probe V) cfg)
     @ (case do_broken src of None \<Rightarrow> [] | Some c \<Rightarrow> [c])
     @ (if do_recipient src = [] then []
        else case rv_recipient (me_run V) (do_recipient src) of
          Some e \<Rightarrow> [mk_check ''age recipient'' StatusFail (error_text e)
                       (''fix age_recipient on the connection (a valid age1'' @ ellipsis @ '' key)'')]
        | None \<Rightarrow> [mk_check ''age recipient'' StatusOK ''valid'' []])"

definition cmd_doctor :: "main_env \<Rightarrow> string list \<Rightarrow> cli \<Rightarrow> nat \<times> cli" where
  "cmd_doctor V args s =
     with_flags ''doctor'' doctor_flags args s (\<lambda>vs s.
       let v = flag_value doctor_flags vs;
           u = \<lparr>ui_stdout_tty = me_stdout_tty V, ui_stderr_tty = me_stderr_tty V, ui_json = flag_bool doctor_flags vs ''json'',
                ui_quiet = False, ui_color = (\<not> flag_bool doctor_flags vs ''no-color'')\<rparr> in
       if v ''connection'' \<noteq> [] \<and> (v ''dsn-file'' \<noteq> [] \<or> v ''dest'' \<noteq> [] \<or> v ''s3-endpoint'' \<noteq> [] \<or> flag_was_set vs ''dsn-env'')
       then ui_fail u (usage_err ''choose either --connection or the standalone --dsn-env/--dsn-file/--dest/--s3-endpoint flags, not both'') [] s
       else (case (if v ''connection'' \<noteq> [] then doctor_named V vs s else doctor_flagged V vs) of
               Inl e \<Rightarrow> ui_fail u e [] s
             | Inr src \<Rightarrow> render_checks u (doctor_checks V src) (do_redactor src) s))"

end
