(* ===== verification/CliInit.thy ===== *)
theory CliInit
  imports CliRun
begin

section \<open>The commands init and keygen, and the dispatch\<close>

text \<open>
  The file \<open>cmd/dbferry/init_cmd.go\<close> with \<open>promptLine\<close> of \<open>prompt.go\<close>, and \<open>run\<close> of \<open>main.go\<close>: the
  wizard that asks for one connection and its destination, verifies and stores them; the
  generation of a key; and the choice of the command. The lines typed are a list that prompts take
  from; at its end they read nothing.
\<close>

subsection \<open>Prompts\<close>

type_synonym dialog = "string list \<times> cli"

definition prompt_line :: "string \<Rightarrow> dialog \<Rightarrow> string \<times> dialog" where
  "prompt_line label d =
     (trim_space (case fst d of [] \<Rightarrow> [] | l # _ \<Rightarrow> l), drop 1 (fst d), err_text label (snd d))"

text \<open>The printing of a line in a dialog.\<close>

definition say :: "string \<Rightarrow> dialog \<Rightarrow> dialog" where
  "say t d = (fst d, err_line t (snd d))"

subsection \<open>The destination\<close>

definition check_sign :: string where "check_sign = [CHR 0xE2, CHR 0x9C, CHR 0x93]"
definition cross_sign :: string where "cross_sign = [CHR 0xE2, CHR 0x9C, CHR 0x97]"

definition report_probe :: "dest_probe \<Rightarrow> dialog \<Rightarrow> dialog" where
  "report_probe p d =
     (if \<not> dp_write p
      then say (''  '' @ cross_sign @ '' write FAILED: '' @ err_str (dp_write_err p) @ '' (backups need write access)'') d
      else
        (let d1 = say (''  '' @ check_sign @ '' write ok'') d;
             d2 = say (if dp_read p then ''  '' @ check_sign @ '' read ok''
                       else ''  ! read not available: '' @ err_str (dp_read_err p)) d1 in
         say (if dp_delete p then ''  '' @ check_sign @ '' delete ok''
              else ''  ! delete not available (append-only bucket is fine): '' @ err_str (dp_del_err p)
                     @ CHR 0x0A # ''  probe object left at '' @ dp_leftover p @ '' '' @ em_dash @ '' remove it manually'') d2))"

text \<open>The questions for a new destination; no access key leaves the credentials to AWS.\<close>

definition ask_destination :: "dialog \<Rightarrow> destination \<times> dialog" where
  "ask_destination d0 =
     (let (bucket, d1) = prompt_line ''  bucket / Space: '' d0;
          (prefix, d2) = prompt_line ''  prefix (optional): '' d1;
          (endpoint, d3) = prompt_line ''  endpoint (empty for AWS S3): '' d2;
          (region, d4) = prompt_line ''  region: '' d3;
          (ak, d5) = prompt_line (''  access key env var (empty '' @ right_arrow @ '' AWS default chain): '') d4;
          dst = \<lparr>ds_bucket = bucket, ds_prefix = prefix, ds_endpoint = endpoint, ds_region = region, ds_profile = [],
                 ds_access_key = None, ds_secret_key = None, ds_session_token = None\<rparr> in
      if ak = [] then (dst, d5)
      else let (sk, d6) = prompt_line ''  secret key env var: '' d5 in
        (dst\<lparr>ds_access_key := Some \<lparr>sr_keyring = [], sr_env = ak\<rparr>, ds_secret_key := Some \<lparr>sr_keyring = [], sr_env = sk\<rparr>\<rparr>, d6))"

definition probe_new :: "main_env \<Rightarrow> destination \<Rightarrow> dialog \<Rightarrow> dialog" where
  "probe_new V dst d =
     (case resolve_destination (command_secrets V (snd d)) dst of
        Inl e \<Rightarrow> say (''  (skipping destination test: '' @ error_text e @ '')'') d
      | Inr (s3, _) \<Rightarrow> report_probe (fst (ProbeDestination (me_probe V) (dest_probe_config dst s3))) d)"

definition create_destination :: "main_env \<Rightarrow> string \<Rightarrow> config_file \<Rightarrow> string \<Rightarrow> dialog \<Rightarrow> (goerr + string) \<times> dialog" where
  "create_destination V path cfg name d =
     (let (dst, d1) = ask_destination d in
      case validate_destination dst of
        Some e \<Rightarrow> (Inl e, d1)
      | None \<Rightarrow>
          (case save_config (me_cli V) (cfg\<lparr>cf_destinations := put_entry name dst (cf_destinations cfg)\<rparr>) path (snd d1) of
             (Some e, s) \<Rightarrow> (Inl e, (fst d1, s))
           | (None, s) \<Rightarrow> (Inr name, probe_new V dst (fst d1, s))))"

definition choose_destination :: "main_env \<Rightarrow> string \<Rightarrow> dialog \<Rightarrow> (goerr + string) \<times> dialog" where
  "choose_destination V path d =
     (case take_lock (me_cli V) path of
        Some e \<Rightarrow> (Inl e, d)
      | None \<Rightarrow>
          (case load_config (me_cli V) (snd d) path of
             Inl e \<Rightarrow> (Inl e, d)
           | Inr cfg \<Rightarrow>
               (let names = sorted_keys (cf_destinations cfg);
                    d1 = (if names = [] then d else say (''existing destinations: '' @ join_with '', '' names) d);
                    (name, d2) = prompt_line ''destination name (existing, or new to create): '' d1 in
                if name = [] then (Inl (Errorf ''a destination is required'' [] None), d2)
                else if map_of (cf_destinations cfg) name \<noteq> None then (Inr name, d2)
                else create_destination V path cfg name d2)))"

subsection \<open>The connection\<close>

text \<open>\<open>injectPw\<close>: unlike \<open>BuildDSN\<close>, it names neither the URL nor its error.\<close>

definition inject_pw :: "string \<Rightarrow> string \<Rightarrow> goerr + string" where
  "inject_pw template password =
     (case url_parse template of
        None \<Rightarrow> Inl (Errorf ''invalid DSN'' [] None)
      | Some u \<Rightarrow> Inr (url_string (u\<lparr>url_user := Some (url_username u, Some password)\<rparr>)))"

definition init_redactor :: "string \<Rightarrow> string \<Rightarrow> redactor" where
  "init_redactor password dsn = redactor_add [] [password, encoded_password password, escape EncodeQuery password, dsn]"

definition database_hint :: "string \<Rightarrow> string" where
  "database_hint default_db = (if default_db = [] then '' --database <db>'' else [])"

text \<open>Where the password is to be stored; a name is required for an environment variable.\<close>

definition ask_reference :: "string \<Rightarrow> dialog \<Rightarrow> secret_ref option \<times> dialog" where
  "ask_reference name d =
     (let (where_to, d1) = prompt_line ''store password in [K]eychain or [e]nv-ref? '' d in
      if has_prefix (to_lower where_to) ''e'' then
        (let (var, d2) = prompt_line (''env var name (e.g. DBFERRY_'' @ to_upper name @ ''_PASS): '') d1 in
         (if var = [] then None else Some \<lparr>sr_keyring = [], sr_env = var\<rparr>, d2))
      else (Some \<lparr>sr_keyring = ''dbferry/'' @ name, sr_env = []\<rparr>, d1))"

definition show_databases :: "main_env \<Rightarrow> string \<Rightarrow> dialog \<Rightarrow> dialog" where
  "show_databases V dsn d =
     (case ListDatabases (rv_world (me_run V)) dsn of
        Inl _ \<Rightarrow> d
      | Inr dbs \<Rightarrow>
          if dbs = [] then d
          else fold (\<lambda>i. say (''    '' @ di_name i @ (if di_accessible i then [] else ''  [no access]''))) dbs (say ''  databases:'' d))"

definition init_report :: "string \<Rightarrow> string \<Rightarrow> connection \<Rightarrow> cli \<Rightarrow> cli" where
  "init_report path name conn s =
     (let s' = out_line (join_with [CHR 0x0A]
            [[], ''saved connection '' @ go_quote name @ '' '' @ right_arrow @ '' '' @ path, ''back it up with:'',
             ''  dbferry run --connection '' @ name @ database_hint (cn_default_database conn)]) s in
      if sr_env (cn_password conn) = [] then s'
      else out_line (CHR 0x0A # ''remember to set the password env var: export '' @ sr_env (cn_password conn) @ ''='' @ ellipsis) s')"

text \<open>The second half: destination and recipient, then everything is stored.\<close>

definition finish_init :: "main_env \<Rightarrow> string \<Rightarrow> string \<Rightarrow> (string \<Rightarrow> string \<Rightarrow> connection) \<Rightarrow> string \<Rightarrow> dialog \<Rightarrow> nat \<times> cli" where
  "finish_init V path name conn_of password d =
     (case choose_destination V path d of
        (Inl e, d1) \<Rightarrow> fail_line e (snd d1)
      | (Inr dest_name, d1) \<Rightarrow>
          (let (rcpt, d2) = prompt_line (''age recipient (age1'' @ ellipsis @ ''; create one with `dbferry keygen`): '') d1;
               conn = conn_of dest_name rcpt in
           case rv_recipient (me_run V) rcpt of
             Some e \<Rightarrow> (1, err_line (''dbferry: invalid age recipient: '' @ error_text e) (snd d2))
           | None \<Rightarrow>
               (case validate_connection conn of
                  Some e \<Rightarrow> fail_line e (snd d2)
                | None \<Rightarrow> store_connection (me_cli V) path name conn password (init_report path name conn) (snd d2))))"

definition verify_init :: "main_env \<Rightarrow> string \<Rightarrow> string \<Rightarrow> string \<Rightarrow> string \<Rightarrow> string \<Rightarrow> secret_ref \<Rightarrow> dialog \<Rightarrow> nat \<times> cli" where
  "verify_init V path name engine template password ref d =
     (let (default_db, d1) = prompt_line ''default database to back up (optional): '' d in
      case inject_pw template password of
        Inl e \<Rightarrow> fail_line e (snd d1)
      | Inr dsn \<Rightarrow>
          (case TestConnection (rv_world (me_run V)) dsn of
             Some e \<Rightarrow>
               (1, err_line (''dbferry: connection failed: '' @ redact (init_redactor password dsn) (error_text e)) (snd d1))
           | None \<Rightarrow>
               finish_init V path name
                 (\<lambda>dest rcpt. \<lparr>cn_engine = engine, cn_dsn = template, cn_password = ref, cn_default_database = default_db,
                                cn_destination = dest, cn_age_recipient = rcpt\<rparr>)
                 password (show_databases V dsn (say (''  '' @ check_sign @ '' connection ok'') d1))))"

definition init_wizard :: "main_env \<Rightarrow> string \<Rightarrow> dialog \<Rightarrow> nat \<times> cli" where
  "init_wizard V path d =
     (let (name, d1) = prompt_line ''connection name: '' d in
      if name = [] then (1, err_line ''dbferry: a name is required'' (snd d1))
      else let (dsn, d2) = prompt_line (''database DSN (postgres://'' @ ellipsis @ '' or mysql://'' @ ellipsis @ ''): '') d1 in
        case split_dsn dsn of
          Inl e \<Rightarrow> fail_line e (snd d2)
        | Inr (engine, template, given) \<Rightarrow>
            (let (password, d3) =
                   (if given = [] then (ce_secret (me_cli V), (fst d2, err_text ''database password: '' (snd d2))) else (given, d2)) in
             if password = []
             then (1, err_line ''dbferry: a password is required to verify the connection'' (snd d3))
             else (case ask_reference name d3 of
                     (None, d4) \<Rightarrow> (1, err_line ''dbferry: env var name required'' (snd d4))
                   | (Some ref, d4) \<Rightarrow> verify_init V path name engine template password ref d4)))"

definition cmd_init :: "main_env \<Rightarrow> string list \<Rightarrow> cli \<Rightarrow> nat \<times> cli" where
  "cmd_init V args s =
     with_flags ''init'' config_flag args s (\<lambda>vs s.
       init_wizard V (config_path (me_cli V) (flag_value config_flag vs ''config''))
         (me_lines V, err_text (''dbferry init '' @ em_dash @ '' set up a named connection'' @ [CHR 0x0A, CHR 0x0A]) s))"

subsection \<open>Keys\<close>

definition keygen_flags :: "flag_spec list" where
  "keygen_flags = [(''out'', StringFlag, [])]"

text \<open>The file is created only where none was; whatever fails later removes it.\<close>

definition write_identity :: "main_env \<Rightarrow> string \<Rightarrow> cli \<Rightarrow> nat \<times> cli" where
  "write_identity V path s =
     (case (if cl_files s path \<noteq> None then Some (Foreign (''open '' @ path @ '': file exists'')) else me_key_open V) of
        Some e \<Rightarrow> (1, err_line (''dbferry: '' @ error_text e @ '' (refusing to overwrite)'') s)
      | None \<Rightarrow>
          (let uid = ce_uid (me_cli V); opened = s\<lparr>cl_files := (cl_files s)(path \<mapsto> new_file uid [])\<rparr>;
               removed = (\<lambda>s. s\<lparr>cl_files := (cl_files s)(path := None)\<rparr>) in
           case me_identity V of
             Inl e \<Rightarrow> (1, err_line (''dbferry: generate identity: '' @ error_text e) (removed opened))
           | Inr (secret, recipient) \<Rightarrow>
               (let written = s\<lparr>cl_files := (cl_files s)(path \<mapsto> new_file uid (secret @ [CHR 0x0A]))\<rparr> in
                case first_failure [me_key_write V, me_key_close V] of
                  Some e \<Rightarrow> (1, err_line (''dbferry: write identity to '' @ path @ '': '' @ error_text e) (removed written))
                | None \<Rightarrow>
                    (0, out_line (join_with [CHR 0x0A]
                       [''wrote identity to '' @ path @ '' (0600)'', ''recipient: '' @ recipient, [],
                        ''KEEP THIS FILE SAFE. It is the only key that can decrypt your backups '' @ em_dash,
                        ''dbferry never holds it. Store a copy in a password manager and offline.'']) written))))"

definition cmd_keygen :: "main_env \<Rightarrow> string list \<Rightarrow> cli \<Rightarrow> nat \<times> cli" where
  "cmd_keygen V args s =
     with_flags ''keygen'' keygen_flags args s (\<lambda>vs s.
       let path = flag_value keygen_flags vs ''out'' in
       if path = [] then (1, err_line ''usage: dbferry keygen --out PATH'' s) else write_identity V path s)"

subsection \<open>Dispatch\<close>

definition usage_text :: string where
  "usage_text = join_with [CHR 0x0A]
     [''dbferry '' @ em_dash @ '' per-database backups for managed PostgreSQL/MySQL'',
      [],
      ''usage:'',
      ''  dbferry init                                     interactive setup of a named connection'',
      ''  dbferry keygen --out PATH                        generate an age identity'',
      ''  dbferry run --connection NAME [--database DB]    back up using a named connection'',
      ''  dbferry run --dest s3://bucket/prefix --age-recipient age1... [--dsn-env DBFERRY_DSN | --dsn-file PATH]'',
      ''  dbferry test-connection [--connection NAME | --dsn-env DBFERRY_DSN | --dsn-file PATH]'',
      ''  dbferry databases [--dsn-env DBFERRY_DSN | --dsn-file PATH] [--json]'',
      ''  dbferry doctor [--connection NAME]               diagnose source + destination'',
      ''  dbferry connections  <list|show|add|rm> ...'',
      ''  dbferry destinations <list|show|add|rm> ...'',
      ''  dbferry version'',
      ''  dbferry help'',
      [],
      ''the DSN scheme selects the engine: postgres:// (or postgresql://) or mysql://'',
      [],
      ''run flags:'',
      ''  --dsn-env NAME     env var holding the DSN (default DBFERRY_DSN); never on argv'',
      ''  --dsn-file PATH    file holding the DSN (local dev; must be mode 0600)'',
      ''  --dest URL         destination, e.g. s3://bucket/prefix'',
      ''  --age-recipient R  age public recipient to encrypt to (BYOK)'',
      ''  --s3-endpoint URL  S3-compatible endpoint (e.g. MinIO); empty for AWS S3'',
      ''  --part-size SIZE   multipart part size, e.g. 32MiB (min 5MiB); default 32MiB'',
      ''  --concurrency N    parts uploaded in parallel; default 4'',
      ''  --allow-nontransactional  allow non-InnoDB (e.g. MyISAM) MySQL tables'',
      ''  --json             one JSON result object on stdout (for scripts)'',
      ''  --quiet            no progress or summary (for cron)'',
      ''  --no-color         disable ANSI colour (for logs)'',
      [],
      ''exit codes:'',
      ''  0 success   3 connect error   4 dump error   5 upload error   130 canceled'']"

definition run_main :: "main_env \<Rightarrow> string list \<Rightarrow> cli \<Rightarrow> nat \<times> cli" where
  "run_main V args s =
     (case args of
        [] \<Rightarrow> (1, err_line ''dbferry: no command given'' (err_line usage_text s))
      | a # rest \<Rightarrow>
          if a = ''init'' then cmd_init V rest s
          else if a = ''keygen'' then cmd_keygen V rest s
          else if a = ''run'' then cmd_run V rest s
          else if a = ''test-connection'' then cmd_test_connection V rest s
          else if a = ''databases'' then cmd_databases V rest s
          else if a = ''connections'' then cmd_connections (me_cli V) rest s
          else if a = ''destinations'' then cmd_destinations (me_cli V) rest s
          else if a = ''doctor'' then cmd_doctor V rest s
          else if a = ''version'' \<or> a = ''--version'' \<or> a = ''-v'' then
            (case rest of
               [] \<Rightarrow> (0, out_line (me_version V) s)
             | b # _ \<Rightarrow> (1, err_line (''dbferry version: unexpected argument '' @ go_quote b) s))
          else if a = ''help'' \<or> a = ''-h'' \<or> a = ''--help'' then (0, out_line usage_text s)
          else (1, err_line (''dbferry: unknown command '' @ go_quote a) (err_line usage_text s)))"

end
