(* ===== verification/CliChanges.thy ===== *)
theory CliChanges
  imports CliInit
begin

section \<open>What the configuration commands do to files and keychain\<close>

text \<open>
  The commands of \<open>CliConfig\<close> by their effects: one case rule per change of the configuration, and
  from these the properties: a failed command leaves file and keychain as they were, a removal
  deletes no secret that the configuration still needs, and a valid configuration stays valid.
\<close>

subsection \<open>Frames\<close>

text \<open>\<open>CreateTemp\<close> never takes the name of a file that exists.\<close>

definition fresh_temp :: "cli_env \<Rightarrow> cli \<Rightarrow> bool" where
  "fresh_temp E s \<longleftrightarrow> (\<forall>tmp. sv_create (ce_save E) = Inr tmp \<longrightarrow> cl_files s tmp = None)"

lemma save_config_result:
  assumes "save_config E c path s = (r, s')"
  shows "cl_chain s' = cl_chain s" "cl_output s' = cl_output s"
    "r = Some e \<Longrightarrow> fresh_temp E s \<Longrightarrow> cl_files s' = cl_files s"
    "cl_files s' p = cl_files s p \<or> cl_files s' p = None
       \<or> (\<exists>b. p = path \<and> r = None \<and> tm_marshal (ce_toml E) c = Inr b \<and> cl_files s' p = Some (new_file (ce_uid E) b))"
  using assms
  by (auto simp: save_config_def SaveLocked_def fill_temp_def files_after_def fresh_temp_def Let_def fun_upd_idem
      split: prod.splits option.splits sum.splits if_splits)

lemma output_simps [simp]:
  "cl_files (out_line t s) = cl_files s" "cl_chain (out_line t s) = cl_chain s"
  "cl_files (err_text t s) = cl_files s" "cl_chain (err_text t s) = cl_chain s"
  "cl_files (err_line t s) = cl_files s" "cl_chain (err_line t s) = cl_chain s"
  "snd (fail_line e s) = err_line (''dbferry: '' @ error_text e) s" "fst (fail_line e s) = 1"
  by (simp_all add: out_line_def err_text_def err_line_def fail_line_def)

lemma fold_out_lines [simp]:
  "cl_files (fold (\<lambda>n s. case f n of None \<Rightarrow> s | Some x \<Rightarrow> out_line (g n x) s) ns s) = cl_files s"
  "cl_chain (fold (\<lambda>n s. case f n of None \<Rightarrow> s | Some x \<Rightarrow> out_line (g n x) s) ns s) = cl_chain s"
  by (induction ns arbitrary: s) (simp_all split: option.split)

lemma parse_flags_state: "parse_flags name specs args s = (r, s') \<Longrightarrow> cl_files s' = cl_files s \<and> cl_chain s' = cl_chain s"
  by (auto simp: parse_flags_def split: sum.splits prod.splits list.splits flag_error.splits)

lemma split_name_state:
  assumes "split_name name specs args s = (r, s')"
  shows "cl_files s' = cl_files s \<and> cl_chain s' = cl_chain s"
proof (cases args)
  case Nil
  with assms show ?thesis by (simp add: split_name_def)
next
  case (Cons a rest)
  obtain r1 s1 r2 s2 where p: "parse_flags name specs (a # rest) s = (r1, s1)" "parse_flags name specs rest s = (r2, s2)"
    by (metis surj_pair)
  have "s' = s1 \<or> s' = s2"
    using assms Cons p by (simp add: split_name_def split: sum.splits prod.splits if_splits)
  then show ?thesis using parse_flags_state [OF p(1)] parse_flags_state [OF p(2)] by metis
qed

text \<open>What a command did, from the state \<open>s\<close> at its start: a failure left the files alone, and the
  keychain unless it said so.\<close>

definition rollback_reported :: "cli \<Rightarrow> bool" where
  "rollback_reported s \<longleftrightarrow> (\<exists>e k. Err (rollback_warning e k @ [CHR 0x0A]) \<in> set (cl_output s))"

text \<open>The state at which a command that read its arguments goes on.\<close>

definition same_state :: "cli \<Rightarrow> cli \<Rightarrow> bool" where
  "same_state s s' \<longleftrightarrow> cl_files s' = cl_files s \<and> cl_chain s' = cl_chain s"

lemma with_flags_rule:
  assumes "\<And>c s'. same_state s s' \<Longrightarrow> P (c, s')" "\<And>vs s'. same_state s s' \<Longrightarrow> P (k vs s')"
  shows "P (with_flags name specs args s k)"
proof (cases "parse_flags name specs args s")
  case (Pair r s')
  then have "same_state s s'" using parse_flags_state by (simp add: same_state_def)
  then show ?thesis using assms Pair by (cases r) (simp_all add: with_flags_def)
qed

lemma with_name_rule:
  assumes "\<And>c s'. same_state s s' \<Longrightarrow> P (c, s')" "\<And>n vs s'. same_state s s' \<Longrightarrow> P (k n vs s')"
  shows "P (with_name usage name specs args s k)"
proof (cases "split_name name specs args s")
  case (Pair r s')
  then have same: "same_state s s'" using split_name_state by (simp add: same_state_def)
  then have "same_state s (err_line usage s')" by (simp add: same_state_def)
  then show ?thesis using assms Pair same by (cases r) (simp_all add: with_name_def split: prod.split)
qed

lemma fresh_temp_same: "same_state s s' \<Longrightarrow> fresh_temp E s \<Longrightarrow> fresh_temp E s'"
  by (simp add: fresh_temp_def same_state_def)

lemma same_state_refl [simp]: "same_state s s"
  by (simp add: same_state_def)

lemma same_state_lines [simp]:
  "same_state s (out_line t s') \<longleftrightarrow> same_state s s'" "same_state s (err_line t s') \<longleftrightarrow> same_state s s'"
  "same_state s (err_text t s') \<longleftrightarrow> same_state s s'"
  by (simp_all add: same_state_def)

lemma refuse_removal_state: "refuse_removal E yes label s = (r, s') \<Longrightarrow> same_state s s'"
  by (auto simp: refuse_removal_def confirm_def same_state_def split: if_splits option.splits bool.splits)


lemma save_config_failed:
  assumes "save_config E c path s1 = (Some e, s2)" "same_state s s1" "fresh_temp E s"
  shows "same_state s s2"
  using save_config_result(1) [OF assms(1)] save_config_result(3) [OF assms(1) refl] fresh_temp_same [OF assms(2,3)] assms(2)
  by (simp add: same_state_def)

text \<open>How a change of the configuration ends.\<close>

lemma with_config_cases:
  assumes "with_config E path k s = (code, s')"
  obtains (failed) "code \<noteq> 0" "same_state s s'"
  | (loaded) cfg where "load_config E s path = Inr cfg" "k cfg s = (code, s')"
  using assms
  by (auto simp: with_config_def fail_line_def same_state_def split: option.splits sum.splits)

lemma save_then_cases:
  assumes "save_then E cfg path k s1 = (code, s')" "same_state s s1"
  obtains (failed) "code \<noteq> 0" "fresh_temp E s \<Longrightarrow> same_state s s'"
  | (saved) s2 where "code = 0" "save_config E cfg path s1 = (None, s2)" "s' = k s2"
  using assms save_config_failed [OF _ assms(2)]
  by (auto simp: save_then_def fail_line_def split: option.splits prod.splits)

lemma refuse_removal_code: "refuse_removal E yes label s = (Some n, s') \<Longrightarrow> n \<noteq> 0"
  by (auto simp: refuse_removal_def split: if_splits prod.splits option.splits bool.splits)

text \<open>A removal that is asked for, in the form both commands have.\<close>

lemma removal_cases:
  assumes "(case refuse_removal E yes label s of (Some code, s') \<Rightarrow> (code, s')
      | (None, s') \<Rightarrow> save_then E cfg path k s') = (code, s')"
  obtains (failed) "code \<noteq> 0" "fresh_temp E s \<Longrightarrow> same_state s s'"
  | (removed) s1 s2 where "code = 0" "same_state s s1" "save_config E cfg path s1 = (None, s2)" "s' = k s2"
proof (cases "refuse_removal E yes label s")
  case (Pair r s1)
  have same: "same_state s s1" using refuse_removal_state [OF Pair] .
  show ?thesis
  proof (cases r)
    case None
    then have "save_then E cfg path k s1 = (code, s')" using assms Pair by simp
    from this same show ?thesis
    proof (cases rule: save_then_cases)
      case failed
      then show ?thesis by (rule that(1))
    next
      case (saved s2)
      then show ?thesis using same by (intro that(2))
    qed
  next
    case (Some n)
    then have "code = n" "s' = s1" using assms Pair by simp_all
    then show ?thesis using refuse_removal_code same Pair Some by (intro that(1)) simp_all
  qed
qed

lemma remove_connection_cases:
  assumes "remove_connection E path name yes s = (code, s')"
  obtains (failed) "code \<noteq> 0" "fresh_temp E s \<Longrightarrow> same_state s s'"
  | (removed) cfg c s1 s2 where "code = 0" "load_config E s path = Inr cfg" "map_of (cf_connections cfg) name = Some c"
      "same_state s s1" "save_config E (cfg\<lparr>cf_connections := drop_entry name (cf_connections cfg)\<rparr>) path s1 = (None, s2)"
      "s' = out_line (''removed connection '' @ go_quote name)
              (delete_ref E (cfg\<lparr>cf_connections := drop_entry name (cf_connections cfg)\<rparr>) (cn_password c) s2)"
  using assms unfolding remove_connection_def
proof (cases rule: with_config_cases)
  case failed
  then show ?thesis using that(1) by simp
next
  case (loaded cfg)
  show ?thesis
  proof (cases "map_of (cf_connections cfg) name")
    case None
    then show ?thesis using loaded by (intro that(1)) (auto simp: same_state_def)
  next
    case found: (Some c)
    from loaded(2) show ?thesis unfolding found Let_def option.case
    proof (cases rule: removal_cases)
      case failed
      then show ?thesis by (rule that(1))
    next
      case (removed s1 s2)
      then show ?thesis using loaded(1) found by (intro that(2))
    qed
  qed
qed

lemma remove_destination_cases:
  assumes "remove_destination E path name yes s = (code, s')"
  obtains (failed) "code \<noteq> 0" "fresh_temp E s \<Longrightarrow> same_state s s'"
  | (removed) cfg d s1 s2 where "code = 0" "load_config E s path = Inr cfg" "map_of (cf_destinations cfg) name = Some d"
      "same_state s s1" "save_config E (cfg\<lparr>cf_destinations := drop_entry name (cf_destinations cfg)\<rparr>) path s1 = (None, s2)"
      "s' = out_line (''removed destination '' @ go_quote name)
              (fold (delete_ref E (cfg\<lparr>cf_destinations := drop_entry name (cf_destinations cfg)\<rparr>)) (destination_refs d) s2)"
  using assms unfolding remove_destination_def
proof (cases rule: with_config_cases)
  case failed
  then show ?thesis using that(1) by simp
next
  case (loaded cfg)
  show ?thesis
  proof (cases "map_of (cf_destinations cfg) name")
    case None
    then show ?thesis using loaded by (intro that(1)) (auto simp: same_state_def)
  next
    case found: (Some d)
    from loaded(2) show ?thesis unfolding found Let_def option.case
    proof (cases rule: removal_cases)
      case failed
      then show ?thesis by (rule that(1))
    next
      case (removed s1 s2)
      then show ?thesis using loaded(1) found by (intro that(2))
    qed
  qed
qed

lemma store_destination_cases:
  assumes "store_destination E path name dst s = (code, s')"
  obtains (failed) "code \<noteq> 0" "fresh_temp E s \<Longrightarrow> same_state s s'"
  | (stored) cfg s2 t where "code = 0" "load_config E s path = Inr cfg"
      "save_config E (cfg\<lparr>cf_destinations := put_entry name dst (cf_destinations cfg)\<rparr>) path s = (None, s2)"
      "s' = out_line t s2"
  using assms unfolding store_destination_def
proof (cases rule: with_config_cases)
  case failed
  then show ?thesis using that(1) by simp
next
  case (loaded cfg)
  have "same_state s s" by (simp add: same_state_def)
  from loaded(2) this show ?thesis
  proof (cases rule: save_then_cases)
    case failed
    then show ?thesis by (rule that(1))
  next
    case (saved s2)
    then show ?thesis using loaded(1) by (intro that(2))
  qed
qed

lemma upsert_connection_cases:
  assumes "upsert_connection E path name conn s = (r, s')"
  obtains (failed) e where "r = Some e" "fresh_temp E s \<Longrightarrow> same_state s s'"
  | (stored) cfg where "r = None" "load_config E s path = Inr cfg"
      "save_config E (cfg\<lparr>cf_connections := put_entry name conn (cf_connections cfg)\<rparr>) path s = (None, s')"
proof (cases "take_lock E path")
  case (Some e)
  then show ?thesis using assms by (intro that(1) [of e]) (simp_all add: upsert_connection_def same_state_def)
next
  case lock: None
  show ?thesis
  proof (cases "load_config E s path")
    case (Inl e)
    then show ?thesis using assms lock by (intro that(1) [of e]) (simp_all add: upsert_connection_def same_state_def)
  next
    case load: (Inr cfg)
    then have u: "save_config E (cfg\<lparr>cf_connections := put_entry name conn (cf_connections cfg)\<rparr>) path s = (r, s')"
      using assms lock by (simp add: upsert_connection_def)
    have "same_state s s" by (simp add: same_state_def)
    then show ?thesis
    proof (cases r)
      case None
      then show ?thesis using load u by (intro that(2)) simp_all
    next
      case (Some e)
      then show ?thesis using save_config_failed [OF _ \<open>same_state s s\<close>] u by (intro that(1) [of e]) simp_all
    qed
  qed
qed

lemma reported_line [simp]: "rollback_reported (err_line (rollback_warning e k) s)"
  unfolding rollback_reported_def err_line_def err_text_def by simp blast

lemma reported_more [simp]: "rollback_reported s \<Longrightarrow> rollback_reported (err_line t s)"
  unfolding rollback_reported_def err_line_def err_text_def by auto

lemma store_connection_cases:
  assumes "store_connection E path name conn password report s = (code, s')"
  obtains (failed) "code \<noteq> 0" "fresh_temp E s \<Longrightarrow> cl_files s' = cl_files s"
      "fresh_temp E s \<Longrightarrow> keyring_laws (ce_keyring E) \<Longrightarrow> cl_chain s' = cl_chain s \<or> rollback_reported s'"
  | (stored) cfg s1 s2 where "code = 0" "cl_files s1 = cl_files s" "load_config E s1 path = Inr cfg"
      "save_config E (cfg\<lparr>cf_connections := put_entry name conn (cf_connections cfg)\<rparr>) path s1 = (None, s2)"
      "s' = report s2"
      "keyring_laws (ce_keyring E) \<Longrightarrow> cl_chain s1 = (let k = sr_keyring (cn_password conn) in
         if k = [] then cl_chain s else (cl_chain s)(k \<mapsto> password))"
proof -
  let ?k = "sr_keyring (cn_password conn)"
  obtain stored K where K: "(if ?k = [] then (Inr (\<lambda>K. (None, K)), cl_chain s)
      else store_with_rollback (ce_keyring E) (cn_password conn) password (cl_chain s)) = (stored, K)" by (metis surj_pair)
  then have s1: "(if ?k = [] then (Inr (\<lambda>K. (None, K)), s)
      else (case store_with_rollback (ce_keyring E) (cn_password conn) password (cl_chain s) of (r, K) \<Rightarrow> (r, s\<lparr>cl_chain := K\<rparr>)))
      = (stored, s\<lparr>cl_chain := K\<rparr>)" by (auto split: if_splits)
  show ?thesis
  proof (cases stored)
    case (Inl e)
    then have f: "fail_line e (s\<lparr>cl_chain := K\<rparr>) = (code, s')"
      using assms unfolding store_connection_def Let_def s1 by simp
    have "K = cl_chain s" if "keyring_laws (ce_keyring E)"
      using K Inl keyring_laws.refused_untouched [OF that] by (auto split: if_splits)
    then show ?thesis using f by (intro that(1)) (auto simp: fail_line_def)
  next
    case (Inr rollback)
    obtain r s2 where u: "upsert_connection E path name conn (s\<lparr>cl_chain := K\<rparr>) = (r, s2)" by (metis surj_pair)
    have body: "(case r of None \<Rightarrow> (0, report s2)
        | Some e \<Rightarrow> (case rollback (cl_chain s2) of (None, K) \<Rightarrow> fail_line e (s2\<lparr>cl_chain := K\<rparr>)
            | (Some e', K) \<Rightarrow> fail_line e (err_line (rollback_warning e' ?k) (s2\<lparr>cl_chain := K\<rparr>)))) = (code, s')"
      using assms Inr u unfolding store_connection_def Let_def s1 by (cases r) simp_all
    from u show ?thesis
    proof (cases rule: upsert_connection_cases)
      case (failed e)
      obtain r' K' where b: "rollback (cl_chain s2) = (r', K')" by (metis surj_pair)
      have s': "code = 1" "cl_files s' = cl_files s2" "r' = None \<Longrightarrow> cl_chain s' = K'" "r' \<noteq> None \<Longrightarrow> rollback_reported s'"
        using body failed(1) b by (auto simp: fail_line_def split: option.splits)
      have same: "same_state (s\<lparr>cl_chain := K\<rparr>) s2" if "fresh_temp E s"
        using failed(2) that by (simp add: fresh_temp_def)
      have "K' = cl_chain s" if "fresh_temp E s" "keyring_laws (ce_keyring E)" "r' = None"
        using K Inr b same [OF that(1)] that(3) keyring_laws.rollback_exact(2) [OF that(2)]
        by (auto simp: same_state_def split: if_splits)
      then show ?thesis using s' same by (intro that(1)) (auto simp: same_state_def)
    next
      case (stored cfg)
      have "K = (if ?k = [] then cl_chain s else (cl_chain s)(?k \<mapsto> password))" if "keyring_laws (ce_keyring E)"
        using K Inr keyring_laws.rollback_exact(1) [OF that] by (auto split: if_splits)
      then show ?thesis using body stored by (intro that(2)) (auto simp: Let_def)
    qed
  qed
qed

subsection \<open>Validity of the configuration\<close>

definition config_valid :: "config_file \<Rightarrow> bool" where
  "config_valid cfg \<longleftrightarrow> list_all (\<lambda>(_, c). validate_connection c = None) (cf_connections cfg)
     \<and> list_all (\<lambda>(_, d). validate_destination d = None) (cf_destinations cfg)"

text \<open>Every file that reads as a configuration is a valid one.\<close>

definition files_valid :: "toml \<Rightarrow> files \<Rightarrow> bool" where
  "files_valid tm fs \<longleftrightarrow> (\<forall>p f c. fs p = Some f \<longrightarrow> tm_unmarshal tm (fl_content f) = Inr c \<longrightarrow> config_valid c)"

definition toml_inverse :: "toml \<Rightarrow> bool" where
  "toml_inverse tm \<longleftrightarrow> (\<forall>c b. tm_marshal tm c = Inr b \<longrightarrow> tm_unmarshal tm b = Inr c)"

lemma config_valid_changes:
  assumes "config_valid cfg"
  shows "validate_connection c = None \<Longrightarrow> config_valid (cfg\<lparr>cf_connections := put_entry n c (cf_connections cfg)\<rparr>)"
    "validate_destination d = None \<Longrightarrow> config_valid (cfg\<lparr>cf_destinations := put_entry n d (cf_destinations cfg)\<rparr>)"
    "config_valid (cfg\<lparr>cf_connections := drop_entry n (cf_connections cfg)\<rparr>)"
    "config_valid (cfg\<lparr>cf_destinations := drop_entry n (cf_destinations cfg)\<rparr>)"
  using assms by (auto simp: config_valid_def put_entry_def drop_entry_def list_all_iff)

lemma load_valid:
  assumes "load_config E s path = Inr cfg" "files_valid (ce_toml E) (cl_files s)"
  shows "config_valid cfg"
proof (cases "cl_files s path")
  case None
  then show ?thesis using assms(1)
    by (auto simp: load_config_def Load_def config_valid_def empty_config_def split: option.splits)
next
  case (Some f)
  then have "tm_unmarshal (ce_toml E) (fl_content f) = Inr cfg" using assms(1)
    by (auto simp: load_config_def Load_def split: option.splits if_splits sum.splits prod.splits)
  then show ?thesis using assms(2) Some by (auto simp: files_valid_def)
qed

lemma save_valid:
  assumes "save_config E cfg path s = (r, s')" "config_valid cfg" "toml_inverse (ce_toml E)" "files_valid (ce_toml E) (cl_files s)"
  shows "files_valid (ce_toml E) (cl_files s')"
  unfolding files_valid_def
proof (intro allI impI)
  fix p f c
  assume f: "cl_files s' p = Some f" "tm_unmarshal (ce_toml E) (fl_content f) = Inr c"
  consider "cl_files s p = Some f" | b where "tm_marshal (ce_toml E) cfg = Inr b" "f = new_file (ce_uid E) b"
    using save_config_result(4) [OF assms(1), of p] f(1) by auto
  then show "config_valid c"
  proof cases
    case 1
    then show ?thesis using assms(4) f(2) unfolding files_valid_def by blast
  next
    case (2 b)
    then have "c = cfg" using assms(3) f(2) unfolding toml_inverse_def by (auto simp: new_file_def)
    then show ?thesis using assms(2) by simp
  qed
qed

lemma delete_ref_files [simp]: "cl_files (delete_ref E cfg r s) = cl_files s"
  by (simp add: delete_ref_def split: option.split prod.split)

lemma fold_delete_ref_files [simp]: "cl_files (fold (delete_ref E cfg) rs s) = cl_files s"
  by (induction rs arbitrary: s) simp_all

text \<open>The two promises of a command that runs to its end, in one predicate that the rules for its start
  carry to its body.\<close>

definition kept :: "cli_env \<Rightarrow> cli \<Rightarrow> nat \<times> cli \<Rightarrow> bool" where
  "kept E s r \<longleftrightarrow>
     (fst r \<noteq> 0 \<longrightarrow> cl_files (snd r) = cl_files s)
     \<and> (fst r \<noteq> 0 \<longrightarrow> keyring_laws (ce_keyring E) \<longrightarrow> cl_chain (snd r) = cl_chain s \<or> rollback_reported (snd r))
     \<and> (toml_inverse (ce_toml E) \<longrightarrow> files_valid (ce_toml E) (cl_files s) \<longrightarrow> files_valid (ce_toml E) (cl_files (snd r)))"

lemma kept_same: "same_state s s' \<Longrightarrow> kept E s (c, s')"
  by (simp add: kept_def same_state_def)

lemma kept_fail: "same_state s s' \<Longrightarrow> kept E s (fail_line e s')"
  by (simp add: kept_def same_state_def)

lemma kept_later: "same_state s0 s \<Longrightarrow> kept E s r \<Longrightarrow> kept E s0 r"
  by (simp add: kept_def same_state_def)

lemma kept_failed: "code \<noteq> 0 \<Longrightarrow> cl_files s' = cl_files s
   \<Longrightarrow> (keyring_laws (ce_keyring E) \<Longrightarrow> cl_chain s' = cl_chain s \<or> rollback_reported s') \<Longrightarrow> kept E s (code, s')"
  by (simp add: kept_def)

lemma kept_saved:
  assumes "load_config E s path = Inr cfg" "save_config E cfg' path s1 = (None, s2)" "cl_files s1 = cl_files s"
    and "config_valid cfg \<Longrightarrow> config_valid cfg'" "cl_files s' = cl_files s2"
  shows "kept E s (0, s')"
  using load_valid [OF assms(1)] save_valid [OF assms(2)] assms(3-5) by (simp add: kept_def)

lemma store_connection_kept:
  assumes "fresh_temp E s" "validate_connection conn = None" "\<And>t. same_state t (report t)"
  shows "kept E s (store_connection E path name conn password report s)"
proof (cases "store_connection E path name conn password report s")
  case (Pair code s')
  then show ?thesis
  proof (cases rule: store_connection_cases)
    case failed
    then show ?thesis using assms(1) Pair kept_failed by simp
  next
    case (stored cfg s1 s2)
    have l: "load_config E s path = Inr cfg" using stored(2,3) by (simp add: load_config_def)
    have "kept E s (0, s')"
      by (rule kept_saved [OF l stored(4,2)]) (use assms(3) [of s2] in \<open>simp_all add: config_valid_changes assms(2) stored(5) same_state_def\<close>)
    then show ?thesis using Pair stored(1) by simp
  qed
qed

lemma store_destination_kept:
  assumes "fresh_temp E s" "validate_destination dst = None"
  shows "kept E s (store_destination E path name dst s)"
proof (cases "store_destination E path name dst s")
  case (Pair code s')
  then show ?thesis
  proof (cases rule: store_destination_cases)
    case failed
    then show ?thesis using assms(1) Pair kept_same by simp
  next
    case (stored cfg s2 t)
    have "kept E s (0, s')"
      by (rule kept_saved [OF stored(2,3) refl]) (simp_all add: config_valid_changes assms(2) stored(4))
    then show ?thesis using Pair stored(1) by simp
  qed
qed

lemma remove_connection_kept:
  assumes "fresh_temp E s"
  shows "kept E s (remove_connection E path name yes s)"
proof (cases "remove_connection E path name yes s")
  case (Pair code s')
  then show ?thesis
  proof (cases rule: remove_connection_cases)
    case failed
    then show ?thesis using assms Pair kept_same by simp
  next
    case (removed cfg c s1 s2)
    have "kept E s (0, s')"
      by (rule kept_saved [OF removed(2,5)]) (use removed(4,6) in \<open>simp_all add: config_valid_changes same_state_def\<close>)
    then show ?thesis using Pair removed(1) by simp
  qed
qed

lemma remove_destination_kept:
  assumes "fresh_temp E s"
  shows "kept E s (remove_destination E path name yes s)"
proof (cases "remove_destination E path name yes s")
  case (Pair code s')
  then show ?thesis
  proof (cases rule: remove_destination_cases)
    case failed
    then show ?thesis using assms Pair kept_same by simp
  next
    case (removed cfg d s1 s2)
    have "kept E s (0, s')"
      by (rule kept_saved [OF removed(2,5)]) (use removed(4,6) in \<open>simp_all add: config_valid_changes same_state_def\<close>)
    then show ?thesis using Pair removed(1) by simp
  qed
qed

lemma same_state_fold [simp]:
  "same_state s (fold (\<lambda>n s. case f n of None \<Rightarrow> s | Some x \<Rightarrow> out_line (g n x) s) ns s') \<longleftrightarrow> same_state s s'"
  by (simp add: same_state_def)

lemma connections_list_kept: "kept E s (connections_list E args s)"
  unfolding connections_list_def
  by (rule with_flags_rule [where P = "kept E s"]) (simp_all add: kept_same kept_fail split: sum.split)

lemma destinations_list_kept: "kept E s (destinations_list E args s)"
  unfolding destinations_list_def
  by (rule with_flags_rule [where P = "kept E s"]) (simp_all add: kept_same kept_fail split: sum.split)

lemma connections_show_kept: "kept E s (connections_show E args s)"
  unfolding connections_show_def
  by (rule with_name_rule [where P = "kept E s"]) (simp_all add: kept_same kept_fail split: sum.split option.split)

lemma destinations_show_kept: "kept E s (destinations_show E args s)"
  unfolding destinations_show_def
  by (rule with_name_rule [where P = "kept E s"]) (simp_all add: kept_same kept_fail split: sum.split option.split)

lemma connections_rm_kept: "fresh_temp E s \<Longrightarrow> kept E s (connections_rm E args s)"
  unfolding connections_rm_def
  by (rule with_name_rule [where P = "kept E s"])
    (auto intro: kept_same kept_later remove_connection_kept fresh_temp_same)

lemma destinations_rm_kept: "fresh_temp E s \<Longrightarrow> kept E s (destinations_rm E args s)"
  unfolding destinations_rm_def
  by (rule with_name_rule [where P = "kept E s"])
    (auto intro: kept_same kept_later remove_destination_kept fresh_temp_same)

lemma store_connection_later:
  assumes "same_state s s'" "fresh_temp E s" "validate_connection conn = None" "\<And>t. same_state t (report t)"
  shows "kept E s (store_connection E path name conn password report s')"
  using kept_later [OF assms(1) store_connection_kept [OF fresh_temp_same [OF assms(1,2)] assms(3,4)]] .

lemma read_secret_same [simp]: "same_state s (snd (read_secret E label s')) \<longleftrightarrow> same_state s s'"
  by (simp add: read_secret_def)

lemma add_connection_kept:
  assumes "fresh_temp E s"
  shows "kept E s (add_connection E name v s)"
proof (cases "split_dsn (v ''dsn'')")
  case (Inl e)
  then show ?thesis by (simp add: add_connection_def kept_same kept_fail)
next
  case (Inr t)
  obtain engine template given where t: "t = (engine, template, given)" by (cases t)
  show ?thesis unfolding add_connection_def Inr t sum.case prod.case Let_def read_secret_def
    using assms by (auto simp: kept_same intro: store_connection_later split: option.split)
qed

lemma add_destination_kept: "fresh_temp E s \<Longrightarrow> kept E s (add_destination E name v s)"
  by (auto simp: add_destination_def kept_same store_destination_kept split: option.split)

lemma connections_add_kept: "fresh_temp E s \<Longrightarrow> kept E s (connections_add E args s)"
  unfolding connections_add_def
  by (rule with_name_rule [where P = "kept E s"])
    (auto intro: kept_same kept_later add_connection_kept fresh_temp_same)

lemma destinations_add_kept: "fresh_temp E s \<Longrightarrow> kept E s (destinations_add E args s)"
  unfolding destinations_add_def
  by (rule with_name_rule [where P = "kept E s"])
    (auto intro: kept_same kept_later add_destination_kept fresh_temp_same)

lemma subcommand_rule:
  assumes "\<And>c s'. same_state s s' \<Longrightarrow> P (c, s')" "length handlers = 4" "\<And>h args. h \<in> set handlers \<Longrightarrow> P (h E args s)"
  shows "P (subcommand what handlers E args s)"
  using assms(3) [OF nth_mem] assms(1) assms(2)
  by (cases args) (simp_all add: subcommand_def Let_def same_state_def)

lemma commands_kept:
  assumes "fresh_temp E s"
  shows "kept E s (cmd_connections E args s)" "kept E s (cmd_destinations E args s)"
  unfolding cmd_connections_def cmd_destinations_def
  by (rule subcommand_rule [where P = "kept E s"];
      auto intro: kept_same connections_list_kept connections_show_kept connections_add_kept connections_rm_kept
        destinations_list_kept destinations_show_kept destinations_add_kept destinations_rm_kept assms)+

subsection \<open>Which secrets a removal deletes\<close>

definition keyring_names :: "config_file \<Rightarrow> string list" where
  "keyring_names cfg = filter (\<lambda>k. k \<noteq> [])
     (map sr_keyring (map (\<lambda>nc. cn_password (snd nc)) (cf_connections cfg)
        @ concat (map (\<lambda>nd. destination_refs (snd nd)) (cf_destinations cfg))))"

definition warned :: "cli \<Rightarrow> bool" where
  "warned s \<longleftrightarrow> (\<exists>t. Err (''dbferry: warning: '' @ t @ [CHR 0x0A]) \<in> set (cl_output s))"

text \<open>A decoded map has each name once.\<close>

definition toml_distinct :: "toml \<Rightarrow> bool" where
  "toml_distinct tm \<longleftrightarrow> (\<forall>b c. tm_unmarshal tm b = Inr c
     \<longrightarrow> distinct (map fst (cf_connections c)) \<and> distinct (map fst (cf_destinations c)))"

lemma still_used_name: "sr_keyring r \<noteq> [] \<Longrightarrow> secret_ref_still_used cfg r \<longleftrightarrow> sr_keyring r \<in> set (keyring_names cfg)"
proof -
  have "list_ex (\<lambda>(_, c). sr_keyring (cn_password c) = k) xs \<longleftrightarrow> k \<in> set (map sr_keyring (map (\<lambda>nc. cn_password (snd nc)) xs))"
    for k and xs :: "(string \<times> connection) list" by (induction xs) auto
  moreover have e: "list_ex (\<lambda>r. sr_keyring r = k) rs \<longleftrightarrow> k \<in> sr_keyring ` set rs" for k rs by (induction rs) auto
  have "list_ex (\<lambda>(_, d). list_ex (\<lambda>r. sr_keyring r = k) (destination_refs d)) ys
      \<longleftrightarrow> k \<in> set (map sr_keyring (concat (map (\<lambda>nd. destination_refs (snd nd)) ys)))"
    for k and ys :: "(string \<times> destination) list" unfolding e by (induction ys) (auto simp del: set_concat simp add: set_append)
  ultimately show "sr_keyring r \<noteq> [] \<Longrightarrow> ?thesis"
    unfolding secret_ref_still_used_def keyring_names_def by (simp del: set_map add: set_append)
qed

lemma warned_more: "warned s \<Longrightarrow> warned (err_line t s)" "warned s \<Longrightarrow> warned (out_line t s)"
  "warned (err_line (''dbferry: warning: '' @ t) s)" "warned (s\<lparr>cl_chain := K\<rparr>) = warned s"
  unfolding warned_def err_line_def err_text_def out_line_def by auto

lemma delete_ref_chain:
  assumes "keyring_laws (ce_keyring E)" "delete_ref E cfg r s = s'"
  shows "k \<in> set (keyring_names cfg) \<Longrightarrow> cl_chain s' k = cl_chain s k"
    "k \<noteq> sr_keyring r \<Longrightarrow> cl_chain s' k = cl_chain s k"
    "cl_chain s' k = cl_chain s k \<or> cl_chain s' k = None"
    "sr_keyring r \<noteq> [] \<Longrightarrow> sr_keyring r \<notin> set (keyring_names cfg) \<Longrightarrow> cl_chain s' (sr_keyring r) = None \<or> warned s'"
    "warned s \<Longrightarrow> warned s'"
proof -
  obtain e K where d: "ref_delete (ce_keyring E) r (cl_chain s) = (e, K)" by (metis surj_pair)
  have "(k \<in> set (keyring_names cfg) \<longrightarrow> cl_chain s' k = cl_chain s k) \<and> (k \<noteq> sr_keyring r \<longrightarrow> cl_chain s' k = cl_chain s k)
    \<and> (cl_chain s' k = cl_chain s k \<or> cl_chain s' k = None)
    \<and> (sr_keyring r \<noteq> [] \<longrightarrow> sr_keyring r \<notin> set (keyring_names cfg) \<longrightarrow> cl_chain s' (sr_keyring r) = None \<or> warned s')
    \<and> (warned s \<longrightarrow> warned s')"
  proof (cases "sr_keyring r \<noteq> [] \<and> sr_keyring r \<notin> set (keyring_names cfg)")
    case False
    then have "s' = s" using assms(2) still_used_name [of r cfg] by (auto simp: delete_ref_def)
    then show ?thesis using False by auto
  next
    case True
    then have u: "\<not> secret_ref_still_used cfg r" using still_used_name by simp
    show ?thesis
    proof (cases e)
      case None
      then have "K = (cl_chain s)(sr_keyring r := None)" "s' = s\<lparr>cl_chain := K\<rparr>"
        using keyring_laws.delete_ok [OF assms(1)] d True assms(2) u by (simp_all add: delete_ref_def)
      then show ?thesis using True by (auto simp: warned_more)
    next
      case (Some e')
      then have "K = cl_chain s" "s' = err_line (''dbferry: warning: '' @ error_text e') (s\<lparr>cl_chain := K\<rparr>)"
        using keyring_laws.delete_error [OF assms(1)] d True assms(2) u by (simp_all add: delete_ref_def)
      moreover have "warned s'" unfolding calculation(2) by (rule warned_more(3))
      ultimately show ?thesis by simp
    qed
  qed
  then show "k \<in> set (keyring_names cfg) \<Longrightarrow> cl_chain s' k = cl_chain s k"
    "k \<noteq> sr_keyring r \<Longrightarrow> cl_chain s' k = cl_chain s k"
    "cl_chain s' k = cl_chain s k \<or> cl_chain s' k = None"
    "sr_keyring r \<noteq> [] \<Longrightarrow> sr_keyring r \<notin> set (keyring_names cfg) \<Longrightarrow> cl_chain s' (sr_keyring r) = None \<or> warned s'"
    "warned s \<Longrightarrow> warned s'" by simp_all
qed

lemma fold_delete_chain:
  assumes "keyring_laws (ce_keyring E)" "fold (delete_ref E cfg) rs s = s'"
  shows "(k \<in> set (keyring_names cfg) \<longrightarrow> cl_chain s' k = cl_chain s k)
    \<and> (k \<notin> sr_keyring ` set rs \<longrightarrow> cl_chain s' k = cl_chain s k)
    \<and> (cl_chain s' k = cl_chain s k \<or> cl_chain s' k = None)
    \<and> (k \<in> sr_keyring ` set rs \<longrightarrow> k \<noteq> [] \<longrightarrow> k \<notin> set (keyring_names cfg) \<longrightarrow> cl_chain s' k = None \<or> warned s')
    \<and> (warned s \<longrightarrow> warned s')"
  using assms(2)
proof (induction rs arbitrary: s)
  case Nil
  then show ?case by simp
next
  case (Cons r rs)
  let ?t = "delete_ref E cfg r s"
  have f: "fold (delete_ref E cfg) rs ?t = s'" using Cons.prems by simp
  note d = delete_ref_chain [OF assms(1) refl]
  have "k \<in> set (keyring_names cfg) \<longrightarrow> cl_chain s' k = cl_chain s k"
    using Cons.IH [OF f] d(1) by simp
  moreover have "k \<notin> sr_keyring ` set (r # rs) \<longrightarrow> cl_chain s' k = cl_chain s k"
    using Cons.IH [OF f] d(2) by simp
  moreover have "cl_chain s' k = cl_chain s k \<or> cl_chain s' k = None"
    using Cons.IH [OF f] d(3) by metis
  moreover have "cl_chain s' k = None \<or> warned s'"
    if "k \<in> sr_keyring ` set (r # rs)" "k \<noteq> []" "k \<notin> set (keyring_names cfg)"
  proof (cases "k \<in> sr_keyring ` set rs")
    case True
    then show ?thesis using Cons.IH [OF f] that by simp
  next
    case False
    then have "k = sr_keyring r" using that(1) by simp
    then have "cl_chain ?t k = None \<or> warned ?t" using d(4) that by simp
    then show ?thesis using Cons.IH [OF f] by metis
  qed
  moreover have "warned s \<longrightarrow> warned s'" using Cons.IH [OF f] d(5) by simp
  ultimately show ?case by blast
qed

text \<open>The configuration after a removal, as the next command loads it.\<close>

lemma saved_loads:
  assumes "load_config E s path = Inr cfg" "cl_files s path \<noteq> None" "same_state s s1" "fresh_temp E s"
    and "save_config E cfg' path s1 = (None, s2)" "toml_inverse (ce_toml E)" "without_password cfg' = None"
    and "cl_files s' = cl_files s2"
  shows "load_config E s' path = Inr cfg'" "p \<noteq> path \<Longrightarrow> cl_files s' p = cl_files s p" "cl_chain s2 = cl_chain s"
proof -
  obtain f where f: "cl_files s path = Some f" using assms(2) by auto
  have E: "ce_stat_error E = None" "ce_read_error E = None"
    using assms(1) f by (auto simp: load_config_def Load_def split: option.splits if_splits)
  obtain b tmp where b: "tm_marshal (ce_toml E) cfg' = Inr b" "sv_create (ce_save E) = Inr tmp"
    and t: "fill_temp (ce_save E) (ce_uid E) tmp path b (cl_files s1)
        = (None, snd (SaveLocked (ce_toml E) (ce_save E) (ce_uid E) cfg' path (cl_files s1)))"
    and s2: "cl_files s2 = files_after (cl_files s1) (snd (SaveLocked (ce_toml E) (ce_save E) (ce_uid E) cfg' path (cl_files s1)))"
    using assms(5) by (auto simp: save_config_def SaveLocked_def split: prod.splits option.splits sum.splits)
  have "cl_files s tmp = None" using assms(4) b(2) by (simp add: fresh_temp_def)
  then have "cl_files s1 tmp = None" "tmp \<noteq> path" using f assms(3) by (auto simp: same_state_def)
  then have fs: "cl_files s2 = (cl_files s)(path \<mapsto> new_file (ce_uid E) b)"
    using fill_temp_states(2) [OF t] s2 assms(3) by (simp add: same_state_def)
  then show "load_config E s' path = Inr cfg'"
    using assms(6,7,8) b(1) E
    by (simp add: load_config_def Load_def new_file_def require_private_def check_owner_def toml_inverse_def)
  show "p \<noteq> path \<Longrightarrow> cl_files s' p = cl_files s p" using fs assms(8) by simp
  show "cl_chain s2 = cl_chain s" using save_config_result(1) [OF assms(5)] assms(3) by (simp add: same_state_def)
qed

lemma keyring_names_iff:
  "k \<in> set (keyring_names cfg) \<longleftrightarrow> k \<noteq> []
     \<and> ((\<exists>n c. (n, c) \<in> set (cf_connections cfg) \<and> sr_keyring (cn_password c) = k)
       \<or> (\<exists>n d r. (n, d) \<in> set (cf_destinations cfg) \<and> r \<in> set (destination_refs d) \<and> sr_keyring r = k))"
proof -
  have "k \<in> set (keyring_names cfg) \<longleftrightarrow> k \<noteq> []
     \<and> ((\<exists>nc \<in> set (cf_connections cfg). k = sr_keyring (cn_password (snd nc)))
       \<or> (\<exists>nd \<in> set (cf_destinations cfg). \<exists>r \<in> set (destination_refs (snd nd)). k = sr_keyring r))"
    by (simp add: keyring_names_def image_iff bex_Un) blast
  then show ?thesis unfolding Bex_def split_paired_Ex snd_conv by blast
qed

lemma entry_names:
  "(n, c) \<in> set (cf_connections cfg) \<Longrightarrow> sr_keyring (cn_password c) \<noteq> [] \<Longrightarrow> sr_keyring (cn_password c) \<in> set (keyring_names cfg)"
  "(n, d) \<in> set (cf_destinations cfg) \<Longrightarrow> r \<in> set (destination_refs d) \<Longrightarrow> sr_keyring r \<noteq> []
     \<Longrightarrow> sr_keyring r \<in> set (keyring_names cfg)"
  unfolding keyring_names_iff by blast+

lemma nonempty_name: "k \<in> set (keyring_names cfg) \<Longrightarrow> k \<noteq> []"
  by (simp add: keyring_names_iff)

lemma drop_entry_iff [simp]: "(n, x) \<in> set (drop_entry name m) \<longleftrightarrow> (n, x) \<in> set m \<and> n \<noteq> name"
  by (auto simp: drop_entry_def)

lemma removed_names:
  assumes "k \<in> set (keyring_names cfg)"
  shows "distinct (map fst (cf_connections cfg)) \<Longrightarrow> map_of (cf_connections cfg) name = Some c
      \<Longrightarrow> k \<in> set (keyring_names (cfg\<lparr>cf_connections := drop_entry name (cf_connections cfg)\<rparr>)) \<or> k = sr_keyring (cn_password c)"
    "distinct (map fst (cf_destinations cfg)) \<Longrightarrow> map_of (cf_destinations cfg) name = Some d
      \<Longrightarrow> k \<in> set (keyring_names (cfg\<lparr>cf_destinations := drop_entry name (cf_destinations cfg)\<rparr>))
        \<or> k \<in> sr_keyring ` set (destination_refs d)"
  using assms unfolding keyring_names_iff by (simp, metis map_of_is_SomeI option.inject, simp, metis map_of_is_SomeI option.inject imageI)

lemma kept_names: "k \<in> set (keyring_names (cfg\<lparr>cf_connections := drop_entry name (cf_connections cfg)\<rparr>)) \<Longrightarrow> k \<in> set (keyring_names cfg)"
  "k \<in> set (keyring_names (cfg\<lparr>cf_destinations := drop_entry name (cf_destinations cfg)\<rparr>)) \<Longrightarrow> k \<in> set (keyring_names cfg)"
  unfolding keyring_names_iff by (simp, blast, simp, blast)

lemma loaded_file:
  assumes "load_config E s path = Inr cfg" "cfg \<noteq> empty_config" "toml_distinct (ce_toml E)"
  shows "cl_files s path \<noteq> None" "distinct (map fst (cf_connections cfg))" "distinct (map fst (cf_destinations cfg))"
    "without_password cfg = None"
proof -
  obtain f where f: "cl_files s path = Some f" "tm_unmarshal (ce_toml E) (fl_content f) = Inr cfg" "without_password cfg = None"
    using assms(1,2) by (auto simp: load_config_def Load_def split: option.splits if_splits sum.splits prod.splits)
  then show "cl_files s path \<noteq> None" "distinct (map fst (cf_connections cfg))" "distinct (map fst (cf_destinations cfg))"
    "without_password cfg = None"
    using assms(3) unfolding toml_distinct_def by auto
qed

lemma without_password_dropped: "without_password cfg = None \<Longrightarrow>
   without_password (cfg\<lparr>cf_connections := drop_entry n (cf_connections cfg)\<rparr>) = None"
  "without_password (cfg\<lparr>cf_destinations := ds\<rparr>) = without_password cfg"
  by (auto simp: without_password_def drop_entry_def find_None_iff)

text \<open>What both removals do once the configuration without the entry is written.\<close>

lemma removal_result:
  assumes "keyring_laws (ce_keyring E)" "fresh_temp E s" "toml_inverse (ce_toml E)" "load_config E s path = Inr cfg"
    and "cl_files s path \<noteq> None" "without_password cfg' = None" "same_state s s1" "save_config E cfg' path s1 = (None, s2)"
    and s': "s' = out_line t (fold (delete_ref E cfg') rs s2)"
    and names: "\<And>k. k \<in> set (keyring_names cfg) \<longleftrightarrow> k \<in> set (keyring_names cfg') \<or> k \<in> sr_keyring ` set rs \<and> k \<noteq> []"
  shows "load_config E s' path = Inr cfg' \<and> (\<forall>p. p \<noteq> path \<longrightarrow> cl_files s' p = cl_files s p)
    \<and> (\<forall>k. k \<in> set (keyring_names cfg') \<or> k \<notin> set (keyring_names cfg) \<longrightarrow> cl_chain s' k = cl_chain s k)
    \<and> (\<forall>k. k \<in> set (keyring_names cfg) \<and> k \<notin> set (keyring_names cfg') \<longrightarrow> cl_chain s' k = None \<or> warned s')"
proof -
  let ?t = "fold (delete_ref E cfg') rs s2"
  have files: "cl_files s' = cl_files s2" and chain: "cl_chain s' = cl_chain ?t" and w: "warned ?t \<Longrightarrow> warned s'"
    unfolding s' by (simp, simp, rule warned_more(2))
  note after = saved_loads [OF assms(4,5,7,2,8,3,6) files]
  note d = fold_delete_chain [OF assms(1) refl, of _ cfg' rs s2]
  have empty: "cl_chain ?t [] = cl_chain s2 []"
  proof (induction rs arbitrary: s2)
    case (Cons r rs)
    have "cl_chain (delete_ref E cfg' r s2) [] = cl_chain s2 []"
      using delete_ref_chain(2) [OF assms(1) refl, of "[]" r] by (cases "sr_keyring r = []") (simp_all add: delete_ref_def)
    with Cons show ?case by simp
  qed simp
  have "cl_chain s' k = cl_chain s k" if "k \<in> set (keyring_names cfg') \<or> k \<notin> set (keyring_names cfg)" for k
    using that d [of k] empty names [of k] after(3) chain by (cases "k = []") auto
  moreover have "cl_chain s' k = None \<or> warned s'" if "k \<in> set (keyring_names cfg)" "k \<notin> set (keyring_names cfg')" for k
    using that d [of k] names [of k] chain w by auto
  ultimately show ?thesis using after(1,2) by blast
qed

subsection \<open>Properties\<close>

text \<open>C26: a command on the configuration that fails has changed nothing: the files are as before,
  and the keychain is, unless the command reported that it could not put it back.\<close>

theorem failed_command_harmless:
  assumes "keyring_laws (ce_keyring E)" "fresh_temp E s" "code \<noteq> 0"
    and "cmd_connections E args s = (code, s') \<or> cmd_destinations E args s = (code, s')"
  shows "cl_files s' = cl_files s \<and> (cl_chain s' = cl_chain s \<or> rollback_reported s')"
proof -
  have "kept E s (code, s')" using commands_kept [OF assms(2), of args] assms(4) by metis
  then show ?thesis using assms(1,3) by (simp add: kept_def)
qed

text \<open>C25: a removal deletes no secret that is still needed: after a successful removal the file loads as
  the old configuration without the entry, no other file has changed, every keychain value that the
  remaining entries refer to and every value that was never referred to is as before, and a value
  that only the removed entry referred to is gone or the command warned that it is not.\<close>

theorem removal_keeps_needed_secrets:
  assumes "keyring_laws (ce_keyring E)" "fresh_temp E s" "toml_inverse (ce_toml E)" "toml_distinct (ce_toml E)"
    and "remove_connection E path name yes s = (0, s') \<or> remove_destination E path name yes s = (0, s')"
  shows "\<exists>cfg cfg'. load_config E s path = Inr cfg \<and> load_config E s' path = Inr cfg'
    \<and> (cfg' = cfg\<lparr>cf_connections := drop_entry name (cf_connections cfg)\<rparr>
       \<or> cfg' = cfg\<lparr>cf_destinations := drop_entry name (cf_destinations cfg)\<rparr>)
    \<and> (\<forall>p. p \<noteq> path \<longrightarrow> cl_files s' p = cl_files s p)
    \<and> (\<forall>k. k \<in> set (keyring_names cfg') \<or> k \<notin> set (keyring_names cfg) \<longrightarrow> cl_chain s' k = cl_chain s k)
    \<and> (\<forall>k. k \<in> set (keyring_names cfg) \<and> k \<notin> set (keyring_names cfg') \<longrightarrow> cl_chain s' k = None \<or> warned s')"
  using assms(5)
proof
  assume "remove_connection E path name yes s = (0, s')"
  then show ?thesis
  proof (cases rule: remove_connection_cases)
    case (removed cfg c s1 s2)
    let ?cfg = "cfg\<lparr>cf_connections := drop_entry name (cf_connections cfg)\<rparr>"
    have "cfg \<noteq> empty_config" using removed(3) by (auto simp: empty_config_def)
    note l = loaded_file [OF removed(2) this assms(4)]
    have names: "k \<in> set (keyring_names cfg) \<longleftrightarrow> k \<in> set (keyring_names ?cfg) \<or> k \<in> sr_keyring ` set [cn_password c] \<and> k \<noteq> []" for k
      using removed_names(1) [OF _ l(2) removed(3), of k] kept_names(1) [of k name cfg] entry_names(1) [OF map_of_SomeD [OF removed(3)]]
        nonempty_name [of k cfg] by auto
    have s': "s' = out_line (''removed connection '' @ go_quote name) (fold (delete_ref E ?cfg) [cn_password c] s2)"
      unfolding removed(6) by simp
    note result = removal_result [OF assms(1-3) removed(2) l(1) without_password_dropped(1) [OF l(4)] removed(4,5) s' names]
    show ?thesis by (intro exI [of _ cfg] exI [of _ ?cfg] conjI disjI1 refl removed(2) result [THEN conjunct1] result [THEN conjunct2])
  qed simp
next
  assume "remove_destination E path name yes s = (0, s')"
  then show ?thesis
  proof (cases rule: remove_destination_cases)
    case (removed cfg d s1 s2)
    let ?cfg = "cfg\<lparr>cf_destinations := drop_entry name (cf_destinations cfg)\<rparr>"
    have "cfg \<noteq> empty_config" using removed(3) by (auto simp: empty_config_def)
    note l = loaded_file [OF removed(2) this assms(4)]
    have w: "without_password ?cfg = None" using l(4) by (simp add: without_password_dropped)
    have names: "k \<in> set (keyring_names cfg) \<longleftrightarrow> k \<in> set (keyring_names ?cfg) \<or> k \<in> sr_keyring ` set (destination_refs d) \<and> k \<noteq> []" for k
      using removed_names(2) [OF _ l(3) removed(3), of k] kept_names(2) [of k name cfg] entry_names(2) [OF map_of_SomeD [OF removed(3)]]
        nonempty_name [of k cfg] by auto
    note result = removal_result [OF assms(1-3) removed(2) l(1) w removed(4,5,6) names]
    show ?thesis by (intro exI [of _ cfg] exI [of _ ?cfg] conjI disjI2 refl removed(2) result [THEN conjunct1] result [THEN conjunct2])
  qed simp
qed

text \<open>C27: a DSN that \<open>connections add\<close> splits into a template and a password is put together again: the
  template that is stored parses and holds no password, and the DSN built from it with the password
  that went to the keychain reaches the same host, user, path and options.\<close>

theorem split_dsn_roundtrip:
  assumes "url_parse dsn = Some u" "url_host u \<noteq> []" "host_plain (url_host u)" "url_username u \<noteq> []"
    and "split_dsn dsn = Inr (engine, template, pw)"
  shows "\<exists>w full v. url_parse template = Some w \<and> url_password w = None
    \<and> BuildDSN template pw [] = Inr full \<and> url_parse full = Some v
    \<and> url_scheme v = url_scheme u \<and> url_host v = url_host u \<and> url_path v = url_path u \<and> url_rawquery v = url_rawquery u
    \<and> url_user v = Some (url_username u, Some pw) \<and> (url_password u = Some pw \<or> url_password u = None \<and> pw = [])
    \<and> engine = (if url_scheme u = ''mysql'' then ''mysql'' else ''postgres'')"
proof -
  let ?s = "u\<lparr>url_user := Some (url_username u, None)\<rparr>"
  have scheme: "url_scheme u \<noteq> []" "engine = (if url_scheme u = ''mysql'' then ''mysql'' else ''postgres'')"
    using assms(1,5) by (auto simp: split_dsn_def Let_def split: if_splits)
  have du: "dsn_url u" by (rule parsed_dsn_url [OF assms(1) scheme(1) assms(2,3)])
  have user: "url_user u = Some (url_username u, url_password u)"
    using assms(4) by (cases "url_user u") (auto simp: url_username_def url_password_def)
  then have "url_password u = None \<Longrightarrow> u = ?s" by (cases u) simp
  then have t: "template = url_string ?s" "url_password u = Some pw \<or> url_password u = None \<and> pw = []"
    using assms(1,5) by (auto simp: split_dsn_def Let_def split: if_splits option.splits)
  have ds: "dsn_url ?s" using dsn_url_changed [OF du, where db = "[]"] by simp
  have "user_shown (url_user ?s)" using assms(4) by (simp add: user_shown_def)
  then obtain w where w: "url_parse template = Some w" "url_scheme w = url_scheme u" "url_user w = Some (url_username u, None)"
    "url_host w = url_host u" "url_path w = url_path u" "url_rawquery w = url_rawquery u"
    using url_string_parses [OF ds] t(1) by auto
  let ?f = "w\<lparr>url_user := Some (url_username u, Some pw)\<rparr>"
  have dw: "dsn_url w" using parsed_dsn_url [OF w(1)] w scheme(1) assms(2,3) by simp
  have full: "BuildDSN template pw [] = Inr (url_string ?f)"
    using w(1,3) by (simp add: BuildDSN_def Let_def url_username_def)
  have df: "dsn_url ?f" using dsn_url_changed [OF dw, where db = "[]"] by simp
  have "user_shown (url_user ?f)" using assms(4) by (simp add: user_shown_def)
  then obtain v where v: "url_parse (url_string ?f) = Some v" "url_scheme v = url_scheme u"
    "url_user v = Some (url_username u, Some pw)" "url_host v = url_host u" "url_path v = url_path u" "url_rawquery v = url_rawquery u"
    using url_string_parses [OF df] w by auto
  have "url_password w = None" using w(3) by (simp add: url_password_def)
  then show ?thesis using w(1) full v t(2) scheme(2) by (intro exI conjI)
qed

subsection \<open>Witnesses\<close>

text \<open>A configuration in which two connections share a password, and the one without the first.\<close>

definition shared_connection :: connection where
  "shared_connection = sample_connection\<lparr>cn_password := \<lparr>sr_keyring = ''shared'', sr_env = []\<rparr>\<rparr>"

definition two_connections :: config_file where
  "two_connections = \<lparr>cf_connections = [(''prod'', shared_connection), (''copy'', shared_connection)], cf_destinations = []\<rparr>"

definition one_connection :: config_file where
  "one_connection = \<lparr>cf_connections = [(''copy'', shared_connection)], cf_destinations = []\<rparr>"

definition two_toml :: toml where
  "two_toml =
     \<lparr>tm_unmarshal = (\<lambda>b. if b = ''two'' then Inr two_connections else if b = ''one'' then Inr one_connection
                          else Inl (Foreign ''syntax'')),
      tm_marshal = (\<lambda>c. if c = two_connections then Inr ''two'' else if c = one_connection then Inr ''one''
                        else Inl (Foreign ''no text''))\<rparr>"

definition test_env :: "goerr option \<Rightarrow> cli_env" where
  "test_env rename =
     \<lparr>ce_getenv = (\<lambda>_. []), ce_keyring = mock_keyring None None None, ce_toml = two_toml, ce_uid = 501,
      ce_default_path = ''config.toml'', ce_stat_error = None, ce_read_error = None, ce_mkdir = None,
      ce_try_lock = Inr True, ce_save = crash_env\<lparr>sv_rename := rename\<rparr>, ce_confirm = None, ce_secret = []\<rparr>"

definition test_state :: cli where
  "test_state = \<lparr>cl_files = [''config.toml'' \<mapsto> new_file 501 ''two''], cl_chain = [''shared'' \<mapsto> ''pw''], cl_output = []\<rparr>"

lemma two_toml_laws: "toml_inverse two_toml" "toml_distinct two_toml"
  by (auto simp: two_toml_def toml_inverse_def toml_distinct_def two_connections_def one_connection_def split: if_splits)

lemma test_env_simps [simp]:
  "ce_toml (test_env r) = two_toml" "ce_keyring (test_env r) = mock_keyring None None None" "fresh_temp (test_env r) test_state"
  by (simp_all add: test_env_def test_state_def fresh_temp_def crash_env_def)

lemma test_valid: "validate_connection shared_connection = None"
proof -
  have "ValidateDSNTemplate (cn_dsn sample_connection) = None" "cn_engine sample_connection = ''postgres''"
    using validated_connection [OF sample_connection_facts(1)] by (simp_all add: sample_connection_def)
  then show ?thesis by (simp add: validate_connection_def shared_connection_def ref_empty_def)
qed

lemma test_files_valid: "files_valid two_toml (cl_files test_state)"
  using test_valid
  by (auto simp: files_valid_def test_state_def two_toml_def two_connections_def one_connection_def config_valid_def new_file_def
      split: if_splits)

lemma test_removal:
  "fst (remove_connection (test_env None) ''config.toml'' ''prod'' True test_state) = 0"
  "fst (cmd_connections (test_env (Some (Foreign ''read-only file system''))) [''rm'', ''prod'', ''--yes''] test_state) = 1"
  "fst (cmd_connections (test_env None) [''rm'', ''prod'', ''--yes''] test_state) = 0"
  "load_config (test_env None) (snd (cmd_connections (test_env None) [''rm'', ''prod'', ''--yes''] test_state)) ''config.toml''
     = Inr one_connection"
  by code_simp+

theorem failed_command_harmless_witness:
  "\<exists>s'. cmd_connections (test_env (Some (Foreign ''read-only file system''))) [''rm'', ''prod'', ''--yes''] test_state = (1, s')
     \<and> cl_files s' = cl_files test_state"
proof -
  obtain s' where "cmd_connections (test_env (Some (Foreign ''read-only file system''))) [''rm'', ''prod'', ''--yes''] test_state
      = (1, s')" using test_removal(2) by (metis prod.collapse)
  moreover have "keyring_laws (ce_keyring (test_env (Some (Foreign ''read-only file system''))))"
    unfolding test_env_simps(2) by (rule mock.keyring_laws_axioms)
  ultimately show ?thesis using failed_command_harmless [OF _ test_env_simps(3) one_neq_zero disjI1] by blast
qed

theorem removal_keeps_needed_secrets_witness:
  "\<exists>s' cfg. remove_connection (test_env None) ''config.toml'' ''prod'' True test_state = (0, s')
     \<and> load_config (test_env None) s' ''config.toml'' = Inr cfg"
proof -
  obtain s' where s': "remove_connection (test_env None) ''config.toml'' ''prod'' True test_state = (0, s')"
    using test_removal(1) by (metis prod.collapse)
  have "keyring_laws (ce_keyring (test_env None))" using mock.keyring_laws_axioms by simp
  moreover have "toml_inverse (ce_toml (test_env None))" "toml_distinct (ce_toml (test_env None))" using two_toml_laws by simp_all
  ultimately show ?thesis using removal_keeps_needed_secrets [OF _ test_env_simps(3) _ _ disjI1 [OF s']] s' by blast
qed

theorem split_dsn_roundtrip_witness:
  "\<exists>t. split_dsn ''mysql://app:s%3Aecret@db:3306/shop'' = Inr (''mysql'', t, ''s:ecret'')
     \<and> (\<exists>w. url_parse t = Some w \<and> url_password w = None)"
proof -
  have "split_dsn ''mysql://app:s%3Aecret@db:3306/shop'' = Inr (''mysql'', ''mysql://app@db:3306/shop'', ''s:ecret'')"
    by code_simp
  note split = this
  have "map_option (\<lambda>u. (url_host u \<noteq> [], host_plain (url_host u), url_username u \<noteq> []))
      (url_parse ''mysql://app:s%3Aecret@db:3306/shop'') = Some (True, True, True)" by code_simp
  then obtain u where "url_parse ''mysql://app:s%3Aecret@db:3306/shop'' = Some u" "url_host u \<noteq> []" "host_plain (url_host u)"
    "url_username u \<noteq> []" unfolding map_option_eq_Some prod.inject by blast
  from split_dsn_roundtrip [OF this split] show ?thesis using split by blast
qed

end
