(* ===== verification/CliSession.thy ===== *)
theory CliSession
  imports CliChanges
begin

section \<open>Sessions with the program\<close>

text \<open>
  What all commands keep: those of \<open>CliRun\<close> read only, the wizard and the changes of \<open>CliChanges\<close> write
  valid configurations. Hence over any sequence of commands of the program the configuration
  stays well formed, and a wizard that fails costs no connection.
\<close>

subsection \<open>Commands that only read\<close>

lemma same_state_trans: "same_state s t \<Longrightarrow> same_state t u \<Longrightarrow> same_state s u"
  by (simp add: same_state_def)

lemma same_state_foldl: "(\<And>x t. same_state t (f x t)) \<Longrightarrow> same_state s s' \<Longrightarrow> same_state s (fold f xs s')"
proof (induction xs arbitrary: s')
  case (Cons x xs)
  have "same_state s (f x s')" by (rule same_state_trans [OF Cons.prems(2,1)])
  then show ?case using Cons.IH Cons.prems(1) by simp
qed simp

lemma output_same [simp]:
  "same_state s (write_json v s)" "same_state s (snd (ui_fail u e red s))" "same_state s (ui_success u res s)"
  "same_state s (ui_warn u m s)"
  by (simp_all add: write_json_def ui_fail_def ui_success_def ui_warn_def Let_def)

lemma ui_databases_same [simp]: "same_state s (ui_databases u dbs s)"
  by (simp add: ui_databases_def same_state_foldl)

lemma render_checks_same [simp]: "same_state s (snd (render_checks u checks red s))"
  by (simp add: render_checks_def Let_def same_state_foldl split: prod.split)

lemma report_same: "same_state s (snd (report_progress u line (n, s)))" "same_state s (report_finish u (n, s))"
  by (simp_all add: report_progress_def report_finish_def)

lemma show_same: "same_state s (snd (fold (\<lambda>p. report_progress u (f p)) ps (n, s)))"
proof (induction ps arbitrary: n s)
  case (Cons p ps)
  obtain m t where t: "report_progress u (f p) (n, s) = (m, t)" by (metis surj_pair)
  then show ?case using Cons [of t m] report_same(1) [of s u "f p" n] by (auto intro: same_state_trans)
qed simp

lemma run_report_same: "same_state s (run_report V u ws s)"
proof -
  let ?show = "\<lambda>p. report_progress u (progress_line (me_per_second V) p)"
  obtain n s1 where s1: "fold ?show (me_connecting V) (0, s) = (n, s1)" by (metis surj_pair)
  obtain m s3 where s3: "fold ?show (me_progress V) (n, fold (ui_warn u) ws s1) = (m, s3)" by (metis surj_pair)
  have "same_state s s1" using show_same [of s u "progress_line (me_per_second V)" "me_connecting V" 0] s1 by simp
  moreover have "same_state s1 (fold (ui_warn u) ws s1)" by (rule same_state_foldl) simp_all
  moreover have "same_state (fold (ui_warn u) ws s1) s3"
    using show_same [of "fold (ui_warn u) ws s1" u "progress_line (me_per_second V)" "me_progress V" n] s3 by simp
  moreover have "same_state s3 (report_finish u (m, s3))" by (rule report_same(2))
  ultimately show ?thesis unfolding run_report_def Let_def s1 prod.case s3 by (blast intro: same_state_trans)
qed

lemma start_run_same: "same_state s (snd (start_run V vs u src s))"
  using same_state_trans [OF run_report_same output_same(2)] same_state_trans [OF run_report_same output_same(3)]
  by (simp add: start_run_def Let_def split: sum.split)

lemma cmd_run_same: "same_state s (snd (cmd_run V args s))"
  unfolding cmd_run_def Let_def
  by (rule with_flags_rule [where P = "\<lambda>r. same_state s (snd r)"])
    (auto split: sum.split prod.split intro: same_state_trans start_run_same same_state_trans [OF _ output_same(2)])

lemma with_source_same:
  assumes "\<And>u dsn red t. same_state t (snd (k u dsn red t))"
  shows "same_state s (snd (with_source V name args s k))"
  unfolding with_source_def Let_def
  by (rule with_flags_rule [where P = "\<lambda>r. same_state s (snd r)"])
    (auto split: sum.split prod.split option.split intro: same_state_trans assms same_state_trans [OF _ output_same(2)])

lemma cmd_test_connection_same: "same_state s (snd (cmd_test_connection V args s))"
  unfolding cmd_test_connection_def by (rule with_source_same) (simp split: option.split)

lemma cmd_databases_same: "same_state s (snd (cmd_databases V args s))"
  unfolding cmd_databases_def by (rule with_source_same) (simp split: sum.split)

lemma cmd_doctor_same: "same_state s (snd (cmd_doctor V args s))"
  unfolding cmd_doctor_def Let_def
  by (rule with_flags_rule [where P = "\<lambda>r. same_state s (snd r)"])
    (auto split: sum.split intro: same_state_trans [OF _ render_checks_same] same_state_trans [OF _ output_same(2)])

subsection \<open>The wizard\<close>

lemma say_same [simp]: "same_state s (snd (say t d)) \<longleftrightarrow> same_state s (snd d)"
  by (simp add: say_def)

lemma prompt_same [simp]: "same_state s (snd (snd (prompt_line label d))) \<longleftrightarrow> same_state s (snd d)"
  by (simp add: prompt_line_def)

lemma prompt_run: "prompt_line label d = (x, d') \<Longrightarrow> same_state (snd d) (snd d')"
  by (auto simp: prompt_line_def)

lemma report_probe_same [simp]: "same_state s (snd (report_probe p d)) \<longleftrightarrow> same_state s (snd d)"
  by (simp add: report_probe_def Let_def)

lemma probe_new_same: "same_state (snd d) (snd (probe_new V dst d))"
  by (simp add: probe_new_def split: sum.split prod.split)

lemma ask_destination_same: "same_state (snd d) (snd (snd (ask_destination d)))"
  by (simp add: ask_destination_def Let_def prompt_line_def)

lemma ask_reference_same: "same_state (snd d) (snd (snd (ask_reference name d)))"
  by (simp add: ask_reference_def Let_def prompt_line_def)

lemma show_databases_same: "same_state (snd d) (snd (show_databases V dsn d))"
proof -
  have "same_state s (snd d') \<Longrightarrow> same_state s (snd (fold (\<lambda>i. say (f i)) dbs d'))" for s d' dbs and f :: "database_info \<Rightarrow> string"
    by (induction dbs arbitrary: d') simp_all
  then show ?thesis by (simp add: show_databases_def split: sum.split)
qed

text \<open>A save leaves no temporary file, so the next one finds its name free.\<close>

lemma save_config_fresh: "save_config E c path s = (r, s') \<Longrightarrow> fresh_temp E s \<Longrightarrow> fresh_temp E s'"
  by (auto simp: save_config_def SaveLocked_def fill_temp_def files_after_def fresh_temp_def Let_def
      split: prod.splits option.splits sum.splits)

text \<open>What the wizard has done once a destination is chosen: nothing, or it saved the configuration with
  one destination more.\<close>

definition destination_step :: "cli_env \<Rightarrow> string \<Rightarrow> cli \<Rightarrow> cli \<Rightarrow> bool" where
  "destination_step E path s s' \<longleftrightarrow> same_state s s'
     \<or> (\<exists>cfg name dst t u. same_state s t \<and> load_config E t path = Inr cfg \<and> map_of (cf_destinations cfg) name = None
          \<and> validate_destination dst = None
          \<and> save_config E (cfg\<lparr>cf_destinations := put_entry name dst (cf_destinations cfg)\<rparr>) path t = (None, u)
          \<and> same_state u s')"

lemma destination_step_same: "same_state s t \<Longrightarrow> destination_step E path t u \<Longrightarrow> destination_step E path s u"
  unfolding destination_step_def by (blast intro: same_state_trans)

lemma create_destination_step:
  assumes "create_destination V path cfg name d = (r, d')" "load_config (me_cli V) (snd d) path = Inr cfg"
    and "map_of (cf_destinations cfg) name = None" "fresh_temp (me_cli V) (snd d)"
  shows "destination_step (me_cli V) path (snd d) (snd d')"
proof -
  obtain dst d1 where d1: "ask_destination d = (dst, d1)" by (metis surj_pair)
  have same: "same_state (snd d) (snd d1)" using ask_destination_same [of d] d1 by simp
  then have load: "load_config (me_cli V) (snd d1) path = Inr cfg" using assms(2) by (simp add: load_config_def same_state_def)
  let ?cfg = "cfg\<lparr>cf_destinations := put_entry name dst (cf_destinations cfg)\<rparr>"
  obtain e u where u: "save_config (me_cli V) ?cfg path (snd d1) = (e, u)" by (metis surj_pair)
  show ?thesis
  proof (cases "validate_destination dst = None \<and> e = None")
    case True
    then have "d' = probe_new V dst (fst d1, u)" using assms(1) d1 u by (simp add: create_destination_def)
    then have "same_state u (snd d')" using probe_new_same [of "(fst d1, u)"] by simp
    then show ?thesis unfolding destination_step_def using same load assms(3) True u by blast
  next
    case False
    then have "snd d' = snd d1 \<or> e \<noteq> None \<and> snd d' = u"
      using assms(1) d1 u by (auto simp: create_destination_def split: option.splits)
    then have "same_state (snd d) (snd d')" using same save_config_failed [OF _ same assms(4)] u by auto
    then show ?thesis by (simp add: destination_step_def)
  qed
qed

lemma choose_destination_step:
  assumes "choose_destination V path d = (r, d')" "fresh_temp (me_cli V) (snd d)"
  shows "destination_step (me_cli V) path (snd d) (snd d')"
proof (cases "take_lock (me_cli V) path = None \<and> (\<exists>cfg. load_config (me_cli V) (snd d) path = Inr cfg)")
  case False
  then have "d' = d" using assms(1) by (auto simp: choose_destination_def split: option.splits sum.splits)
  then show ?thesis by (simp add: destination_step_def)
next
  case True
  then obtain cfg where cfg: "load_config (me_cli V) (snd d) path = Inr cfg" by blast
  let ?names = "sorted_keys (cf_destinations cfg)"
  obtain name d2 where d2: "prompt_line ''destination name (existing, or new to create): ''
      (if ?names = [] then d else say (''existing destinations: '' @ join_with '', '' ?names) d) = (name, d2)" by (metis surj_pair)
  have same: "same_state (snd d) (snd d2)"
    using prompt_same [of "snd d" "''destination name (existing, or new to create): ''"
        "if ?names = [] then d else say (''existing destinations: '' @ join_with '', '' ?names) d"] d2 by (auto split: if_splits)
  have body: "(if name = [] then (Inl (Errorf ''a destination is required'' [] None), d2)
      else if map_of (cf_destinations cfg) name \<noteq> None then (Inr name, d2) else create_destination V path cfg name d2) = (r, d')"
    using assms(1) True cfg d2 unfolding choose_destination_def Let_def by (simp del: append_Cons)
  show ?thesis
  proof (cases "name = [] \<or> map_of (cf_destinations cfg) name \<noteq> None")
    case True
    then have "d' = d2" using body by (auto split: if_splits)
    then show ?thesis using same by (simp add: destination_step_def)
  next
    case False
    then have c: "create_destination V path cfg name d2 = (r, d')" "map_of (cf_destinations cfg) name = None" using body by simp_all
    have l: "load_config (me_cli V) (snd d2) path = Inr cfg" using cfg same by (simp add: load_config_def same_state_def)
    show ?thesis
      by (rule destination_step_same [OF same create_destination_step [OF c(1) l c(2) fresh_temp_same [OF same assms(2)]]])
  qed
qed

lemma destination_step_fresh: "destination_step E path s s' \<Longrightarrow> fresh_temp E s \<Longrightarrow> fresh_temp E s'"
  unfolding destination_step_def using fresh_temp_same save_config_fresh by metis

lemma destination_step_valid:
  assumes "destination_step E path s s'" "toml_inverse (ce_toml E)" "files_valid (ce_toml E) (cl_files s)"
  shows "files_valid (ce_toml E) (cl_files s')"
proof -
  consider "cl_files s' = cl_files s"
    | cfg name dst t u where "cl_files t = cl_files s" "load_config E t path = Inr cfg" "validate_destination dst = None"
      "save_config E (cfg\<lparr>cf_destinations := put_entry name dst (cf_destinations cfg)\<rparr>) path t = (None, u)"
      "cl_files s' = cl_files u"
    using assms(1) unfolding destination_step_def same_state_def by blast
  then show ?thesis
  proof cases
    case 1
    then show ?thesis using assms(3) by simp
  next
    case 2
    then show ?thesis
      using save_valid [OF 2(4) config_valid_changes(2) [OF load_valid [OF 2(2)] 2(3)] assms(2)] assms(3) by simp
  qed
qed

lemma init_report_same: "same_state s (init_report path name conn s)"
  by (simp add: init_report_def Let_def)

text \<open>The wizard from some state on: a step for the destination, then a change that keeps its promises.\<close>

definition wizard_kept :: "cli_env \<Rightarrow> string \<Rightarrow> cli \<Rightarrow> nat \<times> cli \<Rightarrow> bool" where
  "wizard_kept E path s r \<longleftrightarrow> (\<exists>s1. destination_step E path s s1 \<and> kept E s1 r)"

lemma wizard_stopped: "same_state s s' \<Longrightarrow> wizard_kept E path s (c, s')"
  unfolding wizard_kept_def destination_step_def using kept_same same_state_refl by blast

lemma wizard_later: "same_state s t \<Longrightarrow> wizard_kept E path t r \<Longrightarrow> wizard_kept E path s r"
  unfolding wizard_kept_def using destination_step_same by blast

lemma wizard_fail: "same_state s s' \<Longrightarrow> wizard_kept E path s (fail_line e s')"
  unfolding fail_line_def by (rule wizard_stopped) simp

lemma finish_init_kept:
  assumes "fresh_temp (me_cli V) (snd d)"
  shows "wizard_kept (me_cli V) path (snd d) (finish_init V path name conn_of pw d)"
proof -
  obtain r d1 where c: "choose_destination V path d = (r, d1)" by (metis surj_pair)
  have dest: "destination_step (me_cli V) path (snd d) (snd d1)" by (rule choose_destination_step [OF c assms])
  have "kept (me_cli V) (snd d1) (finish_init V path name conn_of pw d)"
  proof (cases r)
    case (Inl e)
    then show ?thesis using c by (simp add: finish_init_def kept_fail)
  next
    case (Inr dest_name)
    obtain rcpt d2 where p: "prompt_line (''age recipient (age1'' @ ellipsis @ ''; create one with `dbferry keygen`): '') d1 = (rcpt, d2)"
      by (metis surj_pair)
    have same: "same_state (snd d1) (snd d2)" by (rule prompt_run [OF p])
    have fresh: "fresh_temp (me_cli V) (snd d1)" by (rule destination_step_fresh [OF dest assms])
    show ?thesis
      unfolding finish_init_def c Inr prod.case sum.case Let_def p
      using same fresh store_connection_later [OF same fresh _ init_report_same]
      by (auto simp: kept_same kept_fail split: option.split)
  qed
  then show ?thesis unfolding wizard_kept_def using dest by blast
qed

lemma verify_init_kept:
  assumes "fresh_temp (me_cli V) (snd d)"
  shows "wizard_kept (me_cli V) path (snd d) (verify_init V path name engine template pw ref d)"
proof -
  obtain db d1 where p: "prompt_line ''default database to back up (optional): '' d = (db, d1)" by (metis surj_pair)
  have same: "same_state (snd d) (snd d1)" by (rule prompt_run [OF p])
  show ?thesis
  proof (cases "inject_pw template pw")
    case (Inl e)
    then show ?thesis using p same by (simp add: verify_init_def wizard_fail)
  next
    case (Inr dsn)
    let ?d = "show_databases V dsn (say (''  '' @ check_sign @ '' connection ok'') d1)"
    have d: "same_state (snd d) (snd ?d)"
      using same_state_trans [OF same] show_databases_same [of "say (''  '' @ check_sign @ '' connection ok'') d1" V dsn]
      by (simp add: same_state_def say_def)
    show ?thesis
      unfolding verify_init_def p prod.case Let_def Inr sum.case
      using same wizard_later [OF d finish_init_kept [OF fresh_temp_same [OF d assms]]]
      by (simp add: wizard_stopped split: option.split)
  qed
qed

lemma init_wizard_kept:
  assumes "fresh_temp (me_cli V) (snd d)"
  shows "wizard_kept (me_cli V) path (snd d) (init_wizard V path d)"
proof -
  obtain name d1 where p1: "prompt_line ''connection name: '' d = (name, d1)" by (metis surj_pair)
  obtain dsn d2 where p2: "prompt_line (''database DSN (postgres://'' @ ellipsis @ '' or mysql://'' @ ellipsis @ ''): '') d1 = (dsn, d2)"
    by (metis surj_pair)
  have same: "same_state (snd d) (snd d1)" "same_state (snd d) (snd d2)"
    using prompt_run [OF p1] same_state_trans [OF prompt_run [OF p1] prompt_run [OF p2]] by blast+
  show ?thesis
  proof (cases "name = [] \<or> (\<exists>e. split_dsn dsn = Inl e)")
    case True
    then show ?thesis unfolding init_wizard_def p1 prod.case Let_def p2
      using same by (auto simp: wizard_stopped wizard_fail)
  next
    case False
    then obtain engine template given where sp: "split_dsn dsn = Inr (engine, template, given)"
      by (cases "split_dsn dsn") auto
    obtain password d3 where d3: "(if given = [] then (ce_secret (me_cli V), (fst d2, err_text ''database password: '' (snd d2))) else (given, d2))
        = (password, d3)" by (metis surj_pair)
    have same3: "same_state (snd d) (snd d3)" using d3 same(2) by (auto split: if_splits)
    obtain ref d4 where r: "ask_reference name d3 = (ref, d4)" by (metis surj_pair)
    have same4: "same_state (snd d) (snd d4)" using same_state_trans [OF same3 ask_reference_same [of d3 name]] r by simp
    have name: "name \<noteq> []" using False by simp
    show ?thesis unfolding init_wizard_def p1 prod.case Let_def p2 sp sum.case d3 r
      using name same3 same4 wizard_later [OF same4 verify_init_kept [OF fresh_temp_same [OF same4 assms]]]
      by (simp add: wizard_stopped split: option.split)
  qed
qed

lemma cmd_init_kept:
  assumes "fresh_temp (me_cli V) s"
  shows "\<exists>path. wizard_kept (me_cli V) path s (cmd_init V args s)"
  unfolding cmd_init_def
proof (rule with_flags_rule [where P = "\<lambda>r. \<exists>path. wizard_kept (me_cli V) path s r"])
  show "\<exists>path. wizard_kept (me_cli V) path s (c, s')" if "same_state s s'" for c s'
    using wizard_stopped [OF that] by blast
next
  fix vs s'
  assume "same_state s s'"
  then have same: "same_state s (snd (me_lines V, err_text (''dbferry init '' @ em_dash @ '' set up a named connection'' @ [CHR 0x0A, CHR 0x0A]) s'))"
    by simp
  show "\<exists>path. wizard_kept (me_cli V) path s (init_wizard V (config_path (me_cli V) (flag_value config_flag vs ''config''))
         (me_lines V, err_text (''dbferry init '' @ em_dash @ '' set up a named connection'' @ [CHR 0x0A, CHR 0x0A]) s'))"
    by (rule exI, rule wizard_later [OF same init_wizard_kept [OF fresh_temp_same [OF same assms]]])
qed

subsection \<open>Every command keeps the configuration valid\<close>

text \<open>The text of an identity is no configuration.\<close>

definition identity_no_config :: "main_env \<Rightarrow> bool" where
  "identity_no_config V \<longleftrightarrow> (\<forall>secret r. me_identity V = Inr (secret, r)
     \<longrightarrow> (\<forall>c. tm_unmarshal (ce_toml (me_cli V)) (secret @ [CHR 0x0A]) \<noteq> Inr c))"

definition stays_valid :: "toml \<Rightarrow> cli \<Rightarrow> nat \<times> cli \<Rightarrow> bool" where
  "stays_valid tm s r \<longleftrightarrow> (files_valid tm (cl_files s) \<longrightarrow> files_valid tm (cl_files (snd r)))"

lemma same_stays_valid: "same_state s (snd r) \<Longrightarrow> stays_valid tm s r"
  by (simp add: stays_valid_def same_state_def)

lemma kept_stays_valid: "kept E s r \<Longrightarrow> toml_inverse (ce_toml E) \<Longrightarrow> stays_valid (ce_toml E) s r"
  by (simp add: stays_valid_def kept_def)

lemma cmd_init_valid:
  assumes "fresh_temp (me_cli V) s" "toml_inverse (ce_toml (me_cli V))"
  shows "stays_valid (ce_toml (me_cli V)) s (cmd_init V args s)"
proof -
  obtain path s1 where "destination_step (me_cli V) path s s1" "kept (me_cli V) s1 (cmd_init V args s)"
    using cmd_init_kept [OF assms(1), of args] unfolding wizard_kept_def by blast
  then show ?thesis using destination_step_valid [OF _ assms(2)] kept_stays_valid [OF _ assms(2)]
    unfolding stays_valid_def by blast
qed

lemma files_valid_removed: "files_valid tm fs \<Longrightarrow> files_valid tm (fs(p := None))"
  by (simp add: files_valid_def)

lemma write_identity_cases:
  assumes "write_identity V path s = (code, s')"
  obtains (failed) "code \<noteq> 0" "cl_files s' = cl_files s" "cl_chain s' = cl_chain s"
  | (written) secret r where "code = 0" "me_identity V = Inr (secret, r)" "cl_files s path = None" "cl_chain s' = cl_chain s"
      "cl_files s' = (cl_files s)(path \<mapsto> new_file (ce_uid (me_cli V)) (secret @ [CHR 0x0A]))"
proof (cases "cl_files s path = None \<and> me_key_open V = None")
  case False
  then show ?thesis using assms by (intro that(1)) (auto simp: write_identity_def split: if_splits option.splits)
next
  case True
  then have "(cl_files s)(path := None) = cl_files s" by auto
  then show ?thesis using assms True that
    by (cases "me_identity V"; cases "first_failure [me_key_write V, me_key_close V]") (auto simp: write_identity_def Let_def)
qed

lemma cmd_keygen_valid:
  assumes "identity_no_config V"
  shows "stays_valid (ce_toml (me_cli V)) s (cmd_keygen V args s)"
  unfolding cmd_keygen_def Let_def
proof (rule with_flags_rule [where P = "stays_valid (ce_toml (me_cli V)) s"])
  fix vs s'
  assume same: "same_state s s'"
  let ?path = "flag_value keygen_flags vs ''out''"
  obtain code t where t: "write_identity V ?path s' = (code, t)" by (metis surj_pair)
  then have "stays_valid (ce_toml (me_cli V)) s (code, t)"
  proof (cases rule: write_identity_cases)
    case failed
    then show ?thesis using same by (simp add: stays_valid_def same_state_def)
  next
    case (written secret r)
    then show ?thesis using assms same
      by (auto simp: stays_valid_def same_state_def files_valid_def identity_no_config_def new_file_def)
  qed
  moreover have "stays_valid (ce_toml (me_cli V)) s (1, err_line u s')" for u
    using same by (simp add: same_stays_valid)
  ultimately show "stays_valid (ce_toml (me_cli V)) s
      (if ?path = [] then (1, err_line ''usage: dbferry keygen --out PATH'' s') else write_identity V ?path s')"
    using t by (simp only: split: if_split) simp
qed (simp add: same_stays_valid)

lemma run_main_valid:
  assumes "fresh_temp (me_cli V) s" "toml_inverse (ce_toml (me_cli V))" "identity_no_config V"
  shows "stays_valid (ce_toml (me_cli V)) s (run_main V args s)"
proof (cases args)
  case Nil
  then show ?thesis by (simp add: run_main_def same_stays_valid)
next
  case (Cons a rest)
  let ?P = "stays_valid (ce_toml (me_cli V)) s"
  have p: "?P (cmd_init V rest s)" "?P (cmd_keygen V rest s)" "?P (cmd_run V rest s)" "?P (cmd_test_connection V rest s)"
    "?P (cmd_databases V rest s)" "?P (cmd_connections (me_cli V) rest s)" "?P (cmd_destinations (me_cli V) rest s)" "?P (cmd_doctor V rest s)"
    "\<And>c t. same_state s t \<Longrightarrow> ?P (c, t)"
    using cmd_init_valid [OF assms(1,2)] cmd_keygen_valid [OF assms(3)] same_stays_valid [OF cmd_run_same]
      same_stays_valid [OF cmd_test_connection_same] same_stays_valid [OF cmd_databases_same] same_stays_valid [OF cmd_doctor_same]
      kept_stays_valid [OF commands_kept(1) [OF assms(1)] assms(2)] kept_stays_valid [OF commands_kept(2) [OF assms(1)] assms(2)]
      same_stays_valid [of s "(_, _)"] by simp_all
  then show ?thesis unfolding Cons run_main_def list.case
    by (simp only: split: if_split list.split) (simp add: same_state_lines)
qed

text \<open>A session: commands of the program, one after the other, each with an environment of its own, in
  which the same library reads and writes the configuration.\<close>

inductive program_session :: "toml \<Rightarrow> cli \<Rightarrow> cli \<Rightarrow> bool" for tm where
  session_start: "program_session tm s s"
| session_command: "program_session tm s t \<Longrightarrow> ce_toml (me_cli V) = tm \<Longrightarrow> fresh_temp (me_cli V) t
    \<Longrightarrow> identity_no_config V \<Longrightarrow> run_main V args t = (code, u) \<Longrightarrow> program_session tm s u"

lemma session_valid:
  "program_session tm s s' \<Longrightarrow> toml_inverse tm \<Longrightarrow> files_valid tm (cl_files s) \<Longrightarrow> files_valid tm (cl_files s')"
proof (induction rule: program_session.induct)
  case (session_command s t V args code u)
  then show ?case using run_main_valid [of V t args] by (simp add: stays_valid_def)
qed

lemma valid_connection_facts:
  assumes "validate_connection c = None"
  shows "cn_engine c \<in> {''postgres'', ''mysql''} \<and> \<not> ref_empty (cn_password c)
    \<and> (\<exists>u. url_parse (cn_dsn c) = Some u \<and> url_host u \<noteq> [] \<and> url_password u = None)"
proof -
  have "ValidateDSNTemplate (cn_dsn c) = None" by (rule validated_connection [OF assms])
  moreover from this obtain u where "url_parse (cn_dsn c) = Some u" by (auto simp: ValidateDSNTemplate_def split: if_splits option.splits)
  ultimately have u: "\<exists>u. url_parse (cn_dsn c) = Some u \<and> url_host u \<noteq> [] \<and> url_password u = None"
    using validated_template(2,3) by blast
  have "\<not> (cn_engine c \<noteq> ''postgres'' \<and> cn_engine c \<noteq> ''mysql'')" "\<not> ref_empty (cn_password c)"
    using assms unfolding validate_connection_def by (cases "ref_empty (cn_password c)"; simp only: split: if_splits option.splits; simp)+
  then show ?thesis using u by blast
qed

lemma valid_destination_facts:
  "validate_destination d = None \<Longrightarrow> ds_bucket d \<noteq> [] \<and> (ds_access_key d = None \<longleftrightarrow> ds_secret_key d = None)"
  by (auto simp: validate_destination_def split: if_splits)

lemma map_of_put_entry: "n \<noteq> name \<Longrightarrow> map_of (put_entry name v m) n = map_of m n"
  unfolding put_entry_def by (induction m) auto

lemma save_config_other:
  "save_config E c p s = (r, s') \<Longrightarrow> fresh_temp E s \<Longrightarrow> q \<noteq> p \<Longrightarrow> cl_files s q \<noteq> None \<Longrightarrow> cl_files s' q = cl_files s q"
  by (auto simp: save_config_def SaveLocked_def fill_temp_def files_after_def fresh_temp_def Let_def
      split: prod.splits option.splits sum.splits)

lemma load_without:
  "load_config E s path = Inr cfg \<Longrightarrow> cl_files s path \<noteq> None \<Longrightarrow> without_password cfg = None"
  by (auto simp: load_config_def Load_def split: option.splits if_splits sum.splits prod.splits)

lemma destination_step_loads:
  assumes "destination_step E p s s1" "fresh_temp E s" "toml_inverse (ce_toml E)"
    and "load_config E s path = Inr cfg" "cl_files s path \<noteq> None"
  shows "cl_chain s1 = cl_chain s" "\<exists>cfg'. load_config E s1 path = Inr cfg' \<and> cf_connections cfg' = cf_connections cfg
      \<and> (\<forall>n d. map_of (cf_destinations cfg) n = Some d \<longrightarrow> map_of (cf_destinations cfg') n = Some d)"
proof -
  consider (same) "same_state s s1"
    | (saved) c name dst t u where "same_state s t" "load_config E t p = Inr c" "map_of (cf_destinations c) name = None"
      "save_config E (c\<lparr>cf_destinations := put_entry name dst (cf_destinations c)\<rparr>) p t = (None, u)" "same_state u s1"
    using assms(1) unfolding destination_step_def by blast
  then have "cl_chain s1 = cl_chain s \<and> (\<exists>cfg'. load_config E s1 path = Inr cfg' \<and> cf_connections cfg' = cf_connections cfg
      \<and> (\<forall>n d. map_of (cf_destinations cfg) n = Some d \<longrightarrow> map_of (cf_destinations cfg') n = Some d))"
  proof cases
    case same
    then have "load_config E s1 path = Inr cfg" using assms(4) by (simp add: load_config_def same_state_def)
    then show ?thesis using same by (auto simp: same_state_def)
  next
    case saved
    have chain: "cl_chain s1 = cl_chain s" using save_config_result(1) [OF saved(4)] saved(1,5) by (simp add: same_state_def)
    have files: "cl_files s1 = cl_files u" using saved(5) by (simp add: same_state_def)
    show ?thesis
    proof (cases "p = path")
      case True
      then have c: "c = cfg" using saved(1,2) assms(4) by (simp add: load_config_def same_state_def)
      let ?cfg = "cfg\<lparr>cf_destinations := put_entry name dst (cf_destinations cfg)\<rparr>"
      have "without_password ?cfg = None" using load_without [OF assms(4,5)] without_password_dropped(2) by simp
      from saved_loads(1) [OF assms(4,5) saved(1) assms(2) saved(4) [unfolded c True] assms(3) this files]
      have "load_config E s1 path = Inr ?cfg" .
      moreover have "map_of (cf_destinations ?cfg) n = Some d" if "map_of (cf_destinations cfg) n = Some d" for n d
        using that saved(3) c map_of_put_entry [of n name dst "cf_destinations cfg"] by (cases "n = name") simp_all
      ultimately show ?thesis using chain by (intro conjI exI [of _ ?cfg]) simp_all
    next
      case False
      have "cl_files u path = cl_files t path"
        by (rule save_config_other [OF saved(4) fresh_temp_same [OF saved(1) assms(2)]])
          (use False saved(1) assms(5) in \<open>simp_all add: same_state_def\<close>)
      then have eq: "cl_files s1 path = cl_files s path" using files saved(1) by (simp add: same_state_def)
      have "load_config E s1 path = Inr cfg" using assms(4) unfolding load_config_def Load_def eq .
      then show ?thesis using chain by auto
    qed
  qed
  then show "cl_chain s1 = cl_chain s" "\<exists>cfg'. load_config E s1 path = Inr cfg' \<and> cf_connections cfg' = cf_connections cfg
      \<and> (\<forall>n d. map_of (cf_destinations cfg) n = Some d \<longrightarrow> map_of (cf_destinations cfg') n = Some d)" by blast+
qed

subsection \<open>Properties\<close>

text \<open>C23: a configuration stays well formed: whatever commands a user runs, one after the other, on files
  that hold valid configurations, every file still holds a valid one, and what the next command
  loads has for every connection an engine the program knows, a reference to a password and a
  template that parses and holds none, and for every destination a bucket and credentials
  that are complete or absent.\<close>

theorem sessions_keep_config_valid:
  assumes "program_session tm s s'" "toml_inverse tm" "files_valid tm (cl_files s)" "ce_toml E = tm"
    and "load_config E s' path = Inr cfg"
  shows "list_all (\<lambda>(_, c). cn_engine c \<in> {''postgres'', ''mysql''} \<and> \<not> ref_empty (cn_password c)
      \<and> (\<exists>u. url_parse (cn_dsn c) = Some u \<and> url_host u \<noteq> [] \<and> url_password u = None)) (cf_connections cfg)
    \<and> list_all (\<lambda>(_, d). ds_bucket d \<noteq> [] \<and> (ds_access_key d = None \<longleftrightarrow> ds_secret_key d = None)) (cf_destinations cfg)
    \<and> files_valid tm (cl_files s')"
proof -
  have files: "files_valid tm (cl_files s')" by (rule session_valid [OF assms(1-3)])
  then have "config_valid cfg" using load_valid [OF assms(5)] assms(4) by simp
  then have "list_all (\<lambda>(_, c). cn_engine c \<in> {''postgres'', ''mysql''} \<and> \<not> ref_empty (cn_password c)
      \<and> (\<exists>u. url_parse (cn_dsn c) = Some u \<and> url_host u \<noteq> [] \<and> url_password u = None)) (cf_connections cfg)"
    "list_all (\<lambda>(_, d). ds_bucket d \<noteq> [] \<and> (ds_access_key d = None \<longleftrightarrow> ds_secret_key d = None)) (cf_destinations cfg)"
    unfolding config_valid_def list_all_iff case_prod_unfold using valid_connection_facts valid_destination_facts by blast+
  then show ?thesis using files by blast
qed


text \<open>A key is never overwritten and never left half written: \<open>keygen\<close> writes the identity to a file
  that did not exist and that only its owner can read, or has changed no file at all; secrets of
  the keychain are not its concern.\<close>

theorem keygen_never_overwrites:
  "cl_chain (snd (cmd_keygen V args s)) = cl_chain s \<and>
    (cl_files (snd (cmd_keygen V args s)) = cl_files s
     \<or> fst (cmd_keygen V args s) = 0 \<and> (\<exists>path secret r. cl_files s path = None \<and> me_identity V = Inr (secret, r)
         \<and> cl_files (snd (cmd_keygen V args s))
             = (cl_files s)(path \<mapsto> new_file (ce_uid (me_cli V)) (secret @ [CHR 0x0A]))))"
proof -
  let ?P = "\<lambda>r. cl_chain (snd r) = cl_chain s \<and> (cl_files (snd r) = cl_files s
     \<or> fst r = 0 \<and> (\<exists>path secret t. cl_files s path = None \<and> me_identity V = Inr (secret, t)
         \<and> cl_files (snd r) = (cl_files s)(path \<mapsto> new_file (ce_uid (me_cli V)) (secret @ [CHR 0x0A]))))"
  have "?P (cmd_keygen V args s)" unfolding cmd_keygen_def Let_def
  proof (rule with_flags_rule [where P = ?P])
    fix vs s1
    assume same: "same_state s s1"
    let ?path = "flag_value keygen_flags vs ''out''"
    obtain c t where t: "write_identity V ?path s1 = (c, t)" by (metis surj_pair)
    then have "?P (c, t)"
    proof (cases rule: write_identity_cases)
      case failed
      then show ?thesis using same by (simp add: same_state_def)
    next
      case (written secret r)
      then show ?thesis using same unfolding same_state_def fst_conv snd_conv by metis
    qed
    then show "?P (if ?path = [] then (1, err_line ''usage: dbferry keygen --out PATH'' s1) else write_identity V ?path s1)"
      using t same by (simp only: split: if_split) (simp add: same_state_def)
  qed (simp add: same_state_def)
  then show ?thesis by simp
qed

definition test_main :: main_env where
  "test_main =
     \<lparr>me_cli = test_env None, me_stdout_tty = False, me_stderr_tty = False, me_version = ''dev'',
      me_run = sample_run clean_feed good_streamed, me_probe = (\<lambda>_. Inl (Foreign ''no network'')),
      me_dsn_stat = (\<lambda>_. Inl (Foreign ''no such file'')), me_dsn_read = (\<lambda>_. Inl (Foreign ''no such file'')),
      me_float = (\<lambda>_. None), me_per_second = (\<lambda>_ _. 0), me_connecting = [], me_progress = [], me_lines = [],
      me_key_open = None, me_identity = Inr (''AGE-SECRET-KEY-1'', ''age1''), me_key_write = None, me_key_close = None\<rparr>"

lemma test_main_simps [simp]: "me_cli test_main = test_env None" "identity_no_config test_main"
  by (simp_all add: test_main_def identity_no_config_def two_toml_def)

lemma test_commands:
  "fst (run_main test_main [''connections'', ''rm'', ''prod'', ''--yes''] test_state) = 0"
  "load_config (test_env None) (snd (run_main test_main [''connections'', ''rm'', ''prod'', ''--yes''] test_state)) ''config.toml''
     = Inr one_connection"
  "fst (cmd_init test_main [] test_state) = 1"
  "load_config (test_env None) test_state ''config.toml'' = Inr two_connections"
  by code_simp+

theorem sessions_keep_config_valid_witness:
  "\<exists>s'. program_session two_toml test_state s' \<and> files_valid two_toml (cl_files s')"
proof -
  let ?s = "snd (run_main test_main [''connections'', ''rm'', ''prod'', ''--yes''] test_state)"
  have s': "run_main test_main [''connections'', ''rm'', ''prod'', ''--yes''] test_state = (0, ?s)"
    using test_commands(1) by (metis prod.collapse)
  have chain: "program_session two_toml test_state ?s"
    by (rule session_command [OF session_start _ _ _ s']) simp_all
  show ?thesis
    using sessions_keep_config_valid [OF chain two_toml_laws(1) test_files_valid test_env_simps(1) test_commands(2)] chain
    by blast
qed


end
