(* ===== verification/CliReports.thy ===== *)
theory CliReports
  imports CliSession
begin

section \<open>What the commands report\<close>

text \<open>
  The reports of the commands of \<open>CliRun\<close> to the caller: with \<open>--json\<close> one document on standard
  output and nothing else, whose \<open>ok\<close> agrees with the exit code, and the exit code zero of a
  backup as a promise about the run behind it.
\<close>

text \<open>What was written to standard output, without the usage texts of package \<open>flag\<close>.\<close>

definition stdout_of :: "cli \<Rightarrow> string list" where
  "stdout_of s = concat (map (\<lambda>p. case p of Out t \<Rightarrow> [t] | _ \<Rightarrow> []) (cl_output s))"

definition one_document :: "cli \<Rightarrow> nat \<times> cli \<Rightarrow> bool" where
  "one_document s r \<longleftrightarrow>
     (\<exists>ms. stdout_of (snd r) = stdout_of s @ [marshal_indent (JObj ((''ok'', JBool (fst r = 0)) # ms)) @ [CHR 0x0A]])"

lemma stdout_lines [simp]:
  "stdout_of (out_line t s) = stdout_of s @ [t @ [CHR 0x0A]]" "stdout_of (err_line t s) = stdout_of s"
  "stdout_of (err_text t s) = stdout_of s" "stdout_of (ui_warn u m s) = stdout_of s"
  by (simp_all add: stdout_of_def out_line_def err_line_def err_text_def ui_warn_def)

lemma exit_code_failure [simp]: "exit_code e \<noteq> 0"
  by (simp add: exit_code_def split: kind.split)

lemma one_document_json:
  "stdout_of t = stdout_of s \<Longrightarrow> ok = (code = 0) \<Longrightarrow> one_document s (code, write_json (JObj ((''ok'', JBool ok) # ms)) t)"
  by (auto simp: one_document_def write_json_def)

lemma one_document_fail: "ui_json u \<Longrightarrow> stdout_of t = stdout_of s \<Longrightarrow> one_document s (ui_fail u e red t)"
  unfolding ui_fail_def Let_def result_value_def
  by (auto intro!: one_document_json simp: empty_result_def)

lemma one_document_success: "ui_json u \<Longrightarrow> stdout_of t = stdout_of s \<Longrightarrow> one_document s (0, ui_success u res t)"
  unfolding ui_success_def result_value_def by (auto intro!: one_document_json)

lemma one_document_databases: "ui_json u \<Longrightarrow> one_document s (0, ui_databases u dbs s)"
  unfolding ui_databases_def by (auto intro!: one_document_json)

lemma one_document_checks: "ui_json u \<Longrightarrow> one_document s (render_checks u checks red s)"
  unfolding render_checks_def Let_def by (auto intro!: one_document_json)

lemma quiet_progress: "ui_json u \<Longrightarrow> report_progress u line ls = ls" "ui_json u \<Longrightarrow> report_finish u ls = snd ls"
  by (simp_all add: report_progress_def report_finish_def reporter_enabled_def)

lemma stdout_warnings: "stdout_of (fold (ui_warn u) ws s) = stdout_of s"
  by (induction ws arbitrary: s) simp_all

lemma stdout_run_report: "ui_json u \<Longrightarrow> stdout_of (run_report V u ws s) = stdout_of s"
proof -
  assume j: "ui_json u"
  have "fold (\<lambda>p. report_progress u (f p)) ps ls = ls" for f :: "progress \<Rightarrow> string" and ps ls
    by (induction ps arbitrary: ls) (simp_all add: quiet_progress [OF j])
  then show ?thesis by (simp add: run_report_def Let_def quiet_progress [OF j] stdout_warnings)
qed

lemma start_run_document: "ui_json u \<Longrightarrow> one_document s (start_run V vs u src s)"
  unfolding start_run_def Let_def
  using stdout_run_report by (auto split: sum.split intro!: one_document_fail one_document_success)

lemma run_ui_json: "ui_json (run_ui V specs vs) = flag_bool specs vs ''json''"
  by (simp add: run_ui_def)

lemma with_flags_parsed: "parse_args specs args = Inr (vs, []) \<Longrightarrow> with_flags name specs args s k = k vs s"
  by (simp add: with_flags_def parse_flags_def)

lemma cmd_run_document:
  assumes "parse_args run_flags args = Inr (vs, [])" "flag_bool run_flags vs ''json''"
  shows "one_document s (cmd_run V args s)"
  unfolding cmd_run_def with_flags_parsed [OF assms(1)] Let_def
  using assms(2) by (auto simp: run_ui_json split: sum.split intro!: one_document_fail start_run_document)

lemma with_source_document:
  assumes "parse_args conn_flags args = Inr (vs, [])" "flag_bool conn_flags vs ''json''"
    and "\<And>u dsn red. ui_json u \<Longrightarrow> one_document s (k u dsn red s)"
  shows "one_document s (with_source V name args s k)"
  unfolding with_source_def with_flags_parsed [OF assms(1)] Let_def
  using assms(2,3) by (auto simp: run_ui_json split: sum.split option.split intro!: one_document_fail)

lemma cmd_doctor_document:
  assumes "parse_args doctor_flags args = Inr (vs, [])" "flag_bool doctor_flags vs ''json''"
  shows "one_document s (cmd_doctor V args s)"
  unfolding cmd_doctor_def with_flags_parsed [OF assms(1)] Let_def
  using assms(2) by (auto split: sum.split intro!: one_document_fail one_document_checks)

text \<open>The way of a run that exits with zero.\<close>

lemma ui_fail_code [simp]: "fst (ui_fail u e red s) = exit_code e"
  by (simp add: ui_fail_def Let_def)

lemma start_run_zero:
  assumes "fst (start_run V vs u src s) = 0"
  obtains ps r where "rs_dest src \<noteq> []" "rs_recipient src \<noteq> []" "ro_result (Run (me_run V) (run_config V vs src ps)) = Inr r"
  using assms by (auto simp: start_run_def Let_def split: if_splits sum.splits)

subsection \<open>Properties\<close>

text \<open>C28: with \<open>--json\<close> a caller can rely on the output: once the flags are parsed, the commands of a backup,
  of a connection test, of the list of databases and of the doctor write exactly one JSON object
  to standard output, whatever goes wrong, with warnings and progress kept out of it, and its
  \<open>ok\<close> member is true exactly if the exit code is zero.\<close>

theorem json_reports_exit_code:
  assumes "(specs, cmd) \<in> {(run_flags, cmd_run V), (conn_flags, cmd_test_connection V), (conn_flags, cmd_databases V),
      (doctor_flags, cmd_doctor V)}"
    and "parse_args specs args = Inr (vs, [])" "flag_bool specs vs ''json''" "cmd args s = (code, s')"
  shows "\<exists>ms. stdout_of s' = stdout_of s @ [marshal_indent (JObj ((''ok'', JBool (code = 0)) # ms)) @ [CHR 0x0A]]"
proof -
  have test: "one_document s (cmd_test_connection V args s)" if "specs = conn_flags"
    unfolding cmd_test_connection_def
    by (rule with_source_document [OF assms(2,3) [unfolded that]])
      (auto simp: result_value_def split: option.split intro!: one_document_fail one_document_json)
  have databases: "one_document s (cmd_databases V args s)" if "specs = conn_flags"
    unfolding cmd_databases_def
    by (rule with_source_document [OF assms(2,3) [unfolded that]])
      (auto split: sum.split intro!: one_document_fail one_document_databases)
  have "one_document s (cmd args s)"
    using assms(1-3) test databases cmd_run_document cmd_doctor_document by auto
  then show ?thesis using assms(4) by (simp add: one_document_def)
qed

text \<open>C29: the exit code zero of \<open>run\<close> is a promise: unless help was asked for, the pipeline ran with a
  destination and a recipient, and with those of the flags where given, and it succeeded, so
  that there is a backup.\<close>

theorem run_exit_zero:
  assumes "cmd_run V args s = (0, s')" "parse_args run_flags args \<noteq> Inl HelpAsked"
  shows "\<exists>vs cfg r. parse_args run_flags args = Inr (vs, []) \<and> ro_result (Run (me_run V) cfg) = Inr r
    \<and> cfg_dest cfg \<noteq> [] \<and> cfg_age_recipient cfg \<noteq> []
    \<and> (flag_value run_flags vs ''dest'' \<noteq> [] \<longrightarrow> cfg_dest cfg = flag_value run_flags vs ''dest'')
    \<and> (flag_value run_flags vs ''age-recipient'' \<noteq> [] \<longrightarrow> cfg_age_recipient cfg = flag_value run_flags vs ''age-recipient'')
    \<and> (flag_value run_flags vs ''s3-endpoint'' \<noteq> [] \<longrightarrow> cfg_s3_endpoint cfg = flag_value run_flags vs ''s3-endpoint'')"
proof -
  have "fst (cmd_run V args s) = 0" using assms(1) by simp
  then obtain vs where vs: "parse_args run_flags args = Inr (vs, [])"
    using assms(2) by (auto simp: cmd_run_def with_flags_def parse_flags_def split: sum.splits prod.splits list.splits flag_error.splits)
  let ?v = "flag_value run_flags vs"
  obtain src where "fst (start_run V vs (run_ui V run_flags vs) (override_source ?v src) s) = 0"
    using \<open>fst (cmd_run V args s) = 0\<close> unfolding cmd_run_def with_flags_parsed [OF vs] Let_def
    by (cases "if ?v ''connection'' \<noteq> [] then named_source V vs s else flag_source V vs") (auto split: if_splits prod.splits)
  then obtain ps r where "rs_dest (override_source ?v src) \<noteq> []" "rs_recipient (override_source ?v src) \<noteq> []"
    "ro_result (Run (me_run V) (run_config V vs (override_source ?v src) ps)) = Inr r" by (rule start_run_zero)
  then show ?thesis using vs
    by (intro exI [of _ vs] exI [of _ "run_config V vs (override_source ?v src) ps"] exI [of _ r])
      (simp add: run_config_def override_source_def)
qed

subsection \<open>The properties on the sample\<close>

definition dev_run :: main_env where
  "dev_run = test_main\<lparr>me_cli := (me_cli test_main)\<lparr>ce_getenv := (\<lambda>n. if n = ''DBFERRY_DSN'' then app_dsn else [])\<rparr>\<rparr>"

lemma dev_args:
  "parse_args run_flags [''--dest'', ''s3://b/p'', ''--age-recipient'', ''age1''] = Inr ([(''dest'', ''s3://b/p''), (''age-recipient'', ''age1'')], [])"
  "parse_args conn_flags [''--json''] = Inr ([(''json'', ''true'')], [])" "flag_bool conn_flags [(''json'', ''true'')] ''json''"
  by code_simp+

theorem json_reports_exit_code_witness:
  "\<exists>ms. stdout_of (snd (cmd_test_connection dev_run [''--json''] test_state))
     = [marshal_indent (JObj ((''ok'', JBool True) # ms)) @ [CHR 0x0A]]"
proof -
  have "fst (cmd_test_connection dev_run [''--json''] test_state) = 0" by code_simp
  then obtain s' where s': "cmd_test_connection dev_run [''--json''] test_state = (0, s')" by (metis prod.collapse)
  have "stdout_of test_state = []" by (simp add: stdout_of_def test_state_def)
  then show ?thesis using json_reports_exit_code [where specs = conn_flags and cmd = "cmd_test_connection dev_run" and V = dev_run, OF _ dev_args(2,3) s'] s' by auto
qed

lemma dev_run_succeeds:
  assumes "cfg_dsn cfg = app_dsn" "cfg_dest cfg = ''s3://b/p''" "\<not> cfg_allow_non_transactional cfg"
  shows "\<exists>r. ro_result (Run (sample_run clean_feed good_streamed) cfg) = Inr r"
proof -
  have "prepare_run (sample_run clean_feed good_streamed) (with_defaults cfg)
     = (Inr (app_driver, sample_dest, app_id, app_key, fake_s3_api good_s3), [])"
    using app_parts assms by (simp add: prepare_run_def sample_run_def with_defaults_def new_s3_client_def)
  moreover obtain tr where "upload (fake_s3_api good_s3) (d_bucket sample_dest) app_key good_streamed [] = (Inr (3, ''abc''), tr)"
    using app_upload by blast
  moreover have "mp_put (fake_s3_api good_s3) tr b k body ct = None" for tr b k body ct by (simp add: fake_s3_api_def)
  ultimately show ?thesis
    by (simp add: Run_def run_body_def finish_run_def put_object_def Let_def sample_run_def)
qed

lemma dev_run_zero:
  "fst (cmd_run dev_run [''--dest'', ''s3://b/p'', ''--age-recipient'', ''age1''] test_state) = 0"
proof -
  let ?vs = "[(''dest'', ''s3://b/p''), (''age-recipient'', ''age1'')]"
  let ?src = "override_source (flag_value run_flags ?vs) (bare_source app_dsn (dsn_redactor app_dsn) [])"
  have v: "flag_value run_flags ?vs ''connection'' = []" "flag_value run_flags ?vs ''dest'' = ''s3://b/p''"
    "flag_value run_flags ?vs ''age-recipient'' = ''age1''" "flag_value run_flags ?vs ''part-size'' = []"
    "flag_value run_flags ?vs ''dsn-env'' = ''DBFERRY_DSN''" "flag_value run_flags ?vs ''dsn-file'' = []"
    "\<not> flag_bool run_flags ?vs ''allow-nontransactional''"
    by code_simp+
  have "flag_source dev_run ?vs = Inr (bare_source app_dsn (dsn_redactor app_dsn) [])"
    by (simp add: flag_source_def Let_def v resolve_dsn_def dev_run_def app_dsn_def)
  moreover obtain r where "ro_result (Run (me_run dev_run) (run_config dev_run ?vs ?src 0)) = Inr r"
    using dev_run_succeeds [of "run_config dev_run ?vs ?src 0"]
    by (auto simp: run_config_def override_source_def bare_source_def v dev_run_def test_main_def)
  moreover have "rs_dest ?src \<noteq> []" "rs_recipient ?src \<noteq> []" by (simp_all add: override_source_def v)
  ultimately show ?thesis
    by (simp add: cmd_run_def with_flags_parsed [OF dev_args(1)] Let_def start_run_def v)
qed

theorem run_exit_zero_witness:
  "\<exists>cfg r. ro_result (Run (me_run dev_run) cfg) = Inr r \<and> cfg_dest cfg = ''s3://b/p'' \<and> cfg_age_recipient cfg = ''age1''"
proof -
  let ?vs = "[(''dest'', ''s3://b/p''), (''age-recipient'', ''age1'')]"
  obtain s' where "cmd_run dev_run [''--dest'', ''s3://b/p'', ''--age-recipient'', ''age1''] test_state = (0, s')"
    using dev_run_zero by (metis prod.collapse)
  moreover have "parse_args run_flags [''--dest'', ''s3://b/p'', ''--age-recipient'', ''age1''] \<noteq> Inl HelpAsked"
    unfolding dev_args(1) by simp
  moreover have "flag_value run_flags ?vs ''dest'' = ''s3://b/p''" "flag_value run_flags ?vs ''age-recipient'' = ''age1''"
    by code_simp+
  ultimately show ?thesis using run_exit_zero [of dev_run] dev_args(1) by fastforce
qed

end
