(* ===== verification/Onboard.thy ===== *)
theory Onboard
  imports UrlRoundtrip GoIndent
begin

section \<open>Onboarding: generated grants and policies\<close>

text \<open>
  The file \<open>onboard/onboard.go\<close>: the SQL scripts that create a read-only backup role and the S3
  policy of a destination. Their readers, the lexers of SQL, the wildcard rule of a grant on a
  MySQL database and the evaluation of an IAM policy, are specified from their documentation, and
  the lemmas show that a script does to exactly the named objects what it says, whatever
  characters the names hold, and that the policy covers exactly the keys below the prefix.
\<close>

definition sq :: string where "sq = [CHR 0x27]"

definition dq :: string where "dq = [CHR 0x22]"

definition backslash :: char where "backslash = CHR 0x5C"

definition valid_ident :: "string \<Rightarrow> string \<Rightarrow> goerr option" where
  "valid_ident kind s =
     (if s = [] then Some (Errorf ''%s name must not be empty'' [kind] None)
      else if list_ex is_ctl s then Some (Errorf ''%s name must not contain control characters'' [kind] None)
      else None)"

definition pg_ident :: "string \<Rightarrow> string" where
  "pg_ident s = dq @ replace_char CHR 0x22 (dq @ dq) s @ dq"

definition my_ident :: "string \<Rightarrow> string" where
  "my_ident s = ''`'' @ replace_char CHR ''`'' ''``'' s @ ''`''"

text \<open>\<open>strings.NewReplacer\<close> with texts of one byte replaces byte by byte.\<close>

definition like_escape :: "string \<Rightarrow> string" where
  "like_escape s = concat (map (\<lambda>c. if c \<in> {backslash, CHR ''_'', CHR ''%''} then [backslash, c] else [c]) s)"

definition my_grant_db :: "string \<Rightarrow> string" where
  "my_grant_db s = ''`'' @ replace_char CHR ''`'' ''``'' (like_escape s) @ ''`''"

definition my_grant_needs_escape :: "string \<Rightarrow> bool" where
  "my_grant_needs_escape s = contains_any s [CHR ''_'', CHR ''%'', backslash]"

definition my_string :: "string \<Rightarrow> string" where
  "my_string s = replace_char CHR 0x27 (sq @ sq) (replace_char backslash [backslash, backslash] s)"

text \<open>A script is given by its lines, each ended by a line feed.\<close>

definition unlines :: "string list \<Rightarrow> string" where
  "unlines ls = concat (map (\<lambda>l. l @ [CHR 0x0A]) ls)"

fun first_error :: "('a \<Rightarrow> goerr option) \<Rightarrow> 'a list \<Rightarrow> goerr option" where
  "first_error f [] = None"
| "first_error f (x # xs) = (case f x of Some e \<Rightarrow> Some e | None \<Rightarrow> first_error f xs)"

definition pg_connect_lines :: "string \<Rightarrow> string \<Rightarrow> string list" where
  "pg_connect_lines u d =
     [''REVOKE CONNECT ON DATABASE '' @ pg_ident d @ '' FROM PUBLIC;'',
      ''GRANT CONNECT ON DATABASE '' @ pg_ident d @ '' TO '' @ u @ '';'']"

definition pg_script :: "string \<Rightarrow> string list \<Rightarrow> string list" where
  "pg_script u databases =
     [''-- Run in psql as a superuser (or the database owner).'',
      ''-- 1. The backup role. The password prompt stores it encrypted '' @ em_dash @ '' it never'',
      ''--    appears in this script, your shell history or the server log:'',
      ''CREATE ROLE '' @ u @ '' LOGIN;'',
      [backslash] @ ''password '' @ u,
      [],
      ''-- 2. Read access: pg_read_all_data covers every schema, table, sequence'',
      ''--    and future object; CONNECT on just the listed databases keeps the'',
      ''--    scope to them (the role cannot connect anywhere you do not grant'',
      ''--    CONNECT).'',
      ''GRANT pg_read_all_data TO '' @ u @ '';'']
     @ concat (map (pg_connect_lines u) databases)
     @ [[],
      ''-- Note: REVOKE ... FROM PUBLIC is what makes CONNECT meaningful '' @ em_dash @ '' without'',
      ''-- it, PostgreSQL lets any role connect to any database by default. Skip'',
      ''-- that line if your application roles rely on the default; the backup role'',
      ''-- still cannot connect to databases where PUBLIC is already revoked.'',
      [],
      ''-- 3. Scope check: pg_read_all_data reads ANY database this role can connect'',
      ''--    to, and other databases in this cluster may still allow everyone to'',
      ''--    connect (PostgreSQL'' @ sq @ ''s default). List the ones still open:'',
      ''--'',
      ''--      SELECT datname FROM pg_database'',
      ''--      WHERE datallowconn AND NOT datistemplate'',
      ''--        AND (datacl IS NULL OR EXISTS ('',
      ''--              SELECT 1 FROM aclexplode(datacl) a'',
      ''--              WHERE a.grantee = 0 AND a.privilege_type = '' @ sq @ ''CONNECT'' @ sq @ ''));'',
      ''--'',
      ''--    For each database this role must NOT read, close the default (grant'',
      ''--    your application roles their own CONNECT first if they lack one):'',
      ''--'',
      ''--      REVOKE CONNECT ON DATABASE <name> FROM PUBLIC;'',
      [],
      ''-- Note: large objects (lo), if you use them, carry per-object ACLs that no'',
      ''-- role-level grant covers; the dbferry doctor lists any this role cannot'',
      ''-- read (fix: GRANT SELECT ON LARGE OBJECT <oid>, or change their owner).'']"

definition PostgresGrants :: "string \<Rightarrow> string list \<Rightarrow> goerr + string" where
  "PostgresGrants user databases =
     (case valid_ident ''role'' user of
        Some e \<Rightarrow> Inl e
      | None \<Rightarrow>
          if databases = [] then Inl (Errorf ''at least one database name is required'' [] None)
          else (case first_error (valid_ident ''database'') databases of
                  Some e \<Rightarrow> Inl e
                | None \<Rightarrow> Inr (unlines (pg_script (pg_ident user) databases))))"

text \<open>The account \<open>'user'@'%'\<close>, and a grant on a database.\<close>

definition my_account :: "string \<Rightarrow> string" where
  "my_account u = sq @ u @ sq @ ''@'' @ sq @ ''%'' @ sq"

definition my_grant :: "string \<Rightarrow> string \<Rightarrow> string" where
  "my_grant db u = ''GRANT SELECT, SHOW VIEW, EVENT, TRIGGER ON '' @ db @ ''.* TO '' @ my_account u @ '';''"

definition my_grant_lines :: "string \<Rightarrow> string list \<Rightarrow> string list" where
  "my_grant_lines u databases =
     (let escaped = filter my_grant_needs_escape databases in
      [''-- 2. Read access to the database(s) being backed up:'']
      @ map (\<lambda>d. my_grant (my_grant_db d) u) (filter (\<lambda>d. \<not> my_grant_needs_escape d) databases)
      @ (if escaped = [] then []
         else [''--'',
           ''-- The names below contain _, % or '' @ [backslash] @ '' '' @ em_dash @ '' characters database-level grants'',
           ''-- treat as LIKE wildcards (or their escape) unless partial_revokes is ON,'',
           ''-- and the two server modes need DIFFERENT spellings of the same name.'',
           ''-- Check the mode first, then uncomment and run exactly ONE line per'',
           ''-- database:'',
           ''--'',
           ''--      SELECT @@partial_revokes;'',
           ''--'']
           @ concat (map (\<lambda>d. [''-- if 0 (default): '' @ my_grant (my_grant_db d) u,
                                ''-- if 1:           '' @ my_grant (my_ident d) u]) escaped)))"

definition my_script :: "string \<Rightarrow> string list \<Rightarrow> string list" where
  "my_script u databases =
     [''-- Run as an administrative user.'',
      ''-- 1. The backup user. The server GENERATES the password and prints it in'',
      ''--    the result '' @ em_dash @ '' copy it into dbferry now, it is shown only once:'',
      ''CREATE USER '' @ my_account u @ '' IDENTIFIED BY RANDOM PASSWORD;'',
      []]
     @ my_grant_lines u databases
     @ [[],
      ''-- 3. Stored procedures/functions in the dump (MySQL 8.0.20+):'',
      ''GRANT SHOW_ROUTINE ON *.* TO '' @ my_account u @ '';'',
      ''-- (on older servers use instead: GRANT SELECT ON mysql.proc TO '' @ my_account u @ '';)'',
      [],
      ''FLUSH PRIVILEGES;'']"

definition MySQLGrants :: "string \<Rightarrow> string list \<Rightarrow> goerr + string" where
  "MySQLGrants user databases =
     (case valid_ident ''user'' user of
        Some e \<Rightarrow> Inl e
      | None \<Rightarrow>
          if databases = [] then Inl (Errorf ''at least one database name is required'' [] None)
          else (case first_error (valid_ident ''database'') databases of
                  Some e \<Rightarrow> Inl e
                | None \<Rightarrow> Inr (unlines (my_script (my_string user) databases))))"

subsection \<open>How the servers read names\<close>

text \<open>The text behind an opening quote, up to a closing one; a doubled quote stands for one. The
  literals of MySQL also have backslash escapes.\<close>

fun read_quoted :: "char \<Rightarrow> string \<Rightarrow> (string \<times> string) option" where
  "read_quoted q [] = None"
| "read_quoted q [c] = (if c = q then Some ([], []) else None)"
| "read_quoted q (c # d # r) =
     (if c \<noteq> q then push [c] (read_quoted q (d # r))
      else if d = q then push [q] (read_quoted q r)
      else Some ([], d # r))"

fun read_literal :: "string \<Rightarrow> (string \<times> string) option" where
  "read_literal [] = None"
| "read_literal [c] = (if c = CHR 0x27 then Some ([], []) else None)"
| "read_literal (c # d # r) =
     (if c = backslash then push [d] (read_literal r)
      else if c \<noteq> CHR 0x27 then push [c] (read_literal (d # r))
      else if d = CHR 0x27 then push [CHR 0x27] (read_literal r)
      else Some ([], d # r))"

text \<open>The database of a grant, where partial revokes are off: \<open>_\<close> is any byte, \<open>%\<close> any text, and a
  backslash takes the byte behind it literally.\<close>

fun like_match :: "string \<Rightarrow> string \<Rightarrow> bool" where
  "like_match [] t = (t = [])"
| "like_match (c # p) t =
     (if c = backslash then (case p of
         [] \<Rightarrow> t = [c]
       | d # p' \<Rightarrow> (case t of x # t' \<Rightarrow> x = d \<and> like_match p' t' | [] \<Rightarrow> False))
      else if c = CHR ''%'' then list_ex (\<lambda>n. like_match p (drop n t)) [0..<Suc (length t)]
      else (case t of x # t' \<Rightarrow> (c = CHR ''_'' \<or> x = c) \<and> like_match p t' | [] \<Rightarrow> False))"

definition covers :: "bool \<Rightarrow> string \<Rightarrow> string \<Rightarrow> bool" where
  "covers partial_revokes p t = (if partial_revokes then t = p else like_match p t)"

lemma read_quoted_other: "c \<noteq> q \<Longrightarrow> s \<noteq> [] \<Longrightarrow> read_quoted q (c # s) = push [c] (read_quoted q s)"
  by (cases s) auto

lemma read_literal_other:
  "c \<noteq> backslash \<Longrightarrow> c \<noteq> CHR 0x27 \<Longrightarrow> s \<noteq> [] \<Longrightarrow> read_literal (c # s) = push [c] (read_literal s)"
  by (cases s) auto

definition ends_with_other :: "char \<Rightarrow> string \<Rightarrow> bool" where
  "ends_with_other q r \<longleftrightarrow> r = [] \<or> hd r \<noteq> q"

lemma read_doubled:
  assumes "ends_with_other q r"
  shows "read_quoted q (replace_char q [q, q] s @ q # r) = Some (s, r)"
proof (induction s)
  case Nil
  then show ?case using assms by (cases r) (auto simp: replace_char_def ends_with_other_def)
next
  case (Cons c s)
  then show ?case by (cases "c = q") (simp_all add: replace_char_def read_quoted_other)
qed

lemma read_my_string:
  assumes "ends_with_other CHR 0x27 r"
  shows "read_literal (my_string s @ CHR 0x27 # r) = Some (s, r)"
proof (induction s)
  case Nil
  then show ?case using assms by (cases r) (auto simp: my_string_def replace_char_def ends_with_other_def backslash_def)
next
  case (Cons c s)
  consider "c = backslash" | "c = CHR 0x27" | "c \<noteq> backslash" "c \<noteq> CHR 0x27" by blast
  then show ?case
    using Cons by cases (simp_all add: my_string_def replace_char_def sq_def read_literal_other backslash_def)
qed

lemma like_match_escape: "like_match (like_escape d) t \<longleftrightarrow> t = d"
proof (induction d arbitrary: t)
  case Nil
  then show ?case by (simp add: like_escape_def)
next
  case (Cons c d)
  have "like_escape (c # d) = (if c \<in> {backslash, CHR ''_'', CHR ''%''} then [backslash, c] else [c]) @ like_escape d"
    by (simp add: like_escape_def)
  then show ?case using Cons by (cases t) (auto split: if_splits)
qed

lemma like_escape_plain: "\<not> my_grant_needs_escape d \<Longrightarrow> like_escape d = d"
  by (induction d) (auto simp: like_escape_def my_grant_needs_escape_def contains_any_def)

text \<open>Names come through: a quoted name is read by the server, whatever follows it, as exactly
  the name it was made of, for identifiers of both engines and for string literals of MySQL.\<close>

theorem quoted_names_read_back:
  assumes "ends_with_other CHR 0x22 r" "ends_with_other CHR ''`'' r" "ends_with_other CHR 0x27 r"
  shows "read_quoted CHR 0x22 (tl (pg_ident s @ r)) = Some (s, r)
    \<and> read_quoted CHR ''`'' (tl (my_ident s @ r)) = Some (s, r)
    \<and> read_literal (my_string s @ sq @ r) = Some (s, r)"
  using read_doubled [OF assms(1), of s] read_doubled [OF assms(2), of s] read_my_string [OF assms(3), of s]
  by (simp add: pg_ident_def my_ident_def dq_def sq_def)

theorem quoted_names_read_back_witness:
  "read_quoted CHR 0x22 (tl (pg_ident (''a'' @ [CHR 0x22] @ ''; DROP'') @ '' TO x;'')) = Some (''a'' @ [CHR 0x22] @ ''; DROP'', '' TO x;'')"
  using quoted_names_read_back [of "'' TO x;''" "''a'' @ [CHR 0x22] @ ''; DROP''"] by (simp add: ends_with_other_def)

subsection \<open>The lines of a script\<close>

lemma split_unlines: "\<forall>l \<in> set ls. CHR 0x0A \<notin> set l \<Longrightarrow> split_on CHR 0x0A (unlines ls) = ls @ [[]]"
proof (induction ls)
  case (Cons l ls)
  then show ?case using split_on_append_sep [of "CHR 0x0A" l "unlines ls"] by (simp add: unlines_def split_on_word)
qed (simp add: unlines_def)

lemma replace_char_free: "x \<notin> set new \<Longrightarrow> x \<notin> set s \<Longrightarrow> x \<notin> set (replace_char c new s)"
  by (auto simp: replace_char_def)

lemma ident_lines:
  assumes "CHR 0x0A \<notin> set s"
  shows "CHR 0x0A \<notin> set (pg_ident s)" "CHR 0x0A \<notin> set (my_ident s)" "CHR 0x0A \<notin> set (my_string s)"
    "CHR 0x0A \<notin> set (my_grant_db s)"
proof -
  have "CHR 0x0A \<notin> set (like_escape s)" using assms by (auto simp: like_escape_def backslash_def)
  then show "CHR 0x0A \<notin> set (my_grant_db s)" by (simp add: my_grant_db_def replace_char_free)
  show "CHR 0x0A \<notin> set (my_string s)" "CHR 0x0A \<notin> set (pg_ident s)" "CHR 0x0A \<notin> set (my_ident s)"
    using assms by (simp_all add: my_string_def pg_ident_def my_ident_def dq_def sq_def backslash_def replace_char_free)
qed

lemma first_error_None: "first_error f xs = None \<longleftrightarrow> (\<forall>x \<in> set xs. f x = None)"
  by (induction xs) (auto split: option.splits)

lemma valid_ident_line: "valid_ident kind s = None \<Longrightarrow> CHR 0x0A \<notin> set s"
proof
  assume v: "valid_ident kind s = None" and "CHR 0x0A \<in> set s"
  moreover have "is_ctl CHR 0x0A" by (simp add: is_ctl_def)
  ultimately have "list_ex is_ctl s" unfolding list_ex_iff by blast
  then show False using v by (simp add: valid_ident_def split: if_splits)
qed

lemma line_free: "list_all (\<lambda>l. CHR 0x0A \<notin> set l) ls \<Longrightarrow> \<forall>l \<in> set ls. CHR 0x0A \<notin> set l"
  by (simp add: list_all_iff)

lemma lines_concat: "list_all P (concat xss) \<longleftrightarrow> list_all (list_all P) xss"
  by (induction xss) simp_all

lemma pg_script_lines:
  assumes "CHR 0x0A \<notin> set u" "\<forall>d \<in> set databases. CHR 0x0A \<notin> set d"
  shows "list_all (\<lambda>l. CHR 0x0A \<notin> set l) (pg_script u databases)"
  using assms ident_lines
  by (simp add: pg_script_def pg_connect_lines_def lines_concat list_all_iff em_dash_def sq_def backslash_def)

lemma my_account_line: "CHR 0x0A \<notin> set u \<Longrightarrow> CHR 0x0A \<notin> set (my_account u)"
  by (simp add: my_account_def sq_def)

lemma my_grant_line: "CHR 0x0A \<notin> set u \<Longrightarrow> CHR 0x0A \<notin> set db \<Longrightarrow> CHR 0x0A \<notin> set (my_grant db u)"
  by (simp add: my_grant_def my_account_line)

lemma my_grant_lines_free:
  assumes "CHR 0x0A \<notin> set u" "\<forall>d \<in> set databases. CHR 0x0A \<notin> set d"
  shows "list_all (\<lambda>l. CHR 0x0A \<notin> set l) (my_grant_lines u databases)"
proof -
  have g: "CHR 0x0A \<notin> set (my_grant (my_grant_db d) u)" "CHR 0x0A \<notin> set (my_grant (my_ident d) u)"
    if "d \<in> set databases" for d
    using that assms my_grant_line ident_lines by simp_all
  then have "list_all (\<lambda>l. CHR 0x0A \<notin> set l) (map (\<lambda>d. my_grant (my_grant_db d) u) (filter P databases))"
    "list_all (\<lambda>l. CHR 0x0A \<notin> set l) (concat (map (\<lambda>d. [''-- if 0 (default): '' @ my_grant (my_grant_db d) u,
       ''-- if 1:           '' @ my_grant (my_ident d) u]) (filter P databases)))" for P
    by (simp_all add: list_all_iff)
  then show ?thesis by (simp add: my_grant_lines_def Let_def em_dash_def backslash_def)
qed

lemma my_script_lines:
  assumes "CHR 0x0A \<notin> set u" "\<forall>d \<in> set databases. CHR 0x0A \<notin> set d"
  shows "list_all (\<lambda>l. CHR 0x0A \<notin> set l) (my_script u databases)"
  using my_grant_lines_free [OF assms] my_account_line [OF assms(1)] by (simp add: my_script_def em_dash_def)

text \<open>The statements a script is meant to consist of; the other lines are empty or comments.\<close>

definition pg_statements :: "string \<Rightarrow> string list \<Rightarrow> string list" where
  "pg_statements user databases =
     [''CREATE ROLE '' @ pg_ident user @ '' LOGIN;'', [backslash] @ ''password '' @ pg_ident user,
      ''GRANT pg_read_all_data TO '' @ pg_ident user @ '';'']
     @ concat (map (pg_connect_lines (pg_ident user)) databases)"

definition my_statements :: "string \<Rightarrow> string list \<Rightarrow> string list" where
  "my_statements user databases =
     [''CREATE USER '' @ my_account (my_string user) @ '' IDENTIFIED BY RANDOM PASSWORD;'']
     @ map (\<lambda>d. my_grant (my_ident d) (my_string user)) (filter (\<lambda>d. \<not> my_grant_needs_escape d) databases)
     @ [''GRANT SHOW_ROUTINE ON *.* TO '' @ my_account (my_string user) @ '';'', ''FLUSH PRIVILEGES;'']"

definition statements_of :: "string \<Rightarrow> string list" where
  "statements_of script = filter (\<lambda>l. l \<noteq> [] \<and> \<not> has_prefix l ''--'') (split_on CHR 0x0A script)"

lemma comment_connect: "filter (\<lambda>l. l \<noteq> [] \<and> \<not> has_prefix l ''--'') (concat (map (pg_connect_lines u) ds))
    = concat (map (pg_connect_lines u) ds)"
  by (induction ds) (simp_all add: pg_connect_lines_def)

lemma pg_script_statements:
  "filter (\<lambda>l. l \<noteq> [] \<and> \<not> has_prefix l ''--'') (pg_script (pg_ident user) databases) = pg_statements user databases"
  by (simp add: pg_script_def pg_statements_def comment_connect backslash_def pg_ident_def dq_def)

lemma grants_kept: "filter (\<lambda>l. l \<noteq> [] \<and> \<not> has_prefix l ''--'') (map (\<lambda>d. my_grant (f d) u) ds) = map (\<lambda>d. my_grant (f d) u) ds"
  by (induction ds) (simp_all add: my_grant_def)

lemma alternatives_dropped: "filter (\<lambda>l. l \<noteq> [] \<and> \<not> has_prefix l ''--'')
    (concat (map (\<lambda>d. [''-- if 0 (default): '' @ f d, ''-- if 1:           '' @ g d]) ds)) = []"
  by (induction ds) simp_all

lemma my_script_statements:
  "filter (\<lambda>l. l \<noteq> [] \<and> \<not> has_prefix l ''--'') (my_script (my_string user) databases) = my_statements user databases"
proof -
  have "map (\<lambda>d. my_grant (my_grant_db d) u) (filter (\<lambda>d. \<not> my_grant_needs_escape d) databases)
      = map (\<lambda>d. my_grant (my_ident d) u) (filter (\<lambda>d. \<not> my_grant_needs_escape d) databases)" for u
    by (simp add: my_grant_db_def my_ident_def like_escape_plain)
  then show ?thesis
    by (simp add: my_script_def my_statements_def my_grant_lines_def Let_def grants_kept alternatives_dropped)
qed

lemma script_names:
  assumes "valid_ident kind user = None" "first_error (valid_ident kind') databases = None"
  shows "CHR 0x0A \<notin> set user" "\<forall>d \<in> set databases. CHR 0x0A \<notin> set d"
  using assms valid_ident_line unfolding first_error_None by blast+

lemma pg_script_ok:
  assumes "PostgresGrants user databases = Inr script"
  shows "split_on CHR 0x0A script = pg_script (pg_ident user) databases @ [[]]"
proof -
  have ok: "valid_ident ''role'' user = None" "first_error (valid_ident ''database'') databases = None"
    and script: "script = unlines (pg_script (pg_ident user) databases)"
    using assms by (auto simp: PostgresGrants_def split: option.splits if_splits)
  show ?thesis unfolding script
    by (rule split_unlines [OF line_free [OF pg_script_lines [OF ident_lines(1) [OF script_names(1) [OF ok]] script_names(2) [OF ok]]]])
qed

lemma my_script_ok:
  assumes "MySQLGrants user databases = Inr script"
  shows "split_on CHR 0x0A script = my_script (my_string user) databases @ [[]]"
proof -
  have ok: "valid_ident ''user'' user = None" "first_error (valid_ident ''database'') databases = None"
    and script: "script = unlines (my_script (my_string user) databases)"
    using assms by (auto simp: MySQLGrants_def split: option.splits if_splits)
  show ?thesis unfolding script
    by (rule split_unlines [OF line_free [OF my_script_lines [OF ident_lines(3) [OF script_names(1) [OF ok]] script_names(2) [OF ok]]]])
qed


text \<open>The database pattern of a grant statement on one database.\<close>

definition grant_pattern :: "string \<Rightarrow> string option" where
  "grant_pattern line =
     (let p = ''GRANT SELECT, SHOW VIEW, EVENT, TRIGGER ON `'' in
      if has_prefix line p then map_option fst (read_quoted CHR ''`'' (drop (length p) line)) else None)"

lemma pattern_of_grant: "grant_pattern (my_grant (my_ident d) u) = Some d" "grant_pattern (my_grant (my_grant_db d) u) = Some (like_escape d)"
proof -
  have r: "ends_with_other CHR ''`'' (''.* TO '' @ r)" for r by (simp add: ends_with_other_def)
  show "grant_pattern (my_grant (my_ident d) u) = Some d" "grant_pattern (my_grant (my_grant_db d) u) = Some (like_escape d)"
    using read_doubled [OF r] by (simp_all add: grant_pattern_def my_grant_def my_ident_def my_grant_db_def Let_def)
qed

lemma covers_plain: "\<not> my_grant_needs_escape d \<Longrightarrow> covers b d t \<longleftrightarrow> t = d"
  using like_match_escape [of d t] by (simp add: covers_def like_escape_plain)



subsection \<open>The S3 policy\<close>

definition ValidatePrefix :: "string \<Rightarrow> goerr + string" where
  "ValidatePrefix pre =
     (let p = trim_of {CHR ''/''} pre in
      if p = [] then Inr []
      else if contains_any p ''*?'' then Inl (Errorf ''prefix must not contain wildcard characters (* or ?)'' [] None)
      else if contains p ''%''
      then Inl (Errorf ''prefix must not contain percent signs (URL-encoding is ambiguous across S3 tools)'' [] None)
      else if contains p ''${'' then Inl (Errorf ''prefix must not contain IAM policy variables (${...})'' [] None)
      else if list_ex is_ctl p then Inl (Errorf ''prefix must not contain control characters'' [] None)
      else if contains p ''//'' then Inl (Errorf ''prefix must not contain empty path segments (//)'' [] None)
      else if list_ex (\<lambda>seg. seg = ''.'' \<or> seg = ''..'') (split_on CHR ''/'' p)
      then Inl (Errorf ''prefix must not contain path navigation segments (. or ..)'' [] None)
      else Inr p)"

definition object_actions :: "bool \<Rightarrow> string list" where
  "object_actions with_delete =
     [''s3:PutObject'', ''s3:AbortMultipartUpload'', ''s3:ListMultipartUploadParts'', ''s3:GetObject'']
     @ (if with_delete then [''s3:DeleteObject''] else [])"

definition bucket_arn :: "string \<Rightarrow> string" where
  "bucket_arn bucket = ''arn:aws:s3:::'' @ bucket"

text \<open>The members in the order in which \<open>encoding/json\<close> writes a map.\<close>

definition policy_doc :: "string \<Rightarrow> string \<Rightarrow> bool \<Rightarrow> json" where
  "policy_doc bucket p with_delete =
     (let obj = (if p \<noteq> [] then bucket_arn bucket @ ''/'' @ p @ ''/*'' else bucket_arn bucket @ ''/*'');
          listed = (if p \<noteq> [] then p @ ''/*'' else ''*'')
      in JObj [
           (''Statement'', JArr [
              JObj [(''Action'', JArr (map JStr (object_actions with_delete))), (''Effect'', JStr ''Allow''),
                    (''Resource'', JStr obj), (''Sid'', JStr ''DbferryBackupObjects'')],
              JObj [(''Action'', JArr [JStr ''s3:ListBucket'']),
                    (''Condition'', JObj [(''StringLike'', JObj [(''s3:prefix'', JStr listed)])]),
                    (''Effect'', JStr ''Allow''), (''Resource'', JStr (bucket_arn bucket)),
                    (''Sid'', JStr ''DbferryListPrefix'')]]),
           (''Version'', JStr ''2012-10-17'')])"

definition S3Policy :: "string \<Rightarrow> string \<Rightarrow> bool \<Rightarrow> goerr + string" where
  "S3Policy bucket pre with_delete =
     (if bucket = [] \<or> contains_any bucket ''*?/%''
      then Inl (Errorf ''bucket must be a plain bucket name (no wildcards, slashes or percent signs)'' [] None)
      else (case ValidatePrefix pre of
              Inl e \<Rightarrow> Inl e
            | Inr p \<Rightarrow> Inr (marshal_indent (policy_doc bucket p with_delete) @ [CHR 0x0A])))"

subsection \<open>What a policy allows\<close>

text \<open>The evaluation of an IAM policy: wildcards, statements that allow, and the condition
  \<open>StringLike\<close> on the prefix of a listing. Policy variables are not modelled.\<close>

fun iam_match :: "string \<Rightarrow> string \<Rightarrow> bool" where
  "iam_match [] t = (t = [])"
| "iam_match (c # p) t =
     (if c = CHR ''*'' then list_ex (\<lambda>n. iam_match p (drop n t)) [0..<Suc (length t)]
      else (case t of x # t' \<Rightarrow> (c = CHR ''?'' \<or> x = c) \<and> iam_match p t' | [] \<Rightarrow> False))"

definition member_of :: "string \<Rightarrow> json \<Rightarrow> json option" where
  "member_of k v = (case v of JObj ms \<Rightarrow> map_of ms k | _ \<Rightarrow> None)"

definition string_of :: "json \<Rightarrow> string list" where
  "string_of v = (case v of JStr s \<Rightarrow> [s] | _ \<Rightarrow> [])"

definition strings_of :: "json option \<Rightarrow> string list" where
  "strings_of v = (case v of Some (JArr xs) \<Rightarrow> concat (map string_of xs) | Some w \<Rightarrow> string_of w | None \<Rightarrow> [])"

definition condition_holds :: "json option \<Rightarrow> string option \<Rightarrow> bool" where
  "condition_holds c list_prefix =
     (case c of
        None \<Rightarrow> True
      | Some d \<Rightarrow>
          (case (member_of ''StringLike'' d, list_prefix) of
             (Some l, Some given) \<Rightarrow> list_ex (\<lambda>pat. iam_match pat given) (strings_of (member_of ''s3:prefix'' l))
           | _ \<Rightarrow> False))"

definition statement_allows :: "string \<Rightarrow> string \<Rightarrow> string option \<Rightarrow> json \<Rightarrow> bool" where
  "statement_allows action resource list_prefix st \<longleftrightarrow>
     member_of ''Effect'' st = Some (JStr ''Allow'')
     \<and> list_ex (\<lambda>a. a = action) (strings_of (member_of ''Action'' st))
     \<and> list_ex (\<lambda>pat. iam_match pat resource) (strings_of (member_of ''Resource'' st))
     \<and> condition_holds (member_of ''Condition'' st) list_prefix"

definition policy_allows :: "json \<Rightarrow> string \<Rightarrow> string \<Rightarrow> string option \<Rightarrow> bool" where
  "policy_allows doc action resource list_prefix =
     (case member_of ''Statement'' doc of
        Some (JArr sts) \<Rightarrow> list_ex (statement_allows action resource list_prefix) sts
      | _ \<Rightarrow> False)"

definition below :: "string \<Rightarrow> string \<Rightarrow> bool" where
  "below p key \<longleftrightarrow> p = [] \<or> has_prefix key (p @ ''/'')"

lemma iam_match_star: "iam_match ''*'' t"
  by (auto simp: list_ex_iff)

lemma iam_match_literal:
  "\<not> contains_any a ''*?'' \<Longrightarrow> iam_match (a @ p) t \<longleftrightarrow> (\<exists>r. t = a @ r \<and> iam_match p r)"
  by (induction a arbitrary: t) (auto simp: contains_any_def split: list.splits)

lemma contains_any_append: "contains_any (a @ b) cs \<longleftrightarrow> contains_any a cs \<or> contains_any b cs"
  by (simp add: contains_any_def)

lemma utf8_more_append: "utf8_more c s = Some k \<Longrightarrow> utf8_more c (s @ t) = Some k"
  using utf8_more_take [of c s k "drop k s @ t"] by (simp flip: append_assoc)

lemma valid_utf8_append: "valid_utf8 k s \<Longrightarrow> valid_utf8 0 t \<Longrightarrow> valid_utf8 k (s @ t)"
  by (induction k s rule: valid_utf8.induct) (auto simp: utf8_more_append split: option.splits)

lemma policy_below:
  assumes "\<not> contains_any p ''*?''"
  shows "iam_match (if p \<noteq> [] then p @ ''/*'' else ''*'') t \<longleftrightarrow> below p t"
  using iam_match_literal [of "p @ ''/''" "''*''" t] assms iam_match_star
  by (auto simp: below_def contains_any_append has_prefix_def prefix_def contains_any_def)

lemma trim_of_ends:
  assumes "c \<in> cs"
  shows "trim_of cs s \<noteq> c # t" "trim_of cs s \<noteq> t @ [c]"
proof -
  show "trim_of cs s \<noteq> c # t" using trim_of_no_prefix [OF assms, of s] by auto
  show "trim_of cs s \<noteq> t @ [c]"
  proof
    assume "trim_of cs s = t @ [c]"
    then have "dropWhile (\<lambda>c. c \<in> cs) (rev (trim_left_of cs s)) = c # rev t"
      by (simp add: trim_of_def trim_right_of_def rev_swap)
    then show False using assms by (simp add: dropWhile_eq_Cons_conv)
  qed
qed

lemma ValidatePrefix_ok:
  assumes "ValidatePrefix pre = Inr p"
  shows "p = trim_of {CHR ''/''} pre" "\<not> contains_any p ''*?''" "CHR ''%'' \<notin> set p" "\<not> list_ex is_ctl p"
    "p \<noteq> [] \<Longrightarrow> list_all safe_seg (split_on CHR ''/'' p)"
proof -
  show p: "p = trim_of {CHR ''/''} pre" using assms by (auto simp: ValidatePrefix_def Let_def split: if_splits)
  show "\<not> contains_any p ''*?''" "CHR ''%'' \<notin> set p" "\<not> list_ex is_ctl p"
    using assms by (auto simp: ValidatePrefix_def Let_def contains_any_def contains_char split: if_splits)
  assume ne: "p \<noteq> []"
  have c: "\<not> contains p ''//''" "\<not> list_ex (\<lambda>seg. seg = ''.'' \<or> seg = ''..'') (split_on CHR ''/'' p)"
    using assms ne by (auto simp: ValidatePrefix_def Let_def split: if_splits)
  have "w \<noteq> []" if w: "w \<in> set (split_on CHR ''/'' p)" for w
  proof
    assume "w = []"
    then obtain a b where ab: "split_on CHR ''/'' p = a @ [] # b" using w split_list by metis
    have j: "p = join_with ''/'' (a @ [] # b)" using join_split [of "CHR ''/''" p] ab by simp
    note ends = trim_of_ends [of "CHR ''/''" "{CHR ''/''}" pre]
    show False
    proof (cases "a = []"; cases "b = []")
      assume "a = []" "b = []"
      then show False using j ne by simp
    next
      assume "a = []" "b \<noteq> []"
      then show False using j ends(1) p by (simp add: join_with_Cons)
    next
      assume "a \<noteq> []" "b = []"
      then show False using j ends(2) p join_with_append [of a "[[]]" "''/''"] by simp
    next
      assume "a \<noteq> []" "b \<noteq> []"
      then have "p = join_with ''/'' a @ ''//'' @ join_with ''/'' b"
        using j join_with_append [of a "[] # b" "''/''"] by (simp add: join_with_Cons)
      then show False using c(1) contains_iff by blast
    qed
  qed
  then show "list_all safe_seg (split_on CHR ''/'' p)"
    using c(2) split_on_no_sep by (auto simp: list_all_iff list_ex_iff safe_seg_def)
qed

lemma string_values [simp]:
  "elems_ok (map JStr xs) = list_all (valid_utf8 0) xs" "elems_depth (map JStr xs) = 0"
  "concat (map (string_of \<circ> JStr) xs) = xs"
  by (induction xs) (simp_all add: string_of_def)

lemma policy_doc_ok:
  assumes "valid_utf8 0 bucket" "valid_utf8 0 p"
  shows "value_ok (policy_doc bucket p with_delete)" "value_depth (policy_doc bucket p with_delete) \<le> 10000"
proof -
  let ?obj = "if p \<noteq> [] then bucket_arn bucket @ ''/'' @ p @ ''/*'' else bucket_arn bucket @ ''/*''"
  let ?listed = "if p \<noteq> [] then p @ ''/*'' else ''*''"
  have utf: "valid_utf8 0 ''/*''" "valid_utf8 0 ''*''" "valid_utf8 0 ''/''" "valid_utf8 0 ''arn:aws:s3:::''"
    by code_simp+
  have ok: "valid_utf8 0 ?obj" "valid_utf8 0 ?listed" "valid_utf8 0 (bucket_arn bucket)"
    using assms utf by (auto simp: bucket_arn_def simp del: append.simps valid_utf8.simps intro!: valid_utf8_append)
  have words: "valid_utf8 0 ''Statement''" "valid_utf8 0 ''Action''" "valid_utf8 0 ''Effect''" "valid_utf8 0 ''Allow''"
    "valid_utf8 0 ''Resource''" "valid_utf8 0 ''Sid''" "valid_utf8 0 ''DbferryBackupObjects''" "valid_utf8 0 ''s3:ListBucket''"
    "valid_utf8 0 ''Condition''" "valid_utf8 0 ''StringLike''" "valid_utf8 0 ''s3:prefix''" "valid_utf8 0 ''DbferryListPrefix''"
    "valid_utf8 0 ''Version''" "valid_utf8 0 ''2012-10-17''"
    by code_simp+
  have "list_all (valid_utf8 0) (object_actions True)" "list_all (valid_utf8 0) (object_actions False)" by code_simp+
  then have "list_all (valid_utf8 0) (object_actions with_delete)" by (cases with_delete) simp_all
  then show "value_ok (policy_doc bucket p with_delete)"
    unfolding policy_doc_def Let_def using ok words by (simp only: value_ok.simps elems_ok.simps members_ok.simps string_values simp_thms)
  show "value_depth (policy_doc bucket p with_delete) \<le> 10000" by (simp add: policy_doc_def Let_def)
qed


subsection \<open>The policy and the pipeline\<close>

text \<open>Bucket names as S3 has them.\<close>

definition plain_bucket :: "string \<Rightarrow> bool" where
  "plain_bucket b \<longleftrightarrow> b \<noteq> []
     \<and> list_all (\<lambda>c. is_digit c \<or> (CHR ''a'' \<le> c \<and> c \<le> CHR ''z'') \<or> c \<in> set ''-.'') b"

lemma plain_bucket_host:
  assumes "plain_bucket b"
  shows "host_plain b" "parse_host b = Some b"
proof -
  have byte: "\<not> should_escape EncodeHost c \<and> c \<noteq> CHR ''['' \<and> c \<noteq> CHR '':'' \<and> c \<noteq> CHR ''%''" if "c \<in> set b" for c
  proof -
    have "is_digit c \<or> is_alpha c \<or> c = CHR ''-'' \<or> c = CHR ''.''"
      using that assms by (auto simp: plain_bucket_def list_all_iff is_alpha_def)
    then show ?thesis
    proof (elim disjE)
      assume "is_digit c"
      then show ?thesis using alnum_plain [of c] by (auto simp: is_digit_def)
    next
      assume "is_alpha c"
      then show ?thesis using alnum_plain [of c] by (auto simp: is_alpha_def less_eq_char_def)
    next
      assume "c = CHR ''-''"
      moreover have "\<not> should_escape EncodeHost CHR ''-''" by code_simp
      ultimately show ?thesis by simp
    next
      assume "c = CHR ''.''"
      moreover have "\<not> should_escape EncodeHost CHR ''.''" by code_simp
      ultimately show ?thesis by simp
    qed
  qed
  then show hp: "host_plain b" by (simp add: host_plain_def list_all_iff)
  have un: "unescape EncodeHost s = Some s" if "set s \<subseteq> set b" for s
    using that by (induction s) (auto dest: byte)
  have "\<not> has_prefix b ''[''" using byte [of "CHR ''[''"] by (cases b) auto
  moreover have "cut_last CHR '':'' b = None" using byte by (auto simp: cut_last_def)
  ultimately show "parse_host b = Some b" using un by (simp add: parse_host_def)
qed

lemma unescape_path_plain: "CHR ''%'' \<notin> set s \<Longrightarrow> unescape EncodePath s = Some s"
  by (induction s) auto

lemma trim_of_Cons: "c \<in> cs \<Longrightarrow> trim_of cs (c # s) = trim_of cs s"
  by (simp add: trim_of_def trim_left_of_def)

lemma trim_of_bytes: "set s \<subseteq> set (trim_of cs s) \<union> cs"
proof -
  have l: "set s \<subseteq> set (dropWhile (\<lambda>c. c \<in> cs) s) \<union> cs" for s
    using set_takeWhileD [of _ "\<lambda>c. c \<in> cs" s] by (auto, metis Un_iff set_append takeWhile_dropWhile_id)
  show ?thesis using l [of s] l [of "rev (dropWhile (\<lambda>c. c \<in> cs) s)"]
    by (auto simp: trim_of_def trim_left_of_def trim_right_of_def)
qed

text \<open>The destination of a bucket and a prefix, as the pipeline reads it.\<close>

lemma parse_dest_of:
  assumes "ValidatePrefix pre = Inr p" "plain_bucket bucket" "CHR ''#'' \<notin> set pre"
  shows "parse_dest (''s3://'' @ bucket @ ''/'' @ pre) = Inr \<lparr>d_bucket = bucket, d_prefix = p\<rparr>"
proof -
  note pok = ValidatePrefix_ok [OF assms(1)]
  have pb: "text_byte c \<and> c \<noteq> CHR ''?'' \<and> c \<noteq> CHR ''%''" if "c \<in> set pre" for c
  proof -
    have "c \<in> set p \<or> c = CHR ''/''" using trim_of_bytes [of pre "{CHR ''/''}"] pok(1) that by auto
    moreover have "text_byte CHR ''/''" by (simp add: text_byte_def is_ctl_def)
    moreover have "c \<noteq> CHR ''?'' \<and> c \<noteq> CHR ''%'' \<and> \<not> is_ctl c" if "c \<in> set p"
      using that pok(2-4) unfolding contains_any_def list_ex_iff by fastforce
    ultimately show ?thesis using assms(3) that unfolding text_byte_def by (elim disjE) auto
  qed
  have bb: "text_byte c \<and> c \<noteq> CHR ''?'' \<and> c \<noteq> CHR ''/'' \<and> c \<noteq> CHR ''#''" if "c \<in> set bucket" for c
    using userinfo_text_byte [of c None bucket] plain_bucket_host(1) [OF assms(2)] that
    by (simp add: authority_text_def text_byte_def)
  let ?body = "''//'' @ bucket @ ''/'' @ pre"
  have s3: "scheme_ok ''s3''" by code_simp
  have slash: "text_byte CHR ''/''" by (simp add: text_byte_def is_ctl_def)
  obtain v where v: "parse_no_fragment (''s3'' @ CHR '':'' # ?body) = parse_rest v ?body" "url_scheme v = ''s3''"
    using parse_scheme_rest [OF s3, of ?body empty_url] pb bb slash
    by (force simp: query_text_def empty_url_def list_all_iff)
  have "parse_authority bucket = Some (None, bucket)"
    using parse_authority_text [OF plain_bucket_host [OF assms(2)], of None] by (simp add: authority_text_def user_shown_def)
  then have "parse_rest v ?body = set_path (''/'' @ pre) (v\<lparr>url_user := None, url_host := bucket\<rparr>)"
    using parse_rest_text [of v bucket "''/'' @ pre"] v(2) bb by (simp add: rooted_def)
  moreover have "unescape EncodePath (''/'' @ pre) = Some (''/'' @ pre)" using pb by (intro unescape_path_plain) auto
  moreover have "CHR ''#'' \<notin> set (''s3'' @ CHR '':'' # ?body)" using assms(3) bb by auto
  ultimately have "\<exists>u. url_parse (''s3'' @ CHR '':'' # ?body) = Some u \<and> url_scheme u = ''s3'' \<and> url_host u = bucket
      \<and> url_path u = ''/'' @ pre"
    using v by (simp add: url_parse_def cut_char_None set_path_def)
  then show ?thesis using assms(2) pok(1) by (auto simp: parse_dest_def plain_bucket_def trim_of_Cons)
qed

lemma joined_below:
  assumes "p \<noteq> [] \<Longrightarrow> list_all safe_seg (split_on CHR ''/'' p)" "vs \<noteq> []"
  shows "below p (join_with ''/'' (rel_segs p @ vs))"
proof (cases "p = []")
  case False
  then have "rel_segs p = split_on CHR ''/'' p" using assms(1) by (simp add: rel_segs_def clean_segs_safe)
  then show ?thesis using join_with_append [of "rel_segs p" vs "''/''"] assms(2) by (simp add: below_def)
qed (simp add: below_def)

text \<open>C22: the policy is enough for the pipeline: for a bucket name of S3 and an accepted prefix
  without a number sign, the pipeline reads the destination as this bucket and prefix, and every
  object it writes, its manifest and every scope it lists lie below the prefix of the policy.\<close>

theorem policy_covers_pipeline:
  assumes "ValidatePrefix pre = Inr p" "plain_bucket bucket" "CHR ''#'' \<notin> set pre"
    and "safe_seg engine" "safe_seg cluster" "CHR ''/'' \<notin> set bid"
  shows "\<exists>d. parse_dest (''s3://'' @ bucket @ ''/'' @ pre) = Inr d \<and> d_bucket d = bucket
    \<and> below p (object_key d engine cluster db t bid)
    \<and> below p (trim_suffix (object_key d engine cluster db t bid) ciphertext_suffix @ manifest_suffix)
    \<and> below p (scope_prefix d engine cluster db)"
proof -
  let ?d = "\<lparr>d_bucket = bucket, d_prefix = p\<rparr>"
  have dest: "parse_dest (''s3://'' @ bucket @ ''/'' @ pre) = Inr ?d" by (rule parse_dest_of [OF assms(1-3)])
  then have rel: "relative_prefix ?d" using parse_dest_relative by blast
  let ?ws = "[engine, cluster, sanitize_key_segment db, format_year t, format_month t]"
  have safe: "p \<noteq> [] \<Longrightarrow> list_all safe_seg (split_on CHR ''/'' p)" by (rule ValidatePrefix_ok(5) [OF assms(1)])
  have key: "object_key ?d engine cluster db t bid = join_with ''/'' (rel_segs p @ ?ws @ [bid]) @ ciphertext_suffix"
  proof -
    have "join_with ''/'' (xs @ [w @ s]) = join_with ''/'' (xs @ [w]) @ s" if "xs \<noteq> []" for xs :: "string list" and w s
      using that join_with_append [of xs "[w @ s]" "''/''"] join_with_append [of xs "[w]" "''/''"] by simp
    from this [of "rel_segs p @ ?ws" bid ciphertext_suffix] show ?thesis
      using object_key_segs [OF rel assms(4-6), of db t] by (simp add: prefix_segs_def)
  qed
  have b: "below p (join_with ''/'' (rel_segs p @ vs) @ s)" if "vs \<noteq> []" for vs s
    using joined_below [OF safe that] by (auto simp: below_def has_prefix_def)
  show ?thesis
    using dest key b [of "?ws @ [bid]"] b [of "[engine, cluster, sanitize_key_segment db]" "''/''"]
      scope_prefix_segs [OF rel assms(4,5), of db]
    by (intro exI [of _ ?d]) (simp add: prefix_segs_def)
qed



theorem policy_covers_pipeline_witness:
  "\<exists>d. parse_dest (''s3://b/'' @ ''team/one'') = Inr d
     \<and> below ''team/one'' (scope_prefix d ''mysql'' ''h'' ''d'')"
proof -
  have "ValidatePrefix ''team/one'' = Inr ''team/one''" "plain_bucket ''b''" "safe_seg ''mysql''" "safe_seg ''h''" by code_simp+
  then show ?thesis using policy_covers_pipeline [of "''team/one''" "''team/one''" "''b''" "''mysql''" "''h''" "''i''" "''d''"] by auto
qed

end
