(* ===== verification/Spec2Isabelle.thy ===== *)
theory Spec2Isabelle
  imports Bucket CliReports Onboard
begin

text \<open>
  A verification library for dbferry. The program streams a dump of a PostgreSQL or MySQL
  database through zstd and age into a bucket of an S3 compatible store, lists what a bucket
  holds, prunes it by a grandfather-father-son policy, and keeps named connections and
  destinations in a configuration file whose secrets live in the keychain or the environment.

  \<^bold>\<open>How the parts interact\<close>

  \<open>run_main\<close> (package \<open>cmd/dbferry\<close>) picks a command. A backup resolves a source, a destination and
  secrets from flags, the environment and the configuration (\<open>run_source\<close>), and calls \<open>Run\<close>: parse
  the DSN to a driver, test the connection, check server and client versions or table engines,
  start the dump tool, feed its output through compression and encryption into a pipe, read the
  pipe in parts and upload them concurrently, complete the upload, write the manifest last.
  \<open>list_backups\<close> pairs the objects below the scope of a database with their manifests and judges
  them; \<open>prune_with\<close> selects from that listing and deletes. The wizard and the subcommands of
  \<open>connections\<close> and \<open>destinations\<close> change the configuration under a lock.

  \<^bold>\<open>Conventions of the model\<close>

  Strings are byte strings, characters with codes below 256. A Go \<open>error\<close> is a value of \<open>goerr\<close>
  (a format text with its arguments and the wrapped error, a classification, or a foreign
  error), a fallible function returns a sum with the error on the left or an option of an
  error. Integers of the sources that cannot leave 64 bits are \<open>int\<close>; where decoding or arithmetic
  could, the range is part of the definition (\<open>int64\<close> for the members of a
  manifest). Whatever is outside the repository is a parameter: the answers of databases, the SDK
  calls as functions of the calls made before (\<open>object_api\<close>, \<open>multipart_api\<close>), system calls as the
  errors they return, the keychain as three functions, the TOML library as two. Effects are
  traces: every call on a store is recorded, so that theorems speak of what was deleted,
  completed or written, and in which order.

  \<^bold>\<open>Theories: the standard library the sources use\<close>

  \<^item> \<open>Prelude\<close>: byte strings, \<open>strings\<close>, quoting with \<open>%q\<close>, batches of a slice; the shared lemmas.
  \<^item> \<open>GoSort\<close>: \<open>sort.Slice\<close>, the locale \<open>strict_weak_order\<close> and what a sorted slice satisfies.
  \<^item> \<open>GoCalendar\<close>, \<open>GoTime\<close>: decimal numerals, the proleptic Gregorian calendar with its inverse,
    instants, ISO weeks, the two time layouts of the sources.
  \<^item> \<open>GoPath\<close>, \<open>GoUrl\<close>, \<open>UrlRoundtrip\<close>: \<open>path.Clean\<close>, \<open>url.Parse\<close> and \<open>URL.String\<close>; escaping is undone by
    unescaping, and a rendered URL parses back to its parts.
  \<^item> \<open>GoJson\<close>, \<open>GoIndent\<close>: the tokens and the grammar that \<open>json.Unmarshal\<close> accepts, \<open>json.Marshal\<close> and
    \<open>json.MarshalIndent\<close>; what is written is read back.
  \<^item> \<open>GoFlag\<close>: \<open>flag.FlagSet.Parse\<close> with errors returned.

  \<^bold>\<open>Theories: package pipeline\<close>

  \<^item> \<open>Errors\<close>: \<open>errors.go\<close>, kinds and sentinels through wrapped errors.
  \<^item> \<open>ObjectKey\<close>: \<open>objectkey.go\<close>, destinations, sanitized segments, keys, scopes. Different segments
    have different encodings, hence scopes of different databases are disjoint.
  \<^item> \<open>Dsn\<close>, \<open>Driver\<close>: \<open>parsePostgresDSN\<close>, \<open>parseMySQLDSN\<close>, cluster labels, transport security, the child
    processes with their environment, \<open>newDriver\<close>, \<open>withDefaults\<close>, \<open>newS3Client\<close>.
  \<^item> \<open>Manifest\<close>: \<open>manifest.go\<close>, the JSON text and its round trip.
  \<^item> \<open>PgClient\<close>, \<open>Grants\<close>, \<open>Engines\<close>, \<open>Diagnose\<close>: discovery and choice of \<open>pg_dump\<close>, the reading of
    \<open>SHOW GRANTS\<close> against a semantics of grants, connection tests and preflight of both engines,
    \<open>diagnose.go\<close> and \<open>probe.go\<close>.
  \<^item> \<open>Listing\<close>, \<open>Retention\<close>, \<open>Prune\<close>, \<open>Bucket\<close>: \<open>list.go\<close>, \<open>retention.go\<close>, \<open>prune.go\<close>. \<open>Bucket\<close> holds the
    contract of a store as the locale \<open>s3_bucket\<close>, interpreted by the fake store of the tests, and
    what listing and pruning achieve on it, interrupted passes included.
  \<^item> \<open>Stream\<close>, \<open>Upload\<close>: \<open>upload.go\<close>. \<open>stream_step\<close> is a step relation of the read loop and the uploading
    goroutines, with a semaphore, the first error of the group and cancellation at any time. An
    invariant and a measure give the equivalence with the sequential reference, a bound on the
    number of steps and freedom from deadlock. \<open>upload\<close> adds creation, completion, reconciliation
    by \<open>HeadObject\<close> and at most three attempts to abort, over the locale \<open>multipart_store\<close>.
  \<^item> \<open>RunPipeline\<close>: \<open>Run\<close> and \<open>feed\<close> of \<open>pipeline.go\<close>, the composition of the parts above.

  \<^bold>\<open>Theories: packages config and onboard\<close>

  \<^item> \<open>Redaction\<close>, \<open>Secrets\<close>: \<open>redact.go\<close>, \<open>secret.go\<close>; the keychain is the locale \<open>keyring_laws\<close>.
  \<^item> \<open>ConfigStore\<close>: \<open>config.go\<close>, \<open>store.go\<close>, \<open>store_unix.go\<close>; a save as the sequence of its system calls, with
    a failure or a crash after each, and \<open>rmw_step\<close>, concurrent read-modify-write cycles under the lock.
  \<^item> \<open>ConfigDsn\<close>: \<open>dsn.go\<close> and the validation of entries.
  \<^item> \<open>Onboard\<close>: \<open>onboard.go\<close>. The scripts are compared with a lexer of SQL statements, the \<open>LIKE\<close>
    semantics of MySQL grants and an evaluation of IAM policies.

  \<^bold>\<open>Theories: package cmd/dbferry\<close>

  \<^item> \<open>CliConfig\<close>: \<open>config_cmds.go\<close>, all subcommands on connections and destinations.
  \<^item> \<open>CliOutput\<close>: \<open>output.go\<close>, \<open>exitCode\<close>, \<open>renderChecks\<close>: results, failures and checks as text or JSON.
  \<^item> \<open>CliRun\<close>: \<open>cmdRun\<close>, \<open>resolveDSN\<close>, \<open>discovery.go\<close>, \<open>doctor.go\<close>.
  \<^item> \<open>CliInit\<close>: \<open>init_cmd.go\<close>, \<open>promptLine\<close>, and the dispatch \<open>run\<close> of \<open>main.go\<close>.
  \<^item> \<open>CliChanges\<close>, \<open>CliSession\<close>: the effects of commands on files and keychain, one case rule per change,
    and the sessions of commands as an inductive relation.
  \<^item> \<open>CliReports\<close>: what the commands report, as JSON and by their exit code.

  \<^bold>\<open>What the lemmas show\<close>

  Functional behaviour of every operation, errors included; the safety of deletion (only below
  the scope, only what the policy drops, never an orphan after an interruption); that a reported
  backup exists, is whole and is listed as valid, that a failed one leaves neither completed
  upload nor manifest, and that a run in which nothing fails succeeds; atomicity of saving and
  absence of lost updates; that exit codes and JSON documents tell the truth; redaction, references instead of secrets, and restoring them after a
  failure; exactness of grants and policies; well-formedness of the configuration over all
  sessions. Theorems about samples after the main ones apply them at concrete inputs.

  \<^bold>\<open>Bounds\<close>

  No definition has a fuel argument. Recursion that is not structural ends by a measure on the
  rest of the input: \<open>tokens\<close>, \<open>parse_args\<close>, \<open>replace_all\<close>, \<open>chunks\<close>, \<open>unit_steps\<close>. The three attempts of
  \<open>abort_attempts\<close>, 10000 parts, 1000 keys of a batch, 8192 bytes of standard error and the size limit
  of manifests are constants of the sources. The JSON reader limits nesting to 10000 as
  \<open>encoding/json\<close> does. The pages of a listing are a finite list, which is what a listing that
  returns has consumed.

  \<^bold>\<open>Not modelled\<close>

  \<^item> \<open>main\<close>, \<open>isTTY\<close>, \<open>readLineNoEcho\<close>, the signal context and the ticker that samples the progress
    counters: calls on the terminal and the runtime. What they deliver (lines, a canceled context,
    the sampled values) is a parameter.
  \<^item> \<open>DefaultPath\<close>, \<open>store_other.go\<close> (stubs for systems without Unix permissions), the helper program
    under \<open>test/\<close>.
  \<^item> zstd, age, the hash, the keychain, TOML, the AWS SDK, the database drivers, the ULID generator:
    libraries; parameters with the laws named in the theorems.
  \<^item> Case mapping beyond ASCII in the comparison of JSON member names and of grants; floating point
    (part sizes and rates); the help text of package \<open>flag\<close>; the order of equal elements in
    \<open>sort.Slice\<close> (the comparisons that matter are shown to be without ties, or the result not to
    depend on them); variables in IAM policies; the lock file and directories as files of the map.
\<close>

end
